theory Spec2Isabelle
  imports Main "HOL-Library.Word" "HOL-Library.Sublist"
begin

section \<open>Dmf\_RequestTarget.c: data model\<close>

text \<open>
  Framework handles (WDFREQUEST, WDFMEMORY, WDFCOLLECTION, WDFIOTARGET) and raw pointers
  are opaque addresses; \<open>0\<close> is the NULL handle.  The counter and the two identifiers of
  a request are LONGLONG, that is 64-bit words whose increment wraps.  The cookies
  RequestTarget\_DmfRequestCancel and RequestTarget\_DmfRequestReuse are the same 64-bit
  values, cast.
\<close>

type_synonym WDFREQUEST = nat
type_synonym WDFMEMORY = nat
type_synonym WDFCOLLECTION = nat
type_synonym WDFIOTARGET = nat
type_synonym pointer = nat
type_synonym LONGLONG = "64 word"
type_synonym size_t = "64 word"
type_synonym ULONG = "32 word"
type_synonym NTSTATUS = "32 word"

abbreviation NULL :: nat where
  "NULL \<equiv> 0"

text \<open>
  Modelled from the spec: the status type, the NT\_SUCCESS test and the two status
  constants the source names come from platform headers that are not part of the source
  tree.  A status is a signed 32-bit value and it is a success exactly when it is not
  negative; section 7 of the specification only needs that the not-found status is a
  failure.
\<close>

definition NT_SUCCESS :: "NTSTATUS \<Rightarrow> bool" where
  "NT_SUCCESS Status = (0 \<le> sint Status)"

definition STATUS_SUCCESS :: NTSTATUS where
  "STATUS_SUCCESS = 0"

definition STATUS_INVALID_PARAMETER :: NTSTATUS where
  "STATUS_INVALID_PARAMETER = 0xC000000D"

definition STATUS_OBJECTID_NOT_FOUND :: NTSTATUS where
  "STATUS_OBJECTID_NOT_FOUND = 0xC00002F0"

text \<open>
  The request types and completion options are enumerations of a header outside the
  source tree; the source names the constants below.  Any other value of the enumeration
  is \<open>RequestType_Invalid\<close>, respectively \<open>CompletionOptions_Maximum\<close>.  In that
  header ContinuousRequestTarget\_CompletionOptions\_Dispatch is a second name of the
  value ContinuousRequestTarget\_CompletionOptions\_Default.
\<close>

datatype ContinuousRequestTarget_RequestType =
    RequestType_Invalid
  | RequestType_InternalIoctl
  | RequestType_Ioctl
  | RequestType_Read
  | RequestType_Write

datatype ContinuousRequestTarget_CompletionOptions =
    CompletionOptions_Default
  | CompletionOptions_Passive
  | CompletionOptions_Maximum

abbreviation CompletionOptions_Dispatch :: ContinuousRequestTarget_CompletionOptions where
  "CompletionOptions_Dispatch \<equiv> CompletionOptions_Default"

text \<open>The context attached to every WDFREQUEST of this Module.\<close>

record UNIQUE_REQUEST =
  UniqueRequestIdCancel :: LONGLONG
  UniqueRequestIdReuse :: LONGLONG
  RequestInUse :: bool

text \<open>The buffer lent by the buffer pool for one asynchronous send.\<close>

record RequestTarget_SingleAsynchronousRequestContext =
  SingleAsynchronousRequestType :: ContinuousRequestTarget_RequestType
  EvtRequestTargetSingleAsynchronousRequest :: pointer
  SingleAsynchronousCallbackClientContext :: pointer

text \<open>
  The fields of WDF\_REQUEST\_COMPLETION\_PARAMS that the Module reads.  In C the three
  groups are members of a union; the Module reads only the group that belongs to the
  request type, so the groups are kept apart here.
\<close>

record WDF_REQUEST_COMPLETION_PARAMS =
  Read_Buffer :: WDFMEMORY
  Read_Length :: size_t
  Write_Buffer :: WDFMEMORY
  Write_Length :: size_t
  Ioctl_Input_Buffer :: WDFMEMORY
  Ioctl_Output_Buffer :: WDFMEMORY
  Ioctl_Output_Length :: size_t

record RequestTarget_QueuedWorkitemContext =
  Request :: WDFREQUEST
  CompletionParams :: WDF_REQUEST_COMPLETION_PARAMS
  SingleAsynchronousRequestContext :: pointer
  ReuseRequest :: bool

subsection \<open>Buffer extraction on completion\<close>

text \<open>
  RequestTarget\_CompletionParamsInputBufferAndOutputBufferGet.  The framework call
  WdfMemoryGetBuffer is the parameter \<open>WdfMemoryGetBuffer\<close>: it gives the address and the
  size of a memory object.  The result is (InputBuffer, InputBufferSize, OutputBuffer,
  OutputBufferSize).  The DmfAssert lines are checked-build diagnostics and change no
  value.
\<close>

definition RequestTarget_CompletionParamsInputBufferAndOutputBufferGet ::
  "(WDFMEMORY \<Rightarrow> pointer \<times> size_t) \<Rightarrow> WDF_REQUEST_COMPLETION_PARAMS \<Rightarrow>
   ContinuousRequestTarget_RequestType \<Rightarrow> pointer \<times> size_t \<times> pointer \<times> size_t" where
  "RequestTarget_CompletionParamsInputBufferAndOutputBufferGet WdfMemoryGetBuffer params RequestType =
     (if RequestType = RequestType_Read then
        (let OutputBufferSize = Read_Length params;
             outputMemory = Read_Buffer params;
             OutputBuffer = (if outputMemory \<noteq> NULL then fst (WdfMemoryGetBuffer outputMemory) else NULL)
         in (NULL, 0, OutputBuffer, OutputBufferSize))
      else if RequestType = RequestType_Write then
        (let InputBufferSize = Write_Length params;
             inputMemory = Write_Buffer params;
             InputBuffer = (if inputMemory \<noteq> NULL then fst (WdfMemoryGetBuffer inputMemory) else NULL)
         in (InputBuffer, InputBufferSize, NULL, 0))
      else if RequestType = RequestType_Ioctl \<or> RequestType = RequestType_InternalIoctl then
        (let inputMemory = Ioctl_Input_Buffer params;
             outputMemory = Ioctl_Output_Buffer params;
             (InputBuffer, InputBufferSize) =
               (if inputMemory \<noteq> NULL then WdfMemoryGetBuffer inputMemory else (NULL, 0));
             (OutputBuffer, OutputBufferSize) =
               (if outputMemory \<noteq> NULL
                then (fst (WdfMemoryGetBuffer outputMemory), Ioctl_Output_Length params)
                else (NULL, 0))
         in (InputBuffer, InputBufferSize, OutputBuffer, OutputBufferSize))
      else (NULL, 0, NULL, 0))"

section \<open>The Module's state and the framework around it\<close>

text \<open>
  The completion routine that WdfRequestSetCompletionRoutine installs on a request.
\<close>

datatype completion_routine =
    CompletionRoutine
  | CompletionRoutineReuse
  | CompletionRoutinePassive
  | CompletionRoutinePassiveReuse

text \<open>
  The calls the Module makes on framework objects are recorded in order, with the handles
  they act on; WdfRequestSend and WdfRequestCancelSentRequest are recorded with their
  answer, InterlockedIncrement64 with the value it returns.  Object creation is recorded
  when it succeeds.
\<close>

datatype wdf_call =
    Call_InterlockedIncrement64 LONGLONG
  | Call_WdfRequestCreate WDFREQUEST
  | Call_WdfRequestReuse WDFREQUEST
  | Call_WdfMemoryCreatePreallocated WDFMEMORY WDFREQUEST
  | Call_WdfIoTargetFormatRequest WDFREQUEST ContinuousRequestTarget_RequestType WDFMEMORY WDFMEMORY
  | Call_WdfRequestSetCompletionRoutine WDFREQUEST completion_routine pointer
  | Call_WdfRequestAllocateTimer WDFREQUEST
  | Call_WdfRequestSend WDFREQUEST bool
  | Call_WdfRequestCancelSentRequest WDFREQUEST bool
  | Call_WdfObjectReference WDFREQUEST
  | Call_WdfObjectDereference WDFREQUEST
  | Call_WdfObjectDelete nat

text \<open>
  What the framework, the target and the other Modules answer during one operation of
  this Module.  Each field is the answer of the call it is named after; a creation call
  answers with a status and the new handle, DMF\_BufferPool\_Get with a status and the
  address of the lent buffer.
\<close>

record framework =
  DMF_ModuleReference_result :: NTSTATUS
  DMF_IsModulePassiveLevel_result :: bool
  WdfRequestCreate_result :: "NTSTATUS \<times> WDFREQUEST"
  WdfMemoryCreatePreallocated_request :: "NTSTATUS \<times> WDFMEMORY"
  WdfMemoryCreatePreallocated_response :: "NTSTATUS \<times> WDFMEMORY"
  WdfRequestReuse_result :: NTSTATUS
  WdfIoTargetFormatRequest_result :: NTSTATUS
  DMF_BufferPool_Get_result :: "NTSTATUS \<times> pointer"
  WdfCollectionAdd_result :: NTSTATUS
  WdfRequestAllocateTimer_result :: NTSTATUS
  WdfRequestSend_result :: bool
  WdfRequestGetStatus_result :: NTSTATUS
  WdfRequestGetInformation_result :: size_t
  WdfRequestCancelSentRequest_result :: bool
  WdfRequestGetCompletionParams_result :: WDF_REQUEST_COMPLETION_PARAMS
  WdfMemoryGetBuffer :: "WDFMEMORY \<Rightarrow> pointer \<times> size_t"

text \<open>
  The state: the process-wide counter, the Module's context (the target and the handles
  of its two collections), the contents of the framework collections, the UNIQUE\_REQUEST
  context of every request handle, the buffers the buffer pool has lent and what the
  Module wrote into them, the memory objects that exist with their parent request, the
  queue of the passive-level workitem, the Module's reference count, and the record of
  framework calls.  The Module's lock serialises the accesses to the collections and to
  the request contexts; each function below is one such serialised access sequence.
\<close>

record RequestTarget =
  g_ContinuousRequestTargetUniqueId :: LONGLONG
  IoTarget :: WDFIOTARGET
  PendingAsynchronousRequests :: WDFCOLLECTION
  PendingReuseRequests :: WDFCOLLECTION
  Collections :: "WDFCOLLECTION \<Rightarrow> WDFREQUEST list"
  UniqueRequestContextGet :: "WDFREQUEST \<Rightarrow> UNIQUE_REQUEST"
  BufferPoolLent :: "pointer list"
  BufferPoolContents :: "pointer \<Rightarrow> RequestTarget_SingleAsynchronousRequestContext"
  MemoryObjects :: "(WDFMEMORY \<times> WDFREQUEST) list"
  QueuedWorkitems :: "RequestTarget_QueuedWorkitemContext list"
  ModuleReferences :: int
  Calls :: "wdf_call list"

abbreviation PendingSet :: "RequestTarget \<Rightarrow> WDFREQUEST list" where
  "PendingSet s \<equiv> Collections s (PendingAsynchronousRequests s)"

abbreviation ReuseSet :: "RequestTarget \<Rightarrow> WDFREQUEST list" where
  "ReuseSet s \<equiv> Collections s (PendingReuseRequests s)"

definition record_call :: "wdf_call \<Rightarrow> RequestTarget \<Rightarrow> RequestTarget" where
  "record_call c s = s\<lparr>Calls := Calls s @ [c]\<rparr>"

subsection \<open>Framework and library primitives\<close>

definition InterlockedIncrement64 :: "RequestTarget \<Rightarrow> LONGLONG \<times> RequestTarget" where
  "InterlockedIncrement64 s =
     (let v = g_ContinuousRequestTargetUniqueId s + 1
      in (v, record_call (Call_InterlockedIncrement64 v) (s\<lparr>g_ContinuousRequestTargetUniqueId := v\<rparr>)))"

text \<open>WdfCollectionGetItem answers NULL when the index is not in the collection.\<close>

definition WdfCollectionGetItem :: "WDFREQUEST list \<Rightarrow> nat \<Rightarrow> WDFREQUEST" where
  "WdfCollectionGetItem xs i = (if i < length xs then xs ! i else NULL)"

definition WdfCollectionRemoveItem :: "WDFREQUEST list \<Rightarrow> nat \<Rightarrow> WDFREQUEST list" where
  "WdfCollectionRemoveItem xs i = take i xs @ drop (Suc i) xs"

text \<open>
  WdfObjectDelete on a request also deletes the memory objects whose parent it is; on a
  memory object it deletes that object.
\<close>

definition WdfObjectDelete_request :: "WDFREQUEST \<Rightarrow> RequestTarget \<Rightarrow> RequestTarget" where
  "WdfObjectDelete_request request s =
     record_call (Call_WdfObjectDelete request)
       (s\<lparr>MemoryObjects := filter (\<lambda>(m, parent). parent \<noteq> request) (MemoryObjects s)\<rparr>)"

definition WdfObjectDelete_memory :: "WDFMEMORY \<Rightarrow> RequestTarget \<Rightarrow> RequestTarget" where
  "WdfObjectDelete_memory memory s =
     record_call (Call_WdfObjectDelete memory)
       (s\<lparr>MemoryObjects := filter (\<lambda>(m, parent). m \<noteq> memory) (MemoryObjects s)\<rparr>)"

definition WdfMemoryCreatePreallocated ::
  "WDFMEMORY \<Rightarrow> WDFREQUEST \<Rightarrow> RequestTarget \<Rightarrow> RequestTarget" where
  "WdfMemoryCreatePreallocated memory parent s =
     record_call (Call_WdfMemoryCreatePreallocated memory parent)
       (s\<lparr>MemoryObjects := MemoryObjects s @ [(memory, parent)]\<rparr>)"

definition DMF_ModuleReference :: "framework \<Rightarrow> RequestTarget \<Rightarrow> NTSTATUS \<times> RequestTarget" where
  "DMF_ModuleReference w s =
     (let ntStatus = DMF_ModuleReference_result w
      in (ntStatus, if NT_SUCCESS ntStatus then s\<lparr>ModuleReferences := ModuleReferences s + 1\<rparr> else s))"

definition DMF_ModuleDereference :: "RequestTarget \<Rightarrow> RequestTarget" where
  "DMF_ModuleDereference s = s\<lparr>ModuleReferences := ModuleReferences s - 1\<rparr>"

definition DMF_BufferPool_Put :: "pointer \<Rightarrow> RequestTarget \<Rightarrow> RequestTarget" where
  "DMF_BufferPool_Put buffer s = s\<lparr>BufferPoolLent := remove1 buffer (BufferPoolLent s)\<rparr>"

definition UniqueRequestContext_update ::
  "WDFREQUEST \<Rightarrow> (UNIQUE_REQUEST \<Rightarrow> UNIQUE_REQUEST) \<Rightarrow> RequestTarget \<Rightarrow> RequestTarget" where
  "UniqueRequestContext_update request f s =
     s\<lparr>UniqueRequestContextGet := (UniqueRequestContextGet s)(request := f (UniqueRequestContextGet s request))\<rparr>"

section \<open>The pending-request registry\<close>

definition RequestTarget_PendingCollectionListAdd ::
  "framework \<Rightarrow> WDFREQUEST \<Rightarrow> WDFCOLLECTION \<Rightarrow> RequestTarget \<Rightarrow> NTSTATUS \<times> RequestTarget" where
  "RequestTarget_PendingCollectionListAdd w request Collection s =
     (let ntStatus = WdfCollectionAdd_result w
      in (ntStatus,
          if NT_SUCCESS ntStatus
          then s\<lparr>Collections := (Collections s)(Collection := Collections s Collection @ [request])\<rparr>
          else s))"

text \<open>
  The do-while loop of RequestTarget\_PendingCollectionListSearchAndRemove, from index
  \<open>i\<close>: the answer and the collection afterwards.
\<close>

function SearchAndRemove_loop :: "WDFREQUEST \<Rightarrow> WDFREQUEST list \<Rightarrow> nat \<Rightarrow> bool \<times> WDFREQUEST list" where
  "SearchAndRemove_loop request xs i =
     (let currentRequestFromList = WdfCollectionGetItem xs i
      in if currentRequestFromList = request then (True, WdfCollectionRemoveItem xs i)
         else if currentRequestFromList \<noteq> NULL then SearchAndRemove_loop request xs (Suc i)
         else (False, xs))"
  by pat_completeness auto
termination
  by (relation "measure (\<lambda>(request, xs, i). length xs - i)")
     (auto simp: WdfCollectionGetItem_def split: if_splits)

declare SearchAndRemove_loop.simps [simp del]

definition RequestTarget_PendingCollectionListSearchAndRemove ::
  "WDFREQUEST \<Rightarrow> WDFCOLLECTION \<Rightarrow> RequestTarget \<Rightarrow> bool \<times> RequestTarget" where
  "RequestTarget_PendingCollectionListSearchAndRemove request Collection s =
     (if request = NULL then (False, s)
      else (let (returnValue, xs) = SearchAndRemove_loop request (Collections s Collection) 0
            in (returnValue, s\<lparr>Collections := (Collections s)(Collection := xs)\<rparr>)))"

text \<open>
  The loop of RequestTarget\_PendingCollectionListSearchAndReference: the answer and the
  request found.
\<close>

function SearchAndReference_loop ::
  "(WDFREQUEST \<Rightarrow> UNIQUE_REQUEST) \<Rightarrow> LONGLONG \<Rightarrow> WDFREQUEST list \<Rightarrow> nat \<Rightarrow> bool \<times> WDFREQUEST" where
  "SearchAndReference_loop context UniqueRequestIdCancel' xs i =
     (let currentRequestFromList = WdfCollectionGetItem xs i
      in if currentRequestFromList = NULL then (False, NULL)
         else if UniqueRequestIdCancel (context currentRequestFromList) = UniqueRequestIdCancel'
         then (True, currentRequestFromList)
         else SearchAndReference_loop context UniqueRequestIdCancel' xs (Suc i))"
  by pat_completeness auto
termination
  by (relation "measure (\<lambda>(context, c, xs, i). length xs - i)")
     (auto simp: WdfCollectionGetItem_def split: if_splits)

declare SearchAndReference_loop.simps [simp del]

definition RequestTarget_PendingCollectionListSearchAndReference ::
  "LONGLONG \<Rightarrow> RequestTarget \<Rightarrow> bool \<times> WDFREQUEST \<times> RequestTarget" where
  "RequestTarget_PendingCollectionListSearchAndReference UniqueRequestIdCancel' s =
     (let (returnValue, RequestToCancel) =
            SearchAndReference_loop (UniqueRequestContextGet s) UniqueRequestIdCancel' (PendingSet s) 0
      in (returnValue, RequestToCancel,
          if returnValue then record_call (Call_WdfObjectReference RequestToCancel) s else s))"

text \<open>
  The loop of RequestTarget\_PendingCollectionReuseListSearch: the answer, the request
  found and the request contexts afterwards.
\<close>

function ReuseListSearch_loop ::
  "(WDFREQUEST \<Rightarrow> UNIQUE_REQUEST) \<Rightarrow> LONGLONG \<Rightarrow> WDFREQUEST list \<Rightarrow> nat \<Rightarrow>
   bool \<times> WDFREQUEST \<times> (WDFREQUEST \<Rightarrow> UNIQUE_REQUEST)" where
  "ReuseListSearch_loop context UniqueRequestIdReuse' xs i =
     (let currentRequestFromList = WdfCollectionGetItem xs i
      in if currentRequestFromList = NULL then (False, NULL, context)
         else if UniqueRequestIdReuse (context currentRequestFromList) = UniqueRequestIdReuse'
         then (if RequestInUse (context currentRequestFromList) then (False, NULL, context)
               else (True, currentRequestFromList,
                     context(currentRequestFromList :=
                       (context currentRequestFromList)\<lparr>RequestInUse := True\<rparr>)))
         else ReuseListSearch_loop context UniqueRequestIdReuse' xs (Suc i))"
  by pat_completeness auto
termination
  by (relation "measure (\<lambda>(context, c, xs, i). length xs - i)")
     (auto simp: WdfCollectionGetItem_def split: if_splits)

declare ReuseListSearch_loop.simps [simp del]

definition RequestTarget_PendingCollectionReuseListSearch ::
  "LONGLONG \<Rightarrow> RequestTarget \<Rightarrow> bool \<times> WDFREQUEST \<times> RequestTarget" where
  "RequestTarget_PendingCollectionReuseListSearch UniqueRequestIdReuse' s =
     (let (returnValue, RequestToReuse, context) =
            ReuseListSearch_loop (UniqueRequestContextGet s) UniqueRequestIdReuse' (ReuseSet s) 0
      in (returnValue, RequestToReuse, s\<lparr>UniqueRequestContextGet := context\<rparr>))"

section \<open>The completion dispatcher\<close>

text \<open>
  What the client's completion callback receives.  The client's code is the parameter
  \<open>client\<close> of the functions below: \<open>client f arguments\<close> is what the callback at
  address \<open>f\<close> does to the state when it is called with \<open>arguments\<close>; it may call
  the Module's Methods.
\<close>

record completion_arguments =
  ClientContext :: pointer
  InputBuffer :: pointer
  InputBufferSize :: size_t
  OutputBuffer :: pointer
  OutputBufferSize :: size_t
  CompletionStatus :: NTSTATUS

type_synonym client_code = "pointer \<Rightarrow> completion_arguments \<Rightarrow> RequestTarget \<Rightarrow> RequestTarget"

text \<open>
  RequestTarget\_ProcessAsynchronousRequestRoot.  The completion parameters that the
  caller passes are overwritten by WdfRequestGetCompletionParams before they are read,
  so they are not an argument here.
\<close>

definition RequestTarget_ProcessAsynchronousRequestRoot ::
  "client_code \<Rightarrow> framework \<Rightarrow> WDFREQUEST \<Rightarrow> pointer \<Rightarrow> bool \<Rightarrow> RequestTarget \<Rightarrow> RequestTarget" where
  "RequestTarget_ProcessAsynchronousRequestRoot client w request context reuseRequest s =
     (let s1 = snd (RequestTarget_PendingCollectionListSearchAndRemove request (PendingAsynchronousRequests s) s);
          ntStatus = WdfRequestGetStatus_result w;
          params = WdfRequestGetCompletionParams_result w;
          (inputBuffer, inputBufferSize, outputBuffer, outputBufferSize) =
            RequestTarget_CompletionParamsInputBufferAndOutputBufferGet (WdfMemoryGetBuffer w) params
              (SingleAsynchronousRequestType (BufferPoolContents s1 context));
          s2 = (if reuseRequest
                then UniqueRequestContext_update request (\<lambda>u. u\<lparr>RequestInUse := False\<rparr>) s1
                else s1);
          callback = EvtRequestTargetSingleAsynchronousRequest (BufferPoolContents s2 context);
          s3 = (if callback \<noteq> NULL
                then client callback
                       \<lparr>ClientContext = SingleAsynchronousCallbackClientContext (BufferPoolContents s2 context),
                        InputBuffer = inputBuffer, InputBufferSize = inputBufferSize,
                        OutputBuffer = outputBuffer, OutputBufferSize = outputBufferSize,
                        CompletionStatus = ntStatus\<rparr> s2
                else s2);
          s4 = DMF_BufferPool_Put context s3;
          s5 = (if \<not> reuseRequest then WdfObjectDelete_request request s4 else s4)
      in DMF_ModuleDereference s5)"

definition RequestTarget_ProcessAsynchronousRequestSingle ::
  "client_code \<Rightarrow> framework \<Rightarrow> WDFREQUEST \<Rightarrow> pointer \<Rightarrow> RequestTarget \<Rightarrow> RequestTarget" where
  "RequestTarget_ProcessAsynchronousRequestSingle client w request context s =
     RequestTarget_ProcessAsynchronousRequestRoot client w request context False s"

definition RequestTarget_ProcessAsynchronousRequestSingleReuse ::
  "client_code \<Rightarrow> framework \<Rightarrow> WDFREQUEST \<Rightarrow> pointer \<Rightarrow> RequestTarget \<Rightarrow> RequestTarget" where
  "RequestTarget_ProcessAsynchronousRequestSingleReuse client w request context s =
     RequestTarget_ProcessAsynchronousRequestRoot client w request context True s"

definition RequestTarget_CompletionRoutine ::
  "client_code \<Rightarrow> framework \<Rightarrow> WDFREQUEST \<Rightarrow> pointer \<Rightarrow> RequestTarget \<Rightarrow> RequestTarget" where
  "RequestTarget_CompletionRoutine client w request context s =
     RequestTarget_ProcessAsynchronousRequestSingle client w request context s"

definition RequestTarget_CompletionRoutineReuse ::
  "client_code \<Rightarrow> framework \<Rightarrow> WDFREQUEST \<Rightarrow> pointer \<Rightarrow> RequestTarget \<Rightarrow> RequestTarget" where
  "RequestTarget_CompletionRoutineReuse client w request context s =
     RequestTarget_ProcessAsynchronousRequestSingleReuse client w request context s"

text \<open>
  The two passive-level routines only queue a snapshot; DMF\_QueuedWorkItem\_Enqueue
  appends it to the workitem's queue.
\<close>

definition DMF_QueuedWorkItem_Enqueue ::
  "RequestTarget_QueuedWorkitemContext \<Rightarrow> RequestTarget \<Rightarrow> RequestTarget" where
  "DMF_QueuedWorkItem_Enqueue workitemContext s =
     s\<lparr>QueuedWorkitems := QueuedWorkitems s @ [workitemContext]\<rparr>"

definition RequestTarget_CompletionRoutinePassive ::
  "WDFREQUEST \<Rightarrow> WDF_REQUEST_COMPLETION_PARAMS \<Rightarrow> pointer \<Rightarrow> RequestTarget \<Rightarrow> RequestTarget" where
  "RequestTarget_CompletionRoutinePassive request params context s =
     DMF_QueuedWorkItem_Enqueue
       \<lparr>Request = request, CompletionParams = params,
        SingleAsynchronousRequestContext = context, ReuseRequest = False\<rparr> s"

definition RequestTarget_CompletionRoutinePassiveReuse ::
  "WDFREQUEST \<Rightarrow> WDF_REQUEST_COMPLETION_PARAMS \<Rightarrow> pointer \<Rightarrow> RequestTarget \<Rightarrow> RequestTarget" where
  "RequestTarget_CompletionRoutinePassiveReuse request params context s =
     DMF_QueuedWorkItem_Enqueue
       \<lparr>Request = request, CompletionParams = params,
        SingleAsynchronousRequestContext = context, ReuseRequest = True\<rparr> s"

definition RequestTarget_QueuedWorkitemCallbackSingle ::
  "client_code \<Rightarrow> framework \<Rightarrow> RequestTarget_QueuedWorkitemContext \<Rightarrow> RequestTarget \<Rightarrow> RequestTarget" where
  "RequestTarget_QueuedWorkitemCallbackSingle client w workitemContext s =
     (if \<not> ReuseRequest workitemContext
      then RequestTarget_ProcessAsynchronousRequestSingle client w (Request workitemContext)
             (SingleAsynchronousRequestContext workitemContext) s
      else RequestTarget_ProcessAsynchronousRequestSingleReuse client w (Request workitemContext)
             (SingleAsynchronousRequestContext workitemContext) s)"

section \<open>Formatting and sending\<close>

text \<open>
  RequestTarget\_FormatRequestForRequestType, in the kernel-mode build (where the
  internal device-control case exists).
\<close>

definition RequestTarget_FormatRequestForRequestType ::
  "framework \<Rightarrow> WDFREQUEST \<Rightarrow> ContinuousRequestTarget_RequestType \<Rightarrow> WDFMEMORY \<Rightarrow> WDFMEMORY \<Rightarrow>
   RequestTarget \<Rightarrow> NTSTATUS \<times> RequestTarget" where
  "RequestTarget_FormatRequestForRequestType w request requestType InputMemory OutputMemory s =
     (case requestType of
        RequestType_Write \<Rightarrow>
          (WdfIoTargetFormatRequest_result w,
           record_call (Call_WdfIoTargetFormatRequest request RequestType_Write InputMemory NULL) s)
      | RequestType_Read \<Rightarrow>
          (WdfIoTargetFormatRequest_result w,
           record_call (Call_WdfIoTargetFormatRequest request RequestType_Read NULL OutputMemory) s)
      | RequestType_Ioctl \<Rightarrow>
          (WdfIoTargetFormatRequest_result w,
           record_call (Call_WdfIoTargetFormatRequest request RequestType_Ioctl InputMemory OutputMemory) s)
      | RequestType_InternalIoctl \<Rightarrow>
          (WdfIoTargetFormatRequest_result w,
           record_call (Call_WdfIoTargetFormatRequest request RequestType_InternalIoctl InputMemory OutputMemory) s)
      | RequestType_Invalid \<Rightarrow> (STATUS_INVALID_PARAMETER, s))"

text \<open>
  The arguments that the send functions share.  A send answers with its status, with
  the value written to BytesWritten and with the value written to DmfRequestIdCancel
  (\<open>None\<close> where the function does not write).  \<open>wantBytesWritten\<close> and
  \<open>wantCancel\<close> say that the caller's BytesWritten, respectively DmfRequestIdCancel,
  is not NULL.
\<close>

record send_arguments =
  RequestBuffer :: pointer
  RequestLength :: size_t
  ResponseBuffer :: pointer
  ResponseLength :: size_t
  RequestType :: ContinuousRequestTarget_RequestType
  RequestIoctl :: ULONG
  RequestTimeoutMilliseconds :: ULONG
  EvtSendCompletion :: pointer
  SendCompletionClientContext :: pointer

type_synonym send_result = "NTSTATUS \<times> size_t option \<times> LONGLONG option"

definition WdfRequestCreate :: "WDFREQUEST \<Rightarrow> RequestTarget \<Rightarrow> RequestTarget" where
  "WdfRequestCreate request s =
     record_call (Call_WdfRequestCreate request)
       (s\<lparr>UniqueRequestContextGet := (UniqueRequestContextGet s)
             (request := \<lparr>UniqueRequestIdCancel = 0, UniqueRequestIdReuse = 0, RequestInUse = False\<rparr>)\<rparr>)"

text \<open>
  The two WdfMemoryCreatePreallocated steps: \<open>Inl\<close> is the failure status that leads to
  Exit, \<open>Inr\<close> the memory handle (NULL when the length is zero) and the state.
\<close>

definition memory_for ::
  "size_t \<Rightarrow> NTSTATUS \<times> WDFMEMORY \<Rightarrow> WDFREQUEST \<Rightarrow> RequestTarget \<Rightarrow> NTSTATUS + WDFMEMORY \<times> RequestTarget" where
  "memory_for length' result request s =
     (if 0 < length'
      then (let (ntStatus, memory) = result
            in if \<not> NT_SUCCESS ntStatus then Inl ntStatus
               else Inr (memory, WdfMemoryCreatePreallocated memory request s))
      else Inr (NULL, s))"

definition DMF_BufferPool_Get :: "framework \<Rightarrow> RequestTarget \<Rightarrow> NTSTATUS \<times> pointer \<times> RequestTarget" where
  "DMF_BufferPool_Get w s =
     (let (ntStatus, buffer) = DMF_BufferPool_Get_result w
      in (ntStatus, buffer,
          if NT_SUCCESS ntStatus then s\<lparr>BufferPoolLent := BufferPoolLent s @ [buffer]\<rparr> else s))"

definition SingleAsynchronousRequestContext_fill ::
  "pointer \<Rightarrow> send_arguments \<Rightarrow> RequestTarget \<Rightarrow> RequestTarget" where
  "SingleAsynchronousRequestContext_fill buffer a s =
     s\<lparr>BufferPoolContents := (BufferPoolContents s)
         (buffer := \<lparr>SingleAsynchronousRequestType = RequestType a,
                     EvtRequestTargetSingleAsynchronousRequest = EvtSendCompletion a,
                     SingleAsynchronousCallbackClientContext = SendCompletionClientContext a\<rparr>)\<rparr>"

text \<open>
  The registration for cancellation that both send functions make when the caller asks
  for a cancel identifier: a fresh identifier from the counter, stored in the request's
  context, then the request is added to the pending collection.
\<close>

definition register_for_cancel ::
  "framework \<Rightarrow> WDFREQUEST \<Rightarrow> RequestTarget \<Rightarrow> NTSTATUS \<times> LONGLONG \<times> RequestTarget" where
  "register_for_cancel w request s =
     (let (nextRequestId, s1) = InterlockedIncrement64 s;
          s2 = UniqueRequestContext_update request (\<lambda>u. u\<lparr>UniqueRequestIdCancel := nextRequestId\<rparr>) s1;
          (ntStatus, s3) = RequestTarget_PendingCollectionListAdd w request (PendingAsynchronousRequests s2) s2
      in (ntStatus, nextRequestId, s3))"

subsection \<open>RequestTarget\_RequestSendReuse\<close>

definition RequestTarget_RequestSendReuse_Exit ::
  "bool \<Rightarrow> WDFREQUEST \<Rightarrow> WDFMEMORY \<Rightarrow> WDFMEMORY \<Rightarrow> bool \<Rightarrow> size_t \<Rightarrow> NTSTATUS \<Rightarrow> LONGLONG option \<Rightarrow>
   RequestTarget \<Rightarrow> send_result \<times> RequestTarget" where
  "RequestTarget_RequestSendReuse_Exit abortReuse request memoryForRequest memoryForResponse
       wantBytesWritten outputBufferSize ntStatus cancelWritten s =
     (let s' = (if abortReuse
                then (let s1 = (if request \<noteq> NULL
                                then UniqueRequestContext_update request (\<lambda>u. u\<lparr>RequestInUse := False\<rparr>) s
                                else s);
                          s2 = (if memoryForRequest \<noteq> NULL then WdfObjectDelete_memory memoryForRequest s1 else s1)
                      in if memoryForResponse \<noteq> NULL then WdfObjectDelete_memory memoryForResponse s2 else s2)
                else s)
      in ((ntStatus, if wantBytesWritten then Some outputBufferSize else None, cancelWritten), s'))"

text \<open>
  The asynchronous preparations of RequestTarget\_RequestSendReuse: \<open>Inl\<close> is a failure
  that leads to Exit, \<open>Inr\<close> carries the local dmfRequestIdCancel.
\<close>

definition RequestTarget_RequestSendReuse_prepare ::
  "framework \<Rightarrow> bool \<Rightarrow> send_arguments \<Rightarrow> ContinuousRequestTarget_CompletionOptions \<Rightarrow> bool \<Rightarrow>
   WDFREQUEST \<Rightarrow> RequestTarget \<Rightarrow> NTSTATUS \<times> RequestTarget + LONGLONG \<times> RequestTarget" where
  "RequestTarget_RequestSendReuse_prepare w IsSynchronousRequest a CompletionOption wantCancel request s =
     (if IsSynchronousRequest then Inr (0, s)
      else
        (case (if CompletionOption = CompletionOptions_Dispatch then Some CompletionRoutineReuse
               else if CompletionOption = CompletionOptions_Passive then Some CompletionRoutinePassiveReuse
               else None) of
           None \<Rightarrow> Inl (STATUS_INVALID_PARAMETER, s)
         | Some completionRoutineSingle \<Rightarrow>
             (let (ntStatus, buffer, s1) = DMF_BufferPool_Get w s
              in if \<not> NT_SUCCESS ntStatus then Inl (ntStatus, s1)
                 else
                   (let s2 = SingleAsynchronousRequestContext_fill buffer a s1;
                        s3 = record_call (Call_WdfRequestSetCompletionRoutine request completionRoutineSingle buffer) s2
                    in if wantCancel
                       then (let (ntStatus, nextRequestId, s4) = register_for_cancel w request s3
                             in if \<not> NT_SUCCESS ntStatus then Inl (ntStatus, s4)
                                else Inr (nextRequestId, s4))
                       else Inr (0, s3)))))"

definition RequestTarget_RequestSendReuse_send ::
  "framework \<Rightarrow> bool \<Rightarrow> bool \<Rightarrow> bool \<Rightarrow> WDFREQUEST \<Rightarrow> WDFMEMORY \<Rightarrow> WDFMEMORY \<Rightarrow> LONGLONG \<Rightarrow>
   RequestTarget \<Rightarrow> send_result \<times> RequestTarget" where
  "RequestTarget_RequestSendReuse_send w IsSynchronousRequest wantBytesWritten wantCancel request
       memoryForRequest memoryForResponse dmfRequestIdCancel s =
     (let ntStatus = WdfRequestAllocateTimer_result w;
          s1 = record_call (Call_WdfRequestAllocateTimer request) s
      in if \<not> NT_SUCCESS ntStatus
         then RequestTarget_RequestSendReuse_Exit True request memoryForRequest memoryForResponse
                wantBytesWritten 0 ntStatus None s1
         else
           (let requestSendResult = WdfRequestSend_result w;
                s2 = record_call (Call_WdfRequestSend request requestSendResult) s1;
                abortReuse = (\<not> requestSendResult)
            in if \<not> requestSendResult \<or> IsSynchronousRequest
               then
                 (let s3 = (if wantCancel
                            then snd (RequestTarget_PendingCollectionListSearchAndRemove request
                                        (PendingAsynchronousRequests s2) s2)
                            else s2);
                      ntStatus = WdfRequestGetStatus_result w
                  in if \<not> NT_SUCCESS ntStatus
                     then RequestTarget_RequestSendReuse_Exit abortReuse request memoryForRequest
                            memoryForResponse wantBytesWritten 0 ntStatus None s3
                     else RequestTarget_RequestSendReuse_Exit abortReuse request memoryForRequest
                            memoryForResponse wantBytesWritten (WdfRequestGetInformation_result w)
                            ntStatus None s3)
               else RequestTarget_RequestSendReuse_Exit abortReuse request memoryForRequest
                      memoryForResponse wantBytesWritten 0 ntStatus
                      (if wantCancel then Some dmfRequestIdCancel else None) s2))"

definition RequestTarget_RequestSendReuse ::
  "framework \<Rightarrow> LONGLONG \<Rightarrow> bool \<Rightarrow> send_arguments \<Rightarrow> ContinuousRequestTarget_CompletionOptions \<Rightarrow>
   bool \<Rightarrow> bool \<Rightarrow> RequestTarget \<Rightarrow> send_result \<times> RequestTarget" where
  "RequestTarget_RequestSendReuse w DmfRequestIdReuse IsSynchronousRequest a CompletionOption
       wantBytesWritten wantCancel s =
     (let (returnValue, request, s1) = RequestTarget_PendingCollectionReuseListSearch DmfRequestIdReuse s
      in if \<not> returnValue
         then RequestTarget_RequestSendReuse_Exit True request NULL NULL wantBytesWritten 0
                STATUS_OBJECTID_NOT_FOUND None s1
         else
           (let ntStatus = WdfRequestReuse_result w;
                s2 = record_call (Call_WdfRequestReuse request) s1
            in if \<not> NT_SUCCESS ntStatus
               then RequestTarget_RequestSendReuse_Exit True request NULL NULL wantBytesWritten 0 ntStatus None s2
               else
                 (case memory_for (RequestLength a) (WdfMemoryCreatePreallocated_request w) request s2 of
                    Inl ntStatus \<Rightarrow>
                      RequestTarget_RequestSendReuse_Exit True request NULL NULL wantBytesWritten 0 ntStatus None s2
                  | Inr (memoryForRequest, s3) \<Rightarrow>
                      (case memory_for (ResponseLength a) (WdfMemoryCreatePreallocated_response w) request s3 of
                         Inl ntStatus \<Rightarrow>
                           RequestTarget_RequestSendReuse_Exit True request memoryForRequest NULL
                             wantBytesWritten 0 ntStatus None s3
                       | Inr (memoryForResponse, s4) \<Rightarrow>
                           (let (ntStatus, s5) =
                                  RequestTarget_FormatRequestForRequestType w request (RequestType a)
                                    memoryForRequest memoryForResponse s4
                            in if \<not> NT_SUCCESS ntStatus
                               then RequestTarget_RequestSendReuse_Exit True request memoryForRequest
                                      memoryForResponse wantBytesWritten 0 ntStatus None s5
                               else
                                 (case RequestTarget_RequestSendReuse_prepare w IsSynchronousRequest a
                                         CompletionOption wantCancel request s5 of
                                    Inl (ntStatus, s6) \<Rightarrow>
                                      RequestTarget_RequestSendReuse_Exit True request memoryForRequest
                                        memoryForResponse wantBytesWritten 0 ntStatus None s6
                                  | Inr (dmfRequestIdCancel, s6) \<Rightarrow>
                                      RequestTarget_RequestSendReuse_send w IsSynchronousRequest
                                        wantBytesWritten wantCancel request memoryForRequest
                                        memoryForResponse dmfRequestIdCancel s6))))))"

subsection \<open>RequestTarget\_RequestCreateAndSend\<close>

definition RequestTarget_RequestCreateAndSend_Exit ::
  "bool \<Rightarrow> WDFREQUEST \<Rightarrow> bool \<Rightarrow> size_t \<Rightarrow> NTSTATUS \<Rightarrow> LONGLONG option \<Rightarrow>
   RequestTarget \<Rightarrow> send_result \<times> RequestTarget" where
  "RequestTarget_RequestCreateAndSend_Exit IsSynchronousRequest request wantBytesWritten
       outputBufferSize ntStatus cancelWritten s =
     (let s' = (if IsSynchronousRequest \<and> request \<noteq> NULL then WdfObjectDelete_request request s
                else if \<not> IsSynchronousRequest \<and> \<not> NT_SUCCESS ntStatus \<and> request \<noteq> NULL
                then WdfObjectDelete_request request s
                else s)
      in ((ntStatus, if wantBytesWritten then Some outputBufferSize else None, cancelWritten), s'))"

definition RequestTarget_RequestCreateAndSend_prepare ::
  "framework \<Rightarrow> bool \<Rightarrow> send_arguments \<Rightarrow> ContinuousRequestTarget_CompletionOptions \<Rightarrow> bool \<Rightarrow>
   WDFREQUEST \<Rightarrow> RequestTarget \<Rightarrow> NTSTATUS \<times> RequestTarget + LONGLONG \<times> RequestTarget" where
  "RequestTarget_RequestCreateAndSend_prepare w IsSynchronousRequest a CompletionOption wantCancel request s =
     (if IsSynchronousRequest then Inr (0, s)
      else
        (let (ntStatus, buffer, s1) = DMF_BufferPool_Get w s
         in if \<not> NT_SUCCESS ntStatus then Inl (ntStatus, s1)
            else
              (let completionRoutineSingle =
                     (if CompletionOption = CompletionOptions_Default then CompletionRoutine
                      else if CompletionOption = CompletionOptions_Passive then CompletionRoutinePassive
                      else CompletionRoutine);
                   s2 = SingleAsynchronousRequestContext_fill buffer a s1;
                   s3 = record_call (Call_WdfRequestSetCompletionRoutine request completionRoutineSingle buffer) s2
               in if wantCancel
                  then (let (ntStatus, nextRequestId, s4) = register_for_cancel w request s3
                        in if \<not> NT_SUCCESS ntStatus then Inl (ntStatus, s4)
                           else Inr (nextRequestId, s4))
                  else Inr (0, s3))))"

definition RequestTarget_RequestCreateAndSend_send ::
  "framework \<Rightarrow> bool \<Rightarrow> bool \<Rightarrow> bool \<Rightarrow> WDFREQUEST \<Rightarrow> LONGLONG \<Rightarrow>
   RequestTarget \<Rightarrow> send_result \<times> RequestTarget" where
  "RequestTarget_RequestCreateAndSend_send w IsSynchronousRequest wantBytesWritten wantCancel request
       dmfRequestIdCancel s =
     (let ntStatus = WdfRequestAllocateTimer_result w;
          s1 = record_call (Call_WdfRequestAllocateTimer request) s
      in if \<not> NT_SUCCESS ntStatus
         then RequestTarget_RequestCreateAndSend_Exit IsSynchronousRequest request wantBytesWritten 0
                ntStatus None s1
         else
           (let requestSendResult = WdfRequestSend_result w;
                s2 = record_call (Call_WdfRequestSend request requestSendResult) s1
            in if \<not> requestSendResult \<or> IsSynchronousRequest
               then
                 (let s3 = (if wantCancel
                            then snd (RequestTarget_PendingCollectionListSearchAndRemove request
                                        (PendingAsynchronousRequests s2) s2)
                            else s2);
                      ntStatus = WdfRequestGetStatus_result w
                  in if \<not> NT_SUCCESS ntStatus
                     then RequestTarget_RequestCreateAndSend_Exit IsSynchronousRequest request
                            wantBytesWritten 0 ntStatus None s3
                     else RequestTarget_RequestCreateAndSend_Exit IsSynchronousRequest request
                            wantBytesWritten (WdfRequestGetInformation_result w) ntStatus None s3)
               else RequestTarget_RequestCreateAndSend_Exit IsSynchronousRequest request
                      wantBytesWritten 0 ntStatus
                      (if wantCancel then Some dmfRequestIdCancel else None) s2))"

definition RequestTarget_RequestCreateAndSend ::
  "framework \<Rightarrow> bool \<Rightarrow> send_arguments \<Rightarrow> ContinuousRequestTarget_CompletionOptions \<Rightarrow>
   bool \<Rightarrow> bool \<Rightarrow> RequestTarget \<Rightarrow> send_result \<times> RequestTarget" where
  "RequestTarget_RequestCreateAndSend w IsSynchronousRequest a CompletionOption
       wantBytesWritten wantCancel s =
     (let (ntStatus, request) = WdfRequestCreate_result w
      in if \<not> NT_SUCCESS ntStatus then ((ntStatus, None, None), s)
         else
           (let s1 = WdfRequestCreate request s
            in case memory_for (RequestLength a) (WdfMemoryCreatePreallocated_request w) request s1 of
                 Inl ntStatus \<Rightarrow>
                   RequestTarget_RequestCreateAndSend_Exit IsSynchronousRequest request wantBytesWritten 0
                     ntStatus None s1
               | Inr (memoryForRequest, s2) \<Rightarrow>
                   (case memory_for (ResponseLength a) (WdfMemoryCreatePreallocated_response w) request s2 of
                      Inl ntStatus \<Rightarrow>
                        RequestTarget_RequestCreateAndSend_Exit IsSynchronousRequest request
                          wantBytesWritten 0 ntStatus None s2
                    | Inr (memoryForResponse, s3) \<Rightarrow>
                        (let (ntStatus, s4) =
                               RequestTarget_FormatRequestForRequestType w request (RequestType a)
                                 memoryForRequest memoryForResponse s3
                         in if \<not> NT_SUCCESS ntStatus
                            then RequestTarget_RequestCreateAndSend_Exit IsSynchronousRequest request
                                   wantBytesWritten 0 ntStatus None s4
                            else
                              (case RequestTarget_RequestCreateAndSend_prepare w IsSynchronousRequest a
                                      CompletionOption wantCancel request s4 of
                                 Inl (ntStatus, s5) \<Rightarrow>
                                   RequestTarget_RequestCreateAndSend_Exit IsSynchronousRequest request
                                     wantBytesWritten 0 ntStatus None s5
                               | Inr (dmfRequestIdCancel, s5) \<Rightarrow>
                                   RequestTarget_RequestCreateAndSend_send w IsSynchronousRequest
                                     wantBytesWritten wantCancel request dmfRequestIdCancel s5)))))"

section \<open>The Module's Methods\<close>

definition DMF_RequestTarget_Cancel :: "framework \<Rightarrow> LONGLONG \<Rightarrow> RequestTarget \<Rightarrow> bool \<times> RequestTarget" where
  "DMF_RequestTarget_Cancel w DmfRequestIdCancel s =
     (let (ntStatus, s1) = DMF_ModuleReference w s
      in if \<not> NT_SUCCESS ntStatus then (False, s1)
         else
           (let (returnValue, requestToCancel, s2) =
                  RequestTarget_PendingCollectionListSearchAndReference DmfRequestIdCancel s1;
                (returnValue, s3) =
                  (if returnValue
                   then (WdfRequestCancelSentRequest_result w,
                         record_call (Call_WdfObjectDereference requestToCancel)
                           (record_call (Call_WdfRequestCancelSentRequest requestToCancel
                                           (WdfRequestCancelSentRequest_result w)) s2))
                   else (returnValue, s2))
            in (returnValue, DMF_ModuleDereference s3)))"

definition DMF_RequestTarget_IoTargetClear :: "framework \<Rightarrow> RequestTarget \<Rightarrow> RequestTarget" where
  "DMF_RequestTarget_IoTargetClear w s =
     (let (ntStatus, s1) = DMF_ModuleReference w s
      in if \<not> NT_SUCCESS ntStatus then s1
         else DMF_ModuleDereference (s1\<lparr>IoTarget := NULL\<rparr>))"

definition DMF_RequestTarget_IoTargetSet :: "framework \<Rightarrow> WDFIOTARGET \<Rightarrow> RequestTarget \<Rightarrow> RequestTarget" where
  "DMF_RequestTarget_IoTargetSet w IoTarget' s =
     (let (ntStatus, s1) = DMF_ModuleReference w s
      in if \<not> NT_SUCCESS ntStatus then s1
         else DMF_ModuleDereference (s1\<lparr>IoTarget := IoTarget'\<rparr>))"

text \<open>
  DMF\_RequestTarget\_ReuseCreate answers with its status and the value it leaves in
  DmfRequestIdReuse (NULL on every failure).
\<close>

definition DMF_RequestTarget_ReuseCreate ::
  "framework \<Rightarrow> RequestTarget \<Rightarrow> (NTSTATUS \<times> LONGLONG) \<times> RequestTarget" where
  "DMF_RequestTarget_ReuseCreate w s =
     (let (ntStatus, s1) = DMF_ModuleReference w s
      in if \<not> NT_SUCCESS ntStatus then ((ntStatus, 0), s1)
         else
           (let (ntStatus, request) = WdfRequestCreate_result w
            in if \<not> NT_SUCCESS ntStatus then ((ntStatus, 0), DMF_ModuleDereference s1)
               else
                 (let s2 = WdfRequestCreate request s1;
                      (nextRequestId, s3) = InterlockedIncrement64 s2;
                      s4 = UniqueRequestContext_update request (\<lambda>u. u\<lparr>UniqueRequestIdReuse := nextRequestId\<rparr>) s3;
                      (ntStatus, s5) =
                        RequestTarget_PendingCollectionListAdd w request (PendingReuseRequests s4) s4
                  in if \<not> NT_SUCCESS ntStatus
                     then ((ntStatus, 0),
                           (let s6 = DMF_ModuleDereference s5
                            in if request \<noteq> NULL then WdfObjectDelete_request request s6 else s6))
                     else ((ntStatus, UniqueRequestIdReuse (UniqueRequestContextGet s5 request)),
                           DMF_ModuleDereference (record_call (Call_WdfObjectReference request) s5)))))"

definition DMF_RequestTarget_ReuseDelete :: "LONGLONG \<Rightarrow> RequestTarget \<Rightarrow> bool \<times> RequestTarget" where
  "DMF_RequestTarget_ReuseDelete DmfRequestIdReuse s =
     (let (returnValue, requestToDelete, s1) =
            RequestTarget_PendingCollectionReuseListSearch DmfRequestIdReuse s
      in if returnValue
         then (let (returnValue, s2) =
                     RequestTarget_PendingCollectionListSearchAndRemove requestToDelete
                       (PendingReuseRequests s1) s1
               in (returnValue,
                   record_call (Call_WdfObjectDereference requestToDelete)
                     (WdfObjectDelete_request requestToDelete s2)))
         else (returnValue, s1))"

text \<open>
  The four send Methods take the Module reference, choose the completion option from the
  Module's level and call the worker; the asynchronous ones keep the reference when the
  worker succeeds (the completion releases it).
\<close>

definition completionOption_of :: "framework \<Rightarrow> ContinuousRequestTarget_CompletionOptions" where
  "completionOption_of w =
     (if DMF_IsModulePassiveLevel_result w then CompletionOptions_Passive else CompletionOptions_Dispatch)"

definition DMF_RequestTarget_ReuseSend ::
  "framework \<Rightarrow> LONGLONG \<Rightarrow> send_arguments \<Rightarrow> bool \<Rightarrow> RequestTarget \<Rightarrow> send_result \<times> RequestTarget" where
  "DMF_RequestTarget_ReuseSend w DmfRequestIdReuse a wantCancel s =
     (let (ntStatus, s1) = DMF_ModuleReference w s
      in if \<not> NT_SUCCESS ntStatus then ((ntStatus, None, None), s1)
         else
           (let (result, s2) =
                  RequestTarget_RequestSendReuse w DmfRequestIdReuse False a (completionOption_of w)
                    False wantCancel s1
            in if \<not> NT_SUCCESS (fst result) then (result, DMF_ModuleDereference s2) else (result, s2)))"

definition DMF_RequestTarget_Send ::
  "framework \<Rightarrow> send_arguments \<Rightarrow> RequestTarget \<Rightarrow> send_result \<times> RequestTarget" where
  "DMF_RequestTarget_Send w a s =
     (let (ntStatus, s1) = DMF_ModuleReference w s
      in if \<not> NT_SUCCESS ntStatus then ((ntStatus, None, None), s1)
         else
           (let (result, s2) =
                  RequestTarget_RequestCreateAndSend w False a (completionOption_of w) False False s1
            in if \<not> NT_SUCCESS (fst result) then (result, DMF_ModuleDereference s2) else (result, s2)))"

definition DMF_RequestTarget_SendEx ::
  "framework \<Rightarrow> send_arguments \<Rightarrow> bool \<Rightarrow> RequestTarget \<Rightarrow> send_result \<times> RequestTarget" where
  "DMF_RequestTarget_SendEx w a wantCancel s =
     (let (ntStatus, s1) = DMF_ModuleReference w s
      in if \<not> NT_SUCCESS ntStatus then ((ntStatus, None, None), s1)
         else
           (let (result, s2) =
                  RequestTarget_RequestCreateAndSend w False a (completionOption_of w) False wantCancel s1
            in if \<not> NT_SUCCESS (fst result) then (result, DMF_ModuleDereference s2) else (result, s2)))"

text \<open>
  DMF\_RequestTarget\_SendSynchronously passes no callback and no client context to the
  worker, whatever the argument record holds.
\<close>

definition DMF_RequestTarget_SendSynchronously ::
  "framework \<Rightarrow> send_arguments \<Rightarrow> bool \<Rightarrow> RequestTarget \<Rightarrow> send_result \<times> RequestTarget" where
  "DMF_RequestTarget_SendSynchronously w a wantBytesWritten s =
     (let (ntStatus, s1) = DMF_ModuleReference w s
      in if \<not> NT_SUCCESS ntStatus then ((ntStatus, None, None), s1)
         else
           (let (result, s2) =
                  RequestTarget_RequestCreateAndSend w True
                    (a\<lparr>EvtSendCompletion := NULL, SendCompletionClientContext := NULL\<rparr>)
                    CompletionOptions_Default wantBytesWritten False s1
            in (result, DMF_ModuleDereference s2)))"

section \<open>Closing the Module\<close>

text \<open>
  DMF\_RequestTarget\_Close polls the count of a collection and sleeps 50 milliseconds
  between two polls.  While it sleeps the other threads run (completion routines, the
  client's Methods); \<open>others n\<close> is what they do to the state during the \<open>n\<close>-th
  sleep.  The loop may go on for ever, so its model answers \<open>None\<close> when it does not
  return and otherwise the number of sleeps so far and the state.  The ASSERT lines are
  checked-build diagnostics.
\<close>

partial_function (option) Close_wait ::
  "(nat \<Rightarrow> RequestTarget \<Rightarrow> RequestTarget) \<Rightarrow> (RequestTarget \<Rightarrow> WDFCOLLECTION) \<Rightarrow> nat \<Rightarrow>
   RequestTarget \<Rightarrow> (nat \<times> RequestTarget) option" where
  "Close_wait others collection n s =
     (let outstandingRequests = length (Collections s (collection s))
      in if 0 < outstandingRequests
         then Close_wait others collection (Suc n) (others n s)
         else Some (n, s))"

definition Close_PendingAsynchronousRequests ::
  "(nat \<Rightarrow> RequestTarget \<Rightarrow> RequestTarget) \<Rightarrow> nat \<Rightarrow> RequestTarget \<Rightarrow> (nat \<times> RequestTarget) option" where
  "Close_PendingAsynchronousRequests others n s =
     (if PendingAsynchronousRequests s \<noteq> NULL
      then (case Close_wait others PendingAsynchronousRequests n s of
              None \<Rightarrow> None
            | Some (n', s1) \<Rightarrow>
                Some (n', (record_call (Call_WdfObjectDelete (PendingAsynchronousRequests s1)) s1)
                            \<lparr>PendingAsynchronousRequests := NULL\<rparr>))
      else Some (n, s))"

definition Close_PendingReuseRequests ::
  "(nat \<Rightarrow> RequestTarget \<Rightarrow> RequestTarget) \<Rightarrow> nat \<Rightarrow> RequestTarget \<Rightarrow> (nat \<times> RequestTarget) option" where
  "Close_PendingReuseRequests others n s =
     (if PendingReuseRequests s \<noteq> NULL
      then (case Close_wait others PendingReuseRequests n s of
              None \<Rightarrow> None
            | Some (n', s1) \<Rightarrow>
                Some (n', (record_call (Call_WdfObjectDelete (PendingReuseRequests s1)) s1)
                            \<lparr>PendingReuseRequests := NULL\<rparr>))
      else Some (n, s))"

definition DMF_RequestTarget_Close ::
  "(nat \<Rightarrow> RequestTarget \<Rightarrow> RequestTarget) \<Rightarrow> RequestTarget \<Rightarrow> RequestTarget option" where
  "DMF_RequestTarget_Close others s =
     (case Close_PendingAsynchronousRequests others 0 s of
        None \<Rightarrow> None
      | Some (n, s1) \<Rightarrow>
          (case Close_PendingReuseRequests others n s1 of
             None \<Rightarrow> None
           | Some (n', s2) \<Rightarrow> Some s2))"

text \<open>The state after the sleeps \<open>n\<close>, ..., \<open>n + k - 1\<close>.\<close>

fun after_sleeps ::
  "(nat \<Rightarrow> RequestTarget \<Rightarrow> RequestTarget) \<Rightarrow> nat \<Rightarrow> nat \<Rightarrow> RequestTarget \<Rightarrow> RequestTarget" where
  "after_sleeps others n 0 s = s"
| "after_sleeps others n (Suc k) s = after_sleeps others (Suc n) k (others n s)"

section \<open>Histories of a Module\<close>

text \<open>
  The identifiers that InterlockedIncrement64 has returned, in a record of calls.
\<close>

fun drawn :: "wdf_call \<Rightarrow> LONGLONG list" where
  "drawn (Call_InterlockedIncrement64 v) = [v]"
| "drawn _ = []"

definition issued :: "wdf_call list \<Rightarrow> LONGLONG list" where
  "issued cs = concat (map drawn cs)"

text \<open>
  The completion routines that WdfRequestSetCompletionRoutine has installed, in a record
  of calls.
\<close>

fun installed :: "wdf_call \<Rightarrow> completion_routine list" where
  "installed (Call_WdfRequestSetCompletionRoutine r routine p) = [routine]"
| "installed _ = []"

text \<open>
  The requests that WdfRequestSend was called on, with its answers, in a record of calls.
\<close>

fun sent :: "wdf_call \<Rightarrow> (WDFREQUEST \<times> bool) list" where
  "sent (Call_WdfRequestSend r answer) = [(r, answer)]"
| "sent _ = []"

definition new_calls :: "RequestTarget \<Rightarrow> RequestTarget \<Rightarrow> wdf_call list" where
  "new_calls s s' = drop (length (Calls s)) (Calls s')"

text \<open>
  A call of one of the Module's Methods by the client, with what the framework answers
  during the call.
\<close>

datatype method_call =
    Method_Send framework send_arguments
  | Method_SendEx framework send_arguments bool
  | Method_SendSynchronously framework send_arguments bool
  | Method_ReuseCreate framework
  | Method_ReuseSend framework LONGLONG send_arguments bool
  | Method_ReuseDelete LONGLONG
  | Method_Cancel framework LONGLONG
  | Method_IoTargetSet framework WDFIOTARGET
  | Method_IoTargetClear framework

fun call_method :: "method_call \<Rightarrow> RequestTarget \<Rightarrow> RequestTarget" where
  "call_method (Method_Send w a) s = snd (DMF_RequestTarget_Send w a s)"
| "call_method (Method_SendEx w a wantCancel) s = snd (DMF_RequestTarget_SendEx w a wantCancel s)"
| "call_method (Method_SendSynchronously w a wantBytesWritten) s =
     snd (DMF_RequestTarget_SendSynchronously w a wantBytesWritten s)"
| "call_method (Method_ReuseCreate w) s = snd (DMF_RequestTarget_ReuseCreate w s)"
| "call_method (Method_ReuseSend w c a wantCancel) s = snd (DMF_RequestTarget_ReuseSend w c a wantCancel s)"
| "call_method (Method_ReuseDelete c) s = snd (DMF_RequestTarget_ReuseDelete c s)"
| "call_method (Method_Cancel w c) s = snd (DMF_RequestTarget_Cancel w c s)"
| "call_method (Method_IoTargetSet w t) s = DMF_RequestTarget_IoTargetSet w t s"
| "call_method (Method_IoTargetClear w) s = DMF_RequestTarget_IoTargetClear w s"

text \<open>
  A client whose completion callbacks call Methods of the Module: \<open>script f arguments\<close>
  is the sequence of calls that the callback at address \<open>f\<close> makes.
\<close>

definition scripted_client :: "(pointer \<Rightarrow> completion_arguments \<Rightarrow> method_call list) \<Rightarrow> client_code" where
  "scripted_client script f arguments s = fold call_method (script f arguments) s"

text \<open>
  What can happen to a Module: the client calls a Method; the target completes a
  request and the framework runs one of the four completion routines with the context
  pointer it was given; the passive-level workitem runs for the oldest queued snapshot;
  another Module of the driver takes an identifier from the shared counter.
\<close>

datatype event =
    Client_calls method_call
  | Target_completes framework completion_routine WDFREQUEST WDF_REQUEST_COMPLETION_PARAMS pointer
  | Workitem_runs framework
  | Other_Module_increments

fun occur :: "(pointer \<Rightarrow> completion_arguments \<Rightarrow> method_call list) \<Rightarrow> event \<Rightarrow> RequestTarget \<Rightarrow> RequestTarget" where
  "occur script (Client_calls m) s = call_method m s"
| "occur script (Target_completes w CompletionRoutine request params context) s =
     RequestTarget_CompletionRoutine (scripted_client script) w request context s"
| "occur script (Target_completes w CompletionRoutineReuse request params context) s =
     RequestTarget_CompletionRoutineReuse (scripted_client script) w request context s"
| "occur script (Target_completes w CompletionRoutinePassive request params context) s =
     RequestTarget_CompletionRoutinePassive request params context s"
| "occur script (Target_completes w CompletionRoutinePassiveReuse request params context) s =
     RequestTarget_CompletionRoutinePassiveReuse request params context s"
| "occur script (Workitem_runs w) s =
     (case QueuedWorkitems s of
        [] \<Rightarrow> s
      | workitemContext # queue \<Rightarrow>
          RequestTarget_QueuedWorkitemCallbackSingle (scripted_client script) w workitemContext
            (s\<lparr>QueuedWorkitems := queue\<rparr>))"
| "occur script Other_Module_increments s = snd (InterlockedIncrement64 s)"

definition history ::
  "(pointer \<Rightarrow> completion_arguments \<Rightarrow> method_call list) \<Rightarrow> event list \<Rightarrow> RequestTarget \<Rightarrow> RequestTarget" where
  "history script events s = fold (occur script) events s"

section \<open>Example states\<close>

text \<open>
  A Module after DMF\_RequestTarget\_Open: the two collections exist (handles 1 and 2) and
  are empty, the counter is at zero and a target is set.
\<close>

definition example_Module :: RequestTarget where
  "example_Module =
     \<lparr>g_ContinuousRequestTargetUniqueId = 0, IoTarget = 9,
      PendingAsynchronousRequests = 1, PendingReuseRequests = 2,
      Collections = (\<lambda>c. []),
      UniqueRequestContextGet =
        (\<lambda>r. \<lparr>UniqueRequestIdCancel = 0, UniqueRequestIdReuse = 0, RequestInUse = False\<rparr>),
      BufferPoolLent = [],
      BufferPoolContents =
        (\<lambda>p. \<lparr>SingleAsynchronousRequestType = RequestType_Invalid,
               EvtRequestTargetSingleAsynchronousRequest = NULL,
               SingleAsynchronousCallbackClientContext = NULL\<rparr>),
      MemoryObjects = [], QueuedWorkitems = [], ModuleReferences = 0, Calls = []\<rparr>"

text \<open>
  A framework in which every call succeeds: the new request is 5, the memory objects are
  11 and 12, the pool lends the buffer 21, and the target returns 20 bytes of output.
\<close>

definition example_framework :: framework where
  "example_framework =
     \<lparr>DMF_ModuleReference_result = STATUS_SUCCESS,
      DMF_IsModulePassiveLevel_result = False,
      WdfRequestCreate_result = (STATUS_SUCCESS, 5),
      WdfMemoryCreatePreallocated_request = (STATUS_SUCCESS, 11),
      WdfMemoryCreatePreallocated_response = (STATUS_SUCCESS, 12),
      WdfRequestReuse_result = STATUS_SUCCESS,
      WdfIoTargetFormatRequest_result = STATUS_SUCCESS,
      DMF_BufferPool_Get_result = (STATUS_SUCCESS, 21),
      WdfCollectionAdd_result = STATUS_SUCCESS,
      WdfRequestAllocateTimer_result = STATUS_SUCCESS,
      WdfRequestSend_result = True,
      WdfRequestGetStatus_result = STATUS_SUCCESS,
      WdfRequestGetInformation_result = 20,
      WdfRequestCancelSentRequest_result = True,
      WdfRequestGetCompletionParams_result =
        \<lparr>Read_Buffer = 0, Read_Length = 0, Write_Buffer = 0, Write_Length = 0,
         Ioctl_Input_Buffer = 11, Ioctl_Output_Buffer = 12, Ioctl_Output_Length = 20\<rparr>,
      WdfMemoryGetBuffer = (\<lambda>m. if m = 11 then (100, 16) else (200, 32))\<rparr>"

definition example_arguments :: send_arguments where
  "example_arguments =
     \<lparr>RequestBuffer = 100, RequestLength = 16, ResponseBuffer = 200, ResponseLength = 32,
      RequestType = RequestType_Ioctl, RequestIoctl = 7, RequestTimeoutMilliseconds = 0,
      EvtSendCompletion = 50, SendCompletionClientContext = 60\<rparr>"

text \<open>One request, 7, is pending with the cancel identifier 3.\<close>

definition example_pending :: RequestTarget where
  "example_pending =
     example_Module
       \<lparr>g_ContinuousRequestTargetUniqueId := 3,
        Collections := (\<lambda>c. if c = 1 then [7] else []),
        UniqueRequestContextGet :=
          (\<lambda>r. \<lparr>UniqueRequestIdCancel = (if r = 7 then 3 else 0), UniqueRequestIdReuse = 0,
                  RequestInUse = False\<rparr>)\<rparr>"

text \<open>
  One reusable request, 5, with the reuse identifier 1; \<open>example_reuse_sent\<close> is the
  same Module while a send of that request is outstanding.
\<close>

definition example_reuse :: RequestTarget where
  "example_reuse =
     example_Module
       \<lparr>g_ContinuousRequestTargetUniqueId := 1,
        Collections := (\<lambda>c. if c = 2 then [5] else []),
        UniqueRequestContextGet :=
          (\<lambda>r. \<lparr>UniqueRequestIdCancel = 0, UniqueRequestIdReuse = (if r = 5 then 1 else 0),
                  RequestInUse = False\<rparr>)\<rparr>"

definition example_reuse_sent :: RequestTarget where
  "example_reuse_sent =
     example_Module
       \<lparr>g_ContinuousRequestTargetUniqueId := 1,
        Collections := (\<lambda>c. if c = 2 then [5] else []),
        UniqueRequestContextGet :=
          (\<lambda>r. \<lparr>UniqueRequestIdCancel = 0, UniqueRequestIdReuse = (if r = 5 then 1 else 0),
                  RequestInUse = (r = 5)\<rparr>),
        BufferPoolLent := [21],
        BufferPoolContents :=
          (\<lambda>p. \<lparr>SingleAsynchronousRequestType = RequestType_Ioctl,
                 EvtRequestTargetSingleAsynchronousRequest = 50,
                 SingleAsynchronousCallbackClientContext = 60\<rparr>),
        ModuleReferences := 1\<rparr>"

text \<open>
  A reusable request is created, deleted, and another one is created; the framework
  gives the second request the handle of the first.
\<close>

definition example_history :: "event list" where
  "example_history =
     [Client_calls (Method_ReuseCreate example_framework),
      Client_calls (Method_ReuseDelete 1),
      Client_calls (Method_ReuseCreate example_framework)]"

text \<open>
  \<open>m\<close> rounds in each of which the client creates a reusable request and deletes it
  again with the identifier it was given.
\<close>

definition rounds :: "nat \<Rightarrow> event list" where
  "rounds m =
     concat (map (\<lambda>k. [Client_calls (Method_ReuseCreate example_framework),
                        Client_calls (Method_ReuseDelete (of_nat k))]) [1..<Suc m])"

text \<open>
  The target completes the outstanding send of the reusable request 5 of
  \<open>example_reuse_sent\<close>; the framework runs the dispatch-level reuse completion routine
  with the context buffer 21.
\<close>

definition example_completion :: event where
  "example_completion =
     Target_completes example_framework CompletionRoutineReuse 5
       (WdfRequestGetCompletionParams_result example_framework) 21"

text \<open>
  A client whose completion callback (at address 50) sends the reusable request again,
  with the same reuse identifier.
\<close>

definition example_resend :: "pointer \<Rightarrow> completion_arguments \<Rightarrow> method_call list" where
  "example_resend f arguments =
     (if f = 50 then [Method_ReuseSend example_framework 1 example_arguments False] else [])"

text \<open>
  A Module with the request 7 pending (its context buffer 21 is lent) and the reusable
  request 5, and what the other threads do while DMF\_RequestTarget\_Close sleeps:
  during the first sleep the target completes the request 7, during the later ones the
  client deletes the reusable request.
\<close>

definition example_closing :: RequestTarget where
  "example_closing =
     example_Module
       \<lparr>g_ContinuousRequestTargetUniqueId := 3,
        Collections := (\<lambda>c. if c = 1 then [7] else if c = 2 then [5] else []),
        UniqueRequestContextGet :=
          (\<lambda>r. \<lparr>UniqueRequestIdCancel = (if r = 7 then 3 else 0),
                  UniqueRequestIdReuse = (if r = 5 then 1 else 0), RequestInUse = False\<rparr>),
        BufferPoolLent := [21],
        ModuleReferences := 1\<rparr>"

definition example_others :: "nat \<Rightarrow> RequestTarget \<Rightarrow> RequestTarget" where
  "example_others n =
     occur (\<lambda>f arguments. [])
       (if n = 0
        then Target_completes example_framework CompletionRoutine 7
               (WdfRequestGetCompletionParams_result example_framework) 21
        else Client_calls (Method_ReuseDelete 1))"

text \<open>
  Other threads that only complete the outstanding send of \<open>example_reuse_sent\<close>,
  during the first sleep, and do nothing afterwards.
\<close>

definition example_completes :: "nat \<Rightarrow> RequestTarget \<Rightarrow> RequestTarget" where
  "example_completes n =
     history (\<lambda>f arguments. []) (if n = 0 then [example_completion] else [])"

text \<open>A failure status, and a framework in which the target refuses the request.\<close>

definition STATUS_UNSUCCESSFUL :: NTSTATUS where
  "STATUS_UNSUCCESSFUL = 0xC0000001"

definition example_framework_send_fails :: framework where
  "example_framework_send_fails =
     example_framework\<lparr>WdfRequestSend_result := False, WdfRequestGetStatus_result := STATUS_UNSUCCESSFUL\<rparr>"

text \<open>
  A framework in which DMF\_ModuleReference is refused (the Module is closing) and the
  target would accept a cancellation.
\<close>

definition example_framework_closing :: framework where
  "example_framework_closing =
     example_framework\<lparr>DMF_ModuleReference_result := STATUS_UNSUCCESSFUL\<rparr>"

text \<open>A framework in which WdfRequestAllocateTimer fails.\<close>

definition example_framework_timer_fails :: framework where
  "example_framework_timer_fails =
     example_framework\<lparr>WdfRequestAllocateTimer_result := STATUS_UNSUCCESSFUL\<rparr>"

section \<open>Frame conditions\<close>

text \<open>
  Two relations between the state before and after a step, used to follow a send
  through its steps.  \<open>frame\<close>: the Module still names the same two collections, no
  collection other than the pending one has changed, and no request has changed its
  reuse identifier.  \<open>extends P\<close>: the record of calls has only grown, by calls that
  satisfy \<open>P\<close>.
\<close>

definition frame :: "RequestTarget \<Rightarrow> RequestTarget \<Rightarrow> bool" where
  "frame s s' \<longleftrightarrow>
     PendingAsynchronousRequests s' = PendingAsynchronousRequests s \<and>
     PendingReuseRequests s' = PendingReuseRequests s \<and>
     (\<forall>c. c \<noteq> PendingAsynchronousRequests s \<longrightarrow> Collections s' c = Collections s c) \<and>
     (\<forall>x. UniqueRequestIdReuse (UniqueRequestContextGet s' x) =
          UniqueRequestIdReuse (UniqueRequestContextGet s x))"

definition extends :: "(wdf_call \<Rightarrow> bool) \<Rightarrow> RequestTarget \<Rightarrow> RequestTarget \<Rightarrow> bool" where
  "extends P s s' \<longleftrightarrow> (\<exists>ys. Calls s' = Calls s @ ys \<and> list_all P ys)"

text \<open>
  \<open>evolves deleting\<close>: the Module still names the same two collections; unless
  \<open>deleting\<close> is allowed (or the two collections are one object), the reuse collection
  has only grown at its end; the record of calls has only grown; and the identifiers
  drawn meanwhile are the successors of the counter's old value, in order, the counter
  standing at the last of them.
\<close>

definition evolves :: "bool \<Rightarrow> RequestTarget \<Rightarrow> RequestTarget \<Rightarrow> bool" where
  "evolves deleting s s' \<longleftrightarrow>
     PendingAsynchronousRequests s' = PendingAsynchronousRequests s \<and>
     PendingReuseRequests s' = PendingReuseRequests s \<and>
     (deleting \<or> PendingAsynchronousRequests s = PendingReuseRequests s \<or> prefix (ReuseSet s) (ReuseSet s')) \<and>
     prefix (Calls s) (Calls s') \<and>
     issued (new_calls s s') =
       map (\<lambda>k. g_ContinuousRequestTargetUniqueId s + of_nat k) [1..<Suc (length (issued (new_calls s s')))] \<and>
     g_ContinuousRequestTargetUniqueId s' =
       g_ContinuousRequestTargetUniqueId s + of_nat (length (issued (new_calls s s')))"

text \<open>The Method that removes a request from the reuse collection.\<close>

fun deletes :: "method_call \<Rightarrow> bool" where
  "deletes (Method_ReuseDelete c) = True"
| "deletes _ = False"

text \<open>
  Neither a callback of the client nor the client itself calls
  DMF\_RequestTarget\_ReuseDelete.
\<close>

definition never_deletes :: "(pointer \<Rightarrow> completion_arguments \<Rightarrow> method_call list) \<Rightarrow> event list \<Rightarrow> bool" where
  "never_deletes script events \<longleftrightarrow>
     (\<forall>f arguments. \<forall>m \<in> set (script f arguments). \<not> deletes m) \<and>
     (\<forall>e \<in> set events. \<forall>m. e = Client_calls m \<longrightarrow> \<not> deletes m)"

section \<open>Properties of the registry scans\<close>

lemma WdfCollectionGetItem_eq_NULL:
  "NULL \<notin> set xs \<Longrightarrow> (WdfCollectionGetItem xs i = NULL) = (length xs \<le> i)"
  by (auto simp: WdfCollectionGetItem_def in_set_conv_nth)

lemma SearchAndReference_loop_find:
  "NULL \<notin> set xs \<Longrightarrow>
   SearchAndReference_loop ctx c xs i =
     (case find (\<lambda>r. UniqueRequestIdCancel (ctx r) = c) (drop i xs) of
        None \<Rightarrow> (False, NULL) | Some r \<Rightarrow> (True, r))"
proof (induction ctx c xs i rule: SearchAndReference_loop.induct)
  case (1 ctx c xs i)
  show ?case
  proof (cases "i < length xs")
    case False
    then show ?thesis
      by (subst SearchAndReference_loop.simps) (simp add: WdfCollectionGetItem_def)
  next
    case True
    then have d: "drop i xs = xs ! i # drop (Suc i) xs"
      by (simp add: Cons_nth_drop_Suc)
    from True "1.prems" have nz: "xs ! i \<noteq> NULL"
      by (metis nth_mem)
    show ?thesis
      using True nz "1.IH" "1.prems"
      by (subst SearchAndReference_loop.simps) (simp add: WdfCollectionGetItem_def d Let_def)
  qed
qed

lemma SearchAndReference_loop_none:
  "\<forall>r \<in> set xs. UniqueRequestIdCancel (ctx r) \<noteq> c \<Longrightarrow>
   SearchAndReference_loop ctx c xs i = (False, NULL)"
proof (induction ctx c xs i rule: SearchAndReference_loop.induct)
  case (1 ctx c xs i)
  show ?case
  proof (cases "i < length xs")
    case False
    then show ?thesis
      by (subst SearchAndReference_loop.simps) (simp add: WdfCollectionGetItem_def)
  next
    case True
    then show ?thesis
      using "1.IH" "1.prems"
      by (subst SearchAndReference_loop.simps) (simp add: WdfCollectionGetItem_def Let_def)
  qed
qed

lemma ReuseListSearch_loop_find:
  "NULL \<notin> set xs \<Longrightarrow>
   ReuseListSearch_loop ctx c xs i =
     (case find (\<lambda>r. UniqueRequestIdReuse (ctx r) = c) (drop i xs) of
        None \<Rightarrow> (False, NULL, ctx)
      | Some r \<Rightarrow> (if RequestInUse (ctx r) then (False, NULL, ctx)
                   else (True, r, ctx(r := (ctx r)\<lparr>RequestInUse := True\<rparr>))))"
proof (induction ctx c xs i rule: ReuseListSearch_loop.induct)
  case (1 ctx c xs i)
  show ?case
  proof (cases "i < length xs")
    case False
    then show ?thesis
      by (subst ReuseListSearch_loop.simps) (simp add: WdfCollectionGetItem_def)
  next
    case True
    then have d: "drop i xs = xs ! i # drop (Suc i) xs"
      by (simp add: Cons_nth_drop_Suc)
    from True "1.prems" have nz: "xs ! i \<noteq> NULL"
      by (metis nth_mem)
    show ?thesis
      using True nz "1.IH" "1.prems"
      by (subst ReuseListSearch_loop.simps) (simp add: WdfCollectionGetItem_def d Let_def)
  qed
qed

lemma SearchAndRemove_loop_remove1:
  "NULL \<notin> set xs \<Longrightarrow> request \<noteq> NULL \<Longrightarrow>
   SearchAndRemove_loop request xs i =
     (request \<in> set (drop i xs), take i xs @ remove1 request (drop i xs))"
proof (induction request xs i rule: SearchAndRemove_loop.induct)
  case (1 request xs i)
  show ?case
  proof (cases "i < length xs")
    case False
    then show ?thesis
      using "1.prems"
      by (subst SearchAndRemove_loop.simps) (simp add: WdfCollectionGetItem_def)
  next
    case True
    then have d: "drop i xs = xs ! i # drop (Suc i) xs"
      by (simp add: Cons_nth_drop_Suc)
    have t: "take (Suc i) xs = take i xs @ [xs ! i]"
      using True by (simp add: take_Suc_conv_app_nth)
    from True "1.prems" have nz: "xs ! i \<noteq> NULL"
      by (metis nth_mem)
    show ?thesis
      using True nz "1.IH" "1.prems"
      by (subst SearchAndRemove_loop.simps)
         (auto simp: WdfCollectionGetItem_def WdfCollectionRemoveItem_def d t Let_def)
  qed
qed

lemma ReuseListSearch_loop_none:
  "\<forall>r \<in> set xs. UniqueRequestIdReuse (ctx r) \<noteq> c \<Longrightarrow>
   ReuseListSearch_loop ctx c xs i = (False, NULL, ctx)"
proof (induction ctx c xs i rule: ReuseListSearch_loop.induct)
  case (1 ctx c xs i)
  show ?case
  proof (cases "i < length xs")
    case False
    then show ?thesis
      by (subst ReuseListSearch_loop.simps) (simp add: WdfCollectionGetItem_def)
  next
    case True
    then show ?thesis
      using "1.IH" "1.prems"
      by (subst ReuseListSearch_loop.simps) (simp add: WdfCollectionGetItem_def Let_def)
  qed
qed

section \<open>Statuses, primitives and the record of calls\<close>

lemma NT_SUCCESS_simps [simp]:
  "NT_SUCCESS STATUS_SUCCESS" "\<not> NT_SUCCESS STATUS_OBJECTID_NOT_FOUND"
  "\<not> NT_SUCCESS STATUS_INVALID_PARAMETER"
  by (simp_all add: NT_SUCCESS_def STATUS_SUCCESS_def STATUS_OBJECTID_NOT_FOUND_def
        STATUS_INVALID_PARAMETER_def)

lemmas primitive_defs =
  record_call_def WdfObjectDelete_memory_def WdfObjectDelete_request_def
  WdfMemoryCreatePreallocated_def DMF_ModuleReference_def DMF_ModuleDereference_def
  DMF_BufferPool_Put_def DMF_BufferPool_Get_def UniqueRequestContext_update_def
  RequestTarget_PendingCollectionListAdd_def RequestTarget_PendingCollectionListSearchAndRemove_def
  InterlockedIncrement64_def SingleAsynchronousRequestContext_fill_def register_for_cancel_def
  WdfRequestCreate_def memory_for_def RequestTarget_FormatRequestForRequestType_def

lemma ReuseListSearch_free:
  assumes "NULL \<notin> set (ReuseSet s)"
    and "find (\<lambda>x. UniqueRequestIdReuse (UniqueRequestContextGet s x) = c) (ReuseSet s) = Some r"
    and "\<not> RequestInUse (UniqueRequestContextGet s r)"
  shows "RequestTarget_PendingCollectionReuseListSearch c s =
           (True, r, UniqueRequestContext_update r (\<lambda>u. u\<lparr>RequestInUse := True\<rparr>) s)"
  using assms
  by (simp add: RequestTarget_PendingCollectionReuseListSearch_def ReuseListSearch_loop_find
        UniqueRequestContext_update_def)

lemma ReuseListSearch_in_use:
  assumes "NULL \<notin> set (ReuseSet s)"
    and "find (\<lambda>x. UniqueRequestIdReuse (UniqueRequestContextGet s x) = c) (ReuseSet s) = Some r"
    and "RequestInUse (UniqueRequestContextGet s r)"
  shows "RequestTarget_PendingCollectionReuseListSearch c s = (False, NULL, s)"
  using assms
  by (simp add: RequestTarget_PendingCollectionReuseListSearch_def ReuseListSearch_loop_find)

lemma ReuseListSearch_unknown:
  assumes "\<forall>x \<in> set (ReuseSet s). UniqueRequestIdReuse (UniqueRequestContextGet s x) \<noteq> c"
  shows "RequestTarget_PendingCollectionReuseListSearch c s = (False, NULL, s)"
  using assms
  by (simp add: RequestTarget_PendingCollectionReuseListSearch_def ReuseListSearch_loop_none)

lemma SendReuse_rejected:
  assumes "RequestTarget_PendingCollectionReuseListSearch c s = (False, NULL, s)"
  shows "RequestTarget_RequestSendReuse w c sync a opt wbw wc s =
           ((STATUS_OBJECTID_NOT_FOUND, if wbw then Some 0 else None, None), s)"
  using assms
  by (simp add: RequestTarget_RequestSendReuse_def RequestTarget_RequestSendReuse_Exit_def)

lemma ReuseSend_rejected:
  assumes "RequestTarget_PendingCollectionReuseListSearch c s = (False, NULL, s)"
  shows "snd (DMF_RequestTarget_ReuseSend w c a wc s) = s
         \<and> \<not> NT_SUCCESS (fst (fst (DMF_RequestTarget_ReuseSend w c a wc s)))"
proof -
  obtain x y ctx' where l: "ReuseListSearch_loop (UniqueRequestContextGet s) c (ReuseSet s) 0 = (x, y, ctx')"
    by (metis prod_cases3)
  with assms have "x = False" "y = NULL" "s\<lparr>UniqueRequestContextGet := ctx'\<rparr> = s"
    by (simp_all add: RequestTarget_PendingCollectionReuseListSearch_def)
  moreover from this have "ctx' = UniqueRequestContextGet s"
    by (metis RequestTarget.select_convs(6) RequestTarget.surjective RequestTarget.update_convs(6))
  ultimately have b: "RequestTarget_PendingCollectionReuseListSearch c (s\<lparr>ModuleReferences := n\<rparr>) =
           (False, NULL, s\<lparr>ModuleReferences := n\<rparr>)" for n
    using l by (simp add: RequestTarget_PendingCollectionReuseListSearch_def)
  show ?thesis
    by (cases "NT_SUCCESS (DMF_ModuleReference_result w)")
       (simp_all add: DMF_RequestTarget_ReuseSend_def DMF_ModuleReference_def SendReuse_rejected [OF b]
          DMF_ModuleDereference_def Let_def)
qed

lemma SendReuse_Exit_calls:
  "prefix xs (Calls s) \<Longrightarrow>
   prefix xs (Calls (snd (RequestTarget_RequestSendReuse_Exit ab r m1 m2 wbw n st co s)))"
  by (simp add: RequestTarget_RequestSendReuse_Exit_def primitive_defs Let_def)

lemma SendReuse_send_calls:
  "prefix xs (Calls s) \<Longrightarrow>
   prefix xs (Calls (snd (RequestTarget_RequestSendReuse_send w sync wbw wc r m1 m2 c s)))"
  by (simp add: RequestTarget_RequestSendReuse_send_def RequestTarget_RequestSendReuse_Exit_def
        primitive_defs Let_def case_prod_beta)

lemma SendReuse_prepare_calls:
  "RequestTarget_RequestSendReuse_prepare w sync a opt wc r s = Inl (st, s') \<Longrightarrow> \<exists>ys. Calls s' = Calls s @ ys"
  "RequestTarget_RequestSendReuse_prepare w sync a opt wc r s = Inr (c, s') \<Longrightarrow> \<exists>ys. Calls s' = Calls s @ ys"
  by (auto simp: RequestTarget_RequestSendReuse_prepare_def
        primitive_defs Let_def case_prod_beta split: if_splits option.splits)

lemma memory_for_calls:
  "memory_for n res r s = Inr (m, s') \<Longrightarrow> \<exists>ys. Calls s' = Calls s @ ys"
  by (auto simp: primitive_defs Let_def case_prod_beta split: if_splits)

lemma Format_calls:
  "RequestTarget_FormatRequestForRequestType w r t m1 m2 s = (st, s') \<Longrightarrow> \<exists>ys. Calls s' = Calls s @ ys"
  by (auto simp: primitive_defs split: ContinuousRequestTarget_RequestType.splits)

lemma SendReuse_after_search_calls:
  assumes "RequestTarget_PendingCollectionReuseListSearch c s = (True, r, s1)"
  shows "prefix (Calls s1 @ [Call_WdfRequestReuse r])
           (Calls (snd (RequestTarget_RequestSendReuse w c sync a opt wbw wc s)))"
proof -
  let ?s2 = "record_call (Call_WdfRequestReuse r) s1"
  have c2: "Calls ?s2 = Calls s1 @ [Call_WdfRequestReuse r]"
    by (simp add: record_call_def)
  have "prefix (Calls ?s2) (Calls (snd (RequestTarget_RequestSendReuse w c sync a opt wbw wc s)))"
    unfolding RequestTarget_RequestSendReuse_def assms
    apply (simp add: Let_def split: sum.splits prod.splits)
    apply (intro conjI impI allI SendReuse_Exit_calls SendReuse_send_calls)
    apply (simp_all)
    apply (auto dest!: memory_for_calls Format_calls SendReuse_prepare_calls)
    done
  then show ?thesis by (simp add: c2)
qed


lemma reference_dereference [simp]:
  "DMF_ModuleDereference (s\<lparr>ModuleReferences := ModuleReferences s + 1\<rparr>) = s"
  by (simp add: DMF_ModuleDereference_def)

lemmas worker_defs =
  RequestTarget_RequestSendReuse_def RequestTarget_RequestSendReuse_prepare_def
  RequestTarget_RequestSendReuse_send_def RequestTarget_RequestSendReuse_Exit_def
  RequestTarget_RequestCreateAndSend_def RequestTarget_RequestCreateAndSend_prepare_def
  RequestTarget_RequestCreateAndSend_send_def RequestTarget_RequestCreateAndSend_Exit_def

lemmas example_defs =
  example_Module_def example_framework_def example_arguments_def example_pending_def
  example_reuse_def example_reuse_sent_def example_framework_send_fails_def

lemma NT_SUCCESS_UNSUCCESSFUL [simp]: "\<not> NT_SUCCESS STATUS_UNSUCCESSFUL"
  by (simp add: NT_SUCCESS_def STATUS_UNSUCCESSFUL_def)

section \<open>Following a send through its steps\<close>

lemma frame_refl [simp]: "frame s s"
  by (simp add: frame_def)

lemma frame_trans: "frame s s1 \<Longrightarrow> frame s1 s2 \<Longrightarrow> frame s s2"
  by (simp add: frame_def)

lemma extends_refl [simp]: "extends P s s"
  by (simp add: extends_def)

lemma extends_trans: "extends P s s1 \<Longrightarrow> extends P s1 s2 \<Longrightarrow> extends P s s2"
  by (auto simp: extends_def)

lemma new_calls_extends:
  "extends P s s' \<Longrightarrow> list_all P (new_calls s s')"
  by (auto simp: extends_def new_calls_def)

lemma memory_for_frame:
  "memory_for n res r s = Inr (m, s') \<Longrightarrow> frame s s'"
  by (auto simp: frame_def primitive_defs Let_def case_prod_beta split: if_splits)

lemma memory_for_extends:
  "memory_for n res r s = Inr (m, s') \<Longrightarrow> extends (\<lambda>c. \<forall>x b. c \<noteq> Call_WdfRequestSend x b) s s'"
  by (auto simp: extends_def primitive_defs Let_def case_prod_beta split: if_splits)

lemma Format_frame:
  "RequestTarget_FormatRequestForRequestType w r t m1 m2 s = (st, s') \<Longrightarrow> frame s s'"
  by (auto simp: frame_def primitive_defs split: ContinuousRequestTarget_RequestType.splits)

lemma Format_extends:
  "RequestTarget_FormatRequestForRequestType w r t m1 m2 s = (st, s') \<Longrightarrow>
   extends (\<lambda>c. \<forall>x b. c \<noteq> Call_WdfRequestSend x b) s s'"
  by (auto simp: extends_def primitive_defs split: ContinuousRequestTarget_RequestType.splits)

lemma SendReuse_prepare_frame:
  "RequestTarget_RequestSendReuse_prepare w sync a opt wc r s = Inl (st, s') \<Longrightarrow> frame s s'"
  "RequestTarget_RequestSendReuse_prepare w sync a opt wc r s = Inr (c, s') \<Longrightarrow> frame s s'"
  by (auto simp: RequestTarget_RequestSendReuse_prepare_def frame_def
        primitive_defs Let_def case_prod_beta split: if_splits option.splits)

lemma SendReuse_prepare_extends:
  "RequestTarget_RequestSendReuse_prepare w sync a opt wc r s = Inl (st, s') \<Longrightarrow>
   extends (\<lambda>c. \<forall>x b. c \<noteq> Call_WdfRequestSend x b) s s'"
  "RequestTarget_RequestSendReuse_prepare w sync a opt wc r s = Inr (c, s') \<Longrightarrow>
   extends (\<lambda>c. \<forall>x b. c \<noteq> Call_WdfRequestSend x b) s s'"
  by (auto simp: RequestTarget_RequestSendReuse_prepare_def extends_def
        primitive_defs Let_def case_prod_beta split: if_splits option.splits)

lemma SendReuse_prepare_in_use:
  "RequestTarget_RequestSendReuse_prepare w sync a opt wc r s = Inl (st, s') \<Longrightarrow>
   RequestInUse (UniqueRequestContextGet s' x) = RequestInUse (UniqueRequestContextGet s x)"
  "RequestTarget_RequestSendReuse_prepare w sync a opt wc r s = Inr (c, s') \<Longrightarrow>
   RequestInUse (UniqueRequestContextGet s' x) = RequestInUse (UniqueRequestContextGet s x)"
  by (auto simp: RequestTarget_RequestSendReuse_prepare_def
        primitive_defs Let_def case_prod_beta split: if_splits option.splits)

lemma SendReuse_Exit_frame:
  "frame s (snd (RequestTarget_RequestSendReuse_Exit ab r m1 m2 wbw n st co s))"
  by (simp add: RequestTarget_RequestSendReuse_Exit_def frame_def primitive_defs Let_def)

lemma SendReuse_Exit_abort:
  "r \<noteq> NULL \<Longrightarrow>
   \<not> RequestInUse (UniqueRequestContextGet
        (snd (RequestTarget_RequestSendReuse_Exit True r m1 m2 wbw n st co s)) r)"
  by (simp add: RequestTarget_RequestSendReuse_Exit_def primitive_defs Let_def)

lemma SendReuse_send_frame:
  "frame s (snd (RequestTarget_RequestSendReuse_send w sync wbw wc r m1 m2 c s))"
  by (simp add: RequestTarget_RequestSendReuse_send_def RequestTarget_RequestSendReuse_Exit_def
        frame_def primitive_defs Let_def case_prod_beta)

lemma SendReuse_send_not_sent:
  assumes "r \<noteq> NULL"
    and "Call_WdfRequestSend r True \<notin>
           set (new_calls s (snd (RequestTarget_RequestSendReuse_send w sync wbw wc r m1 m2 c s)))"
  shows "\<not> RequestInUse (UniqueRequestContextGet
           (snd (RequestTarget_RequestSendReuse_send w sync wbw wc r m1 m2 c s)) r)"
  using assms
  by (auto simp: RequestTarget_RequestSendReuse_send_def RequestTarget_RequestSendReuse_Exit_def
        new_calls_def primitive_defs Let_def case_prod_beta split: if_splits)

lemma SendReuse_send_asynchronous_failure:
  assumes "\<not> NT_SUCCESS (fst (fst (RequestTarget_RequestSendReuse_send w False wbw wc r m1 m2 c s)))"
  shows "Call_WdfRequestSend r True \<notin>
           set (new_calls s (snd (RequestTarget_RequestSendReuse_send w False wbw wc r m1 m2 c s)))"
  using assms
  by (auto simp: RequestTarget_RequestSendReuse_send_def RequestTarget_RequestSendReuse_Exit_def
        new_calls_def primitive_defs Let_def case_prod_beta split: if_splits)

lemma SendReuse_paths:
  assumes R_trans: "\<And>x y z. R x y \<Longrightarrow> R y z \<Longrightarrow> R x z"
    and R_call: "\<And>x. R x (record_call (Call_WdfRequestReuse r) x)"
    and R_memory: "\<And>n res x m y. memory_for n res r x = Inr (m, y) \<Longrightarrow> R x y"
    and R_format: "\<And>t m1 m2 x st y.
          RequestTarget_FormatRequestForRequestType w r t m1 m2 x = (st, y) \<Longrightarrow> R x y"
    and search: "RequestTarget_PendingCollectionReuseListSearch c s = (True, r, s1)"
    and exit: "\<And>m1 m2 st x. R s1 x \<Longrightarrow>
          P (RequestTarget_RequestSendReuse_Exit True r m1 m2 wbw 0 st None x)"
    and exit_prepare: "\<And>m1 m2 st x0 x. R s1 x0 \<Longrightarrow>
          RequestTarget_RequestSendReuse_prepare w sync a opt wc r x0 = Inl (st, x) \<Longrightarrow>
          P (RequestTarget_RequestSendReuse_Exit True r m1 m2 wbw 0 st None x)"
    and send: "\<And>m1 m2 d x0 x. R s1 x0 \<Longrightarrow>
          RequestTarget_RequestSendReuse_prepare w sync a opt wc r x0 = Inr (d, x) \<Longrightarrow>
          P (RequestTarget_RequestSendReuse_send w sync wbw wc r m1 m2 d x)"
  shows "P (RequestTarget_RequestSendReuse w c sync a opt wbw wc s)"
proof -
  let ?s2 = "record_call (Call_WdfRequestReuse r) s1"
  have s2: "R s1 ?s2"
    by (rule R_call)
  show ?thesis
  proof (cases "NT_SUCCESS (WdfRequestReuse_result w)")
    case False
    then show ?thesis
      using exit [OF s2] by (simp add: RequestTarget_RequestSendReuse_def search Let_def)
  next
    case reuse: True
    show ?thesis
    proof (cases "memory_for (RequestLength a) (WdfMemoryCreatePreallocated_request w) r ?s2")
      case (Inl st)
      then show ?thesis
        using exit [OF s2] reuse by (simp add: RequestTarget_RequestSendReuse_def search Let_def)
    next
      case (Inr p)
      then obtain m1 s3 where m1: "memory_for (RequestLength a) (WdfMemoryCreatePreallocated_request w) r ?s2 = Inr (m1, s3)"
        by (cases p) auto
      have s3: "R s1 s3"
        using s2 R_memory [OF m1] by (rule R_trans)
      show ?thesis
      proof (cases "memory_for (ResponseLength a) (WdfMemoryCreatePreallocated_response w) r s3")
        case (Inl st)
        then show ?thesis
          using exit [OF s3] reuse m1 by (simp add: RequestTarget_RequestSendReuse_def search Let_def)
      next
        case (Inr q)
        then obtain m2 s4 where m2: "memory_for (ResponseLength a) (WdfMemoryCreatePreallocated_response w) r s3 = Inr (m2, s4)"
          by (cases q) auto
        have s4: "R s1 s4"
          using s3 R_memory [OF m2] by (rule R_trans)
        obtain st s5 where f: "RequestTarget_FormatRequestForRequestType w r (RequestType a) m1 m2 s4 = (st, s5)"
          by (cases "RequestTarget_FormatRequestForRequestType w r (RequestType a) m1 m2 s4") auto
        have s5: "R s1 s5"
          using s4 R_format [OF f] by (rule R_trans)
        show ?thesis
        proof (cases "NT_SUCCESS st")
          case False
          then show ?thesis
            using exit [OF s5] reuse m1 m2 f by (simp add: RequestTarget_RequestSendReuse_def search Let_def)
        next
          case fmt: True
          show ?thesis
          proof (cases "RequestTarget_RequestSendReuse_prepare w sync a opt wc r s5")
            case (Inl e)
            then obtain st' s6 where p: "RequestTarget_RequestSendReuse_prepare w sync a opt wc r s5 = Inl (st', s6)"
              by (cases e) auto
            from exit_prepare [OF s5 p] show ?thesis
              using reuse m1 m2 f fmt p by (simp add: RequestTarget_RequestSendReuse_def search Let_def)
          next
            case (Inr e)
            then obtain d s6 where p: "RequestTarget_RequestSendReuse_prepare w sync a opt wc r s5 = Inr (d, s6)"
              by (cases e) auto
            from send [OF s5 p] show ?thesis
              using reuse m1 m2 f fmt p by (simp add: RequestTarget_RequestSendReuse_def search Let_def)
          qed
        qed
      qed
    qed
  qed
qed


lemma SendReuse_send_extends:
  "extends (\<lambda>c. True) s (snd (RequestTarget_RequestSendReuse_send w sync wbw wc r m1 m2 c s))"
  by (simp add: RequestTarget_RequestSendReuse_send_def RequestTarget_RequestSendReuse_Exit_def
        extends_def primitive_defs Let_def case_prod_beta)

lemma new_calls_suffix:
  assumes "extends P s x" and "extends Q x s'"
  shows "set (new_calls x s') \<subseteq> set (new_calls s s')"
  using assms by (auto simp: extends_def new_calls_def)

lemma record_call_frame: "frame x (record_call c x)"
  by (simp add: frame_def record_call_def)

lemma record_call_extends: "P c \<Longrightarrow> extends P x (record_call c x)"
  by (simp add: extends_def record_call_def)

section \<open>Every step only extends the history\<close>


lemma issued_simps [simp]:
  "issued [] = []"
  "issued (c # cs) = drawn c @ issued cs"
  "issued (xs @ ys) = issued xs @ issued ys"
  by (simp_all add: issued_def)

lemma new_calls_self [simp]: "new_calls s s = []"
  by (simp add: new_calls_def)

lemma new_calls_append:
  "prefix (Calls s) (Calls s1) \<Longrightarrow> prefix (Calls s1) (Calls s2) \<Longrightarrow>
   new_calls s s2 = new_calls s s1 @ new_calls s1 s2"
  by (auto simp: new_calls_def prefix_def)

lemma map_shift_upt:
  "map (\<lambda>k. f (n + k)) [1..<Suc m] = map f [Suc n..<Suc (n + m)]"
  by (induction m) simp_all

lemma upt_split: "[1..<Suc (n + m)] = [1..<Suc n] @ [Suc n..<Suc (n + m)]"
  by (induction m) simp_all

lemma evolves_refl [simp]: "evolves d s s"
  by (simp add: evolves_def)

lemma evolves_trans:
  assumes "evolves d s s1" and "evolves d s1 s2"
  shows "evolves d s s2"
proof -
  let ?g = g_ContinuousRequestTargetUniqueId
  let ?n1 = "length (issued (new_calls s s1))" and ?n2 = "length (issued (new_calls s1 s2))"
  from assms have p: "prefix (Calls s) (Calls s1)" "prefix (Calls s1) (Calls s2)"
    by (simp_all add: evolves_def)
  then have nc: "new_calls s s2 = new_calls s s1 @ new_calls s1 s2"
    by (rule new_calls_append)
  from assms have i1: "issued (new_calls s s1) = map (\<lambda>k. ?g s + of_nat k) [1..<Suc ?n1]"
    and i2: "issued (new_calls s1 s2) = map (\<lambda>k. ?g s1 + of_nat k) [1..<Suc ?n2]"
    and g1: "?g s1 = ?g s + of_nat ?n1" and g2: "?g s2 = ?g s1 + of_nat ?n2"
    by (simp_all add: evolves_def)
  have "map (\<lambda>k. ?g s1 + of_nat k) [1..<Suc ?n2] = map (\<lambda>k. ?g s + of_nat (?n1 + k)) [1..<Suc ?n2]"
    by (simp add: g1 add.assoc)
  also have "\<dots> = map (\<lambda>k. ?g s + of_nat k) [Suc ?n1..<Suc (?n1 + ?n2)]"
    by (rule map_shift_upt)
  finally have i2': "issued (new_calls s1 s2) = map (\<lambda>k. ?g s + of_nat k) [Suc ?n1..<Suc (?n1 + ?n2)]"
    using i2 by simp
  have len: "length (issued (new_calls s s2)) = ?n1 + ?n2"
    by (simp add: nc)
  have iss: "issued (new_calls s s2) = map (\<lambda>k. ?g s + of_nat k) [1..<Suc (?n1 + ?n2)]"
    unfolding nc issued_simps upt_split map_append
    using i1 i2' by simp
  have g: "?g s2 = ?g s + of_nat (?n1 + ?n2)"
    by (simp add: g1 g2)
  from assms have h: "PendingAsynchronousRequests s2 = PendingAsynchronousRequests s"
    "PendingReuseRequests s2 = PendingReuseRequests s"
    "PendingAsynchronousRequests s1 = PendingAsynchronousRequests s"
    "PendingReuseRequests s1 = PendingReuseRequests s"
    by (simp_all add: evolves_def)
  from assms have r: "d \<or> PendingAsynchronousRequests s = PendingReuseRequests s \<or>
      prefix (ReuseSet s) (ReuseSet s2)"
    unfolding evolves_def h by (metis h prefix_order.trans)
  show ?thesis
    unfolding evolves_def len
    using h r p iss g by (auto intro: prefix_order.trans)
qed

lemma evolves_deleting: "evolves False s s' \<Longrightarrow> evolves d s s'"
  by (auto simp: evolves_def)


lemmas evolves_simps = evolves_def new_calls_def primitive_defs Let_def case_prod_beta

lemma record_call_evolves: "drawn c = [] \<Longrightarrow> evolves d s (record_call c s)"
  by (simp add: evolves_simps)

lemma InterlockedIncrement64_evolves: "evolves d s (snd (InterlockedIncrement64 s))"
  by (simp add: evolves_simps)

lemma memory_for_evolves:
  "memory_for n res r s = Inr (m, s') \<Longrightarrow> evolves d s s'"
  by (auto simp: evolves_simps split: if_splits)

lemma Format_evolves:
  "RequestTarget_FormatRequestForRequestType w r t m1 m2 s = (st, s') \<Longrightarrow> evolves d s s'"
  by (auto simp: evolves_simps split: ContinuousRequestTarget_RequestType.splits)

lemma SendReuse_prepare_evolves:
  "RequestTarget_RequestSendReuse_prepare w sync a opt wc r s = Inl (st, s') \<Longrightarrow> evolves d s s'"
  "RequestTarget_RequestSendReuse_prepare w sync a opt wc r s = Inr (c, s') \<Longrightarrow> evolves d s s'"
  by (auto simp: RequestTarget_RequestSendReuse_prepare_def evolves_simps
        split: if_splits option.splits)

lemma CreateAndSend_prepare_evolves:
  "RequestTarget_RequestCreateAndSend_prepare w sync a opt wc r s = Inl (st, s') \<Longrightarrow> evolves d s s'"
  "RequestTarget_RequestCreateAndSend_prepare w sync a opt wc r s = Inr (c, s') \<Longrightarrow> evolves d s s'"
  by (auto simp: RequestTarget_RequestCreateAndSend_prepare_def evolves_simps
        split: if_splits option.splits)

lemma SendReuse_Exit_evolves:
  "evolves d s (snd (RequestTarget_RequestSendReuse_Exit ab r m1 m2 wbw n st co s))"
  by (simp add: RequestTarget_RequestSendReuse_Exit_def evolves_simps)

lemma CreateAndSend_Exit_evolves:
  "evolves d s (snd (RequestTarget_RequestCreateAndSend_Exit sync r wbw n st co s))"
  by (simp add: RequestTarget_RequestCreateAndSend_Exit_def evolves_simps)

lemma SendReuse_send_evolves:
  "evolves d s (snd (RequestTarget_RequestSendReuse_send w sync wbw wc r m1 m2 c s))"
  by (simp add: RequestTarget_RequestSendReuse_send_def RequestTarget_RequestSendReuse_Exit_def
        evolves_simps)

lemma CreateAndSend_send_evolves:
  "evolves d s (snd (RequestTarget_RequestCreateAndSend_send w sync wbw wc r c s))"
  by (simp add: RequestTarget_RequestCreateAndSend_send_def RequestTarget_RequestCreateAndSend_Exit_def
        evolves_simps)

lemma ReuseListSearch_evolves:
  "evolves d s (snd (snd (RequestTarget_PendingCollectionReuseListSearch c s)))"
  by (simp add: RequestTarget_PendingCollectionReuseListSearch_def evolves_simps)

lemma WdfRequestCreate_evolves: "evolves d s (WdfRequestCreate r s)"
  by (simp add: evolves_simps)

lemma DMF_ModuleReference_evolves: "evolves d s (snd (DMF_ModuleReference w s))"
  by (simp add: evolves_simps)

lemma DMF_ModuleDereference_evolves: "evolves d s (DMF_ModuleDereference s)"
  by (simp add: evolves_simps)


lemma CreateAndSend_paths:
  assumes R_refl: "\<And>x. R x x"
    and R_trans: "\<And>x y z. R x y \<Longrightarrow> R y z \<Longrightarrow> R x z"
    and R_memory: "\<And>n res x m y. memory_for n res r x = Inr (m, y) \<Longrightarrow> R x y"
    and R_format: "\<And>t m1 m2 x st y.
          RequestTarget_FormatRequestForRequestType w r t m1 m2 x = (st, y) \<Longrightarrow> R x y"
    and create: "WdfRequestCreate_result w = (st0, r)" "NT_SUCCESS st0"
    and exit: "\<And>st x. R (WdfRequestCreate r s) x \<Longrightarrow>
          P (RequestTarget_RequestCreateAndSend_Exit sync r wbw 0 st None x)"
    and exit_prepare: "\<And>st x0 x. R (WdfRequestCreate r s) x0 \<Longrightarrow>
          RequestTarget_RequestCreateAndSend_prepare w sync a opt wc r x0 = Inl (st, x) \<Longrightarrow>
          P (RequestTarget_RequestCreateAndSend_Exit sync r wbw 0 st None x)"
    and send: "\<And>d x0 x. R (WdfRequestCreate r s) x0 \<Longrightarrow>
          RequestTarget_RequestCreateAndSend_prepare w sync a opt wc r x0 = Inr (d, x) \<Longrightarrow>
          P (RequestTarget_RequestCreateAndSend_send w sync wbw wc r d x)"
  shows "P (RequestTarget_RequestCreateAndSend w sync a opt wbw wc s)"
proof -
  let ?s1 = "WdfRequestCreate r s"
  have s1: "R ?s1 ?s1"
    by (rule R_refl)
  show ?thesis
  proof (cases "memory_for (RequestLength a) (WdfMemoryCreatePreallocated_request w) r ?s1")
    case (Inl st)
    then show ?thesis
      using exit [OF s1] create by (simp add: RequestTarget_RequestCreateAndSend_def Let_def)
  next
    case (Inr p)
    then obtain m1 s2 where m1: "memory_for (RequestLength a) (WdfMemoryCreatePreallocated_request w) r ?s1 = Inr (m1, s2)"
      by (cases p) auto
    have s2: "R ?s1 s2"
      by (rule R_memory [OF m1])
    show ?thesis
    proof (cases "memory_for (ResponseLength a) (WdfMemoryCreatePreallocated_response w) r s2")
      case (Inl st)
      then show ?thesis
        using exit [OF s2] create m1 by (simp add: RequestTarget_RequestCreateAndSend_def Let_def)
    next
      case (Inr q)
      then obtain m2 s3 where m2: "memory_for (ResponseLength a) (WdfMemoryCreatePreallocated_response w) r s2 = Inr (m2, s3)"
        by (cases q) auto
      have s3: "R ?s1 s3"
        using s2 R_memory [OF m2] by (rule R_trans)
      obtain st s4 where f: "RequestTarget_FormatRequestForRequestType w r (RequestType a) m1 m2 s3 = (st, s4)"
        by (cases "RequestTarget_FormatRequestForRequestType w r (RequestType a) m1 m2 s3") auto
      have s4: "R ?s1 s4"
        using s3 R_format [OF f] by (rule R_trans)
      show ?thesis
      proof (cases "NT_SUCCESS st")
        case False
        then show ?thesis
          using exit [OF s4] create m1 m2 f by (simp add: RequestTarget_RequestCreateAndSend_def Let_def)
      next
        case fmt: True
        show ?thesis
        proof (cases "RequestTarget_RequestCreateAndSend_prepare w sync a opt wc r s4")
          case (Inl e)
          then obtain st' s5 where p: "RequestTarget_RequestCreateAndSend_prepare w sync a opt wc r s4 = Inl (st', s5)"
            by (cases e) auto
          from exit_prepare [OF s4 p] show ?thesis
            using create m1 m2 f fmt p by (simp add: RequestTarget_RequestCreateAndSend_def Let_def)
        next
          case (Inr e)
          then obtain d s5 where p: "RequestTarget_RequestCreateAndSend_prepare w sync a opt wc r s4 = Inr (d, s5)"
            by (cases e) auto
          from send [OF s4 p] show ?thesis
            using create m1 m2 f fmt p by (simp add: RequestTarget_RequestCreateAndSend_def Let_def)
        qed
      qed
    qed
  qed
qed

lemma CreateAndSend_evolves:
  "evolves d s (snd (RequestTarget_RequestCreateAndSend w sync a opt wbw wc s))"
proof (cases "WdfRequestCreate_result w")
  case (Pair st0 r)
  show ?thesis
  proof (cases "NT_SUCCESS st0")
    case False
    with Pair show ?thesis
      by (simp add: RequestTarget_RequestCreateAndSend_def)
  next
    case True
    let ?P = "\<lambda>res. evolves d (WdfRequestCreate r s) (snd res)"
    have "?P (RequestTarget_RequestCreateAndSend w sync a opt wbw wc s)"
    proof (rule CreateAndSend_paths [where R = "evolves d" and P = ?P, OF _ _ _ _ Pair True])
      show "\<And>x y z. evolves d x y \<Longrightarrow> evolves d y z \<Longrightarrow> evolves d x z"
        by (rule evolves_trans)
      show "?P (RequestTarget_RequestCreateAndSend_send w sync wbw wc r c x)"
        if "evolves d (WdfRequestCreate r s) x0"
          and "RequestTarget_RequestCreateAndSend_prepare w sync a opt wc r x0 = Inr (c, x)"
        for c x0 x
        using that by (meson evolves_trans CreateAndSend_prepare_evolves CreateAndSend_send_evolves)
      show "?P (RequestTarget_RequestCreateAndSend_Exit sync r wbw 0 st None x)"
        if "evolves d (WdfRequestCreate r s) x0"
          and "RequestTarget_RequestCreateAndSend_prepare w sync a opt wc r x0 = Inl (st, x)"
        for st x0 x
        using that by (meson evolves_trans CreateAndSend_prepare_evolves CreateAndSend_Exit_evolves)
    qed (auto intro: evolves_trans memory_for_evolves Format_evolves CreateAndSend_prepare_evolves
           CreateAndSend_Exit_evolves)
    with WdfRequestCreate_evolves show ?thesis
      by (rule evolves_trans)
  qed
qed



lemma SendReuse_evolves:
  "evolves d s (snd (RequestTarget_RequestSendReuse w c sync a opt wbw wc s))"
proof -
  obtain found r s1 where search: "RequestTarget_PendingCollectionReuseListSearch c s = (found, r, s1)"
    by (metis prod_cases3)
  have s1: "evolves d s s1"
    using ReuseListSearch_evolves [of d s c] by (simp add: search)
  show ?thesis
  proof (cases found)
    case False
    have "evolves d s1 (snd (RequestTarget_RequestSendReuse w c sync a opt wbw wc s))"
      using False by (simp add: RequestTarget_RequestSendReuse_def search SendReuse_Exit_evolves)
    with s1 show ?thesis
      by (rule evolves_trans)
  next
    case True
    with search have search': "RequestTarget_PendingCollectionReuseListSearch c s = (True, r, s1)"
      by simp
    let ?P = "\<lambda>res. evolves d s1 (snd res)"
    have "?P (RequestTarget_RequestSendReuse w c sync a opt wbw wc s)"
    proof (rule SendReuse_paths [where R = "evolves d" and P = ?P, OF _ _ _ _ search'])
      show "\<And>x y z. evolves d x y \<Longrightarrow> evolves d y z \<Longrightarrow> evolves d x z"
        by (rule evolves_trans)
      show "?P (RequestTarget_RequestSendReuse_send w sync wbw wc r m1 m2 c' x)"
        if "evolves d s1 x0"
          and "RequestTarget_RequestSendReuse_prepare w sync a opt wc r x0 = Inr (c', x)"
        for m1 m2 c' x0 x
        using that by (meson evolves_trans SendReuse_prepare_evolves SendReuse_send_evolves)
      show "?P (RequestTarget_RequestSendReuse_Exit True r m1 m2 wbw 0 st None x)"
        if "evolves d s1 x0"
          and "RequestTarget_RequestSendReuse_prepare w sync a opt wc r x0 = Inl (st, x)"
        for m1 m2 st x0 x
        using that by (meson evolves_trans SendReuse_prepare_evolves SendReuse_Exit_evolves)
    qed (auto intro: evolves_trans memory_for_evolves Format_evolves SendReuse_prepare_evolves
           SendReuse_Exit_evolves record_call_evolves)
    with s1 show ?thesis
      by (rule evolves_trans)
  qed
qed

lemma ReuseSend_evolves: "evolves d s (snd (DMF_RequestTarget_ReuseSend w c a wc s))"
proof -
  let ?s1 = "snd (DMF_ModuleReference w s)"
  let ?s2 = "snd (RequestTarget_RequestSendReuse w c False a (completionOption_of w) False wc ?s1)"
  have a: "evolves d s ?s2"
    using DMF_ModuleReference_evolves SendReuse_evolves by (rule evolves_trans)
  have b: "evolves d s (DMF_ModuleDereference ?s2)"
    using a DMF_ModuleDereference_evolves by (rule evolves_trans)
  show ?thesis
    using a b DMF_ModuleReference_evolves [of d s w]
    by (auto simp: DMF_RequestTarget_ReuseSend_def Let_def case_prod_beta)
qed

lemma Send_evolves: "evolves d s (snd (DMF_RequestTarget_Send w a s))"
proof -
  let ?s1 = "snd (DMF_ModuleReference w s)"
  let ?s2 = "snd (RequestTarget_RequestCreateAndSend w False a (completionOption_of w) False False ?s1)"
  have a: "evolves d s ?s2"
    using DMF_ModuleReference_evolves CreateAndSend_evolves by (rule evolves_trans)
  have b: "evolves d s (DMF_ModuleDereference ?s2)"
    using a DMF_ModuleDereference_evolves by (rule evolves_trans)
  show ?thesis
    using a b DMF_ModuleReference_evolves [of d s w]
    by (auto simp: DMF_RequestTarget_Send_def Let_def case_prod_beta)
qed

lemma SendEx_evolves: "evolves d s (snd (DMF_RequestTarget_SendEx w a wc s))"
proof -
  let ?s1 = "snd (DMF_ModuleReference w s)"
  let ?s2 = "snd (RequestTarget_RequestCreateAndSend w False a (completionOption_of w) False wc ?s1)"
  have a: "evolves d s ?s2"
    using DMF_ModuleReference_evolves CreateAndSend_evolves by (rule evolves_trans)
  have b: "evolves d s (DMF_ModuleDereference ?s2)"
    using a DMF_ModuleDereference_evolves by (rule evolves_trans)
  show ?thesis
    using a b DMF_ModuleReference_evolves [of d s w]
    by (auto simp: DMF_RequestTarget_SendEx_def Let_def case_prod_beta)
qed

lemma SendSynchronously_evolves: "evolves d s (snd (DMF_RequestTarget_SendSynchronously w a wbw s))"
proof -
  let ?s1 = "snd (DMF_ModuleReference w s)"
  let ?s2 = "snd (RequestTarget_RequestCreateAndSend w True
                    (a\<lparr>EvtSendCompletion := NULL, SendCompletionClientContext := NULL\<rparr>)
                    CompletionOptions_Default wbw False ?s1)"
  have a: "evolves d s ?s2"
    using DMF_ModuleReference_evolves CreateAndSend_evolves by (rule evolves_trans)
  have b: "evolves d s (DMF_ModuleDereference ?s2)"
    using a DMF_ModuleDereference_evolves by (rule evolves_trans)
  show ?thesis
    using a b DMF_ModuleReference_evolves [of d s w]
    by (auto simp: DMF_RequestTarget_SendSynchronously_def Let_def case_prod_beta)
qed

lemma Cancel_evolves: "evolves d s (snd (DMF_RequestTarget_Cancel w c s))"
  by (simp add: DMF_RequestTarget_Cancel_def
        RequestTarget_PendingCollectionListSearchAndReference_def evolves_simps)

lemma IoTarget_evolves:
  "evolves d s (DMF_RequestTarget_IoTargetSet w t s)"
  "evolves d s (DMF_RequestTarget_IoTargetClear w s)"
  by (simp_all add: DMF_RequestTarget_IoTargetSet_def DMF_RequestTarget_IoTargetClear_def evolves_simps)

lemma ReuseCreate_evolves: "evolves d s (snd (DMF_RequestTarget_ReuseCreate w s))"
  by (simp add: DMF_RequestTarget_ReuseCreate_def evolves_simps)

lemma ReuseDelete_evolves: "evolves True s (snd (DMF_RequestTarget_ReuseDelete c s))"
  by (simp add: DMF_RequestTarget_ReuseDelete_def
        RequestTarget_PendingCollectionReuseListSearch_def evolves_simps)

lemma call_method_evolves: "evolves (deletes m) s (call_method m s)"
  by (cases m)
     (simp_all add: Send_evolves SendEx_evolves SendSynchronously_evolves ReuseCreate_evolves
        ReuseSend_evolves ReuseDelete_evolves Cancel_evolves IoTarget_evolves)



lemma call_method_evolves':
  "d \<or> \<not> deletes m \<Longrightarrow> evolves d s (call_method m s)"
  using call_method_evolves [of m s] evolves_deleting [of s "call_method m s" d]
  by (cases d; cases "deletes m") auto

lemma fold_call_method_evolves:
  "d \<or> (\<forall>m \<in> set ms. \<not> deletes m) \<Longrightarrow> evolves d s (fold call_method ms s)"
proof (induction ms arbitrary: s)
  case Nil
  show ?case by simp
next
  case (Cons m ms)
  have "evolves d s (call_method m s)"
    using Cons.prems by (intro call_method_evolves') auto
  moreover have "evolves d (call_method m s) (fold call_method ms (call_method m s))"
    using Cons.prems by (intro Cons.IH) auto
  ultimately show ?case
    by (simp add: evolves_trans)
qed

lemma scripted_client_evolves:
  "d \<or> (\<forall>f arguments. \<forall>m \<in> set (script f arguments). \<not> deletes m) \<Longrightarrow>
   evolves d s (scripted_client script f arguments s)"
  unfolding scripted_client_def by (rule fold_call_method_evolves) auto

lemma Root_evolves:
  assumes client: "\<And>f arguments x. evolves d x (client f arguments x)"
  shows "evolves d s (RequestTarget_ProcessAsynchronousRequestRoot client w r ctx reuse s)"
proof -
  let ?s2 = "(if reuse then UniqueRequestContext_update r (\<lambda>u. u\<lparr>RequestInUse := False\<rparr>) else id)
               (snd (RequestTarget_PendingCollectionListSearchAndRemove r (PendingAsynchronousRequests s) s))"
  have a: "evolves d s ?s2"
    by (simp add: evolves_simps)
  have b: "evolves d x (DMF_ModuleDereference
             ((if \<not> reuse then WdfObjectDelete_request r else id) (DMF_BufferPool_Put ctx x)))" for x
    by (simp add: evolves_simps)
  show ?thesis
    unfolding RequestTarget_ProcessAsynchronousRequestRoot_def Let_def case_prod_beta
    using evolves_trans [OF a b] evolves_trans [OF evolves_trans [OF a client] b]
    by (auto simp: primitive_defs split: if_splits)
qed

lemma occur_evolves:
  assumes "d \<or> never_deletes script [e]"
  shows "evolves d s (occur script e s)"
proof -
  have client: "\<And>f arguments x. evolves d x (scripted_client script f arguments x)"
    using assms by (intro scripted_client_evolves) (auto simp: never_deletes_def)
  show ?thesis
  proof (cases e)
    case (Client_calls m)
    then show ?thesis
      using assms by (auto simp: never_deletes_def intro: call_method_evolves')
  next
    case (Target_completes w routine r params ctx)
    then show ?thesis
      by (cases routine)
         (simp_all add: RequestTarget_CompletionRoutine_def RequestTarget_CompletionRoutineReuse_def
            RequestTarget_ProcessAsynchronousRequestSingle_def
            RequestTarget_ProcessAsynchronousRequestSingleReuse_def
            RequestTarget_CompletionRoutinePassive_def RequestTarget_CompletionRoutinePassiveReuse_def
            DMF_QueuedWorkItem_Enqueue_def Root_evolves client, simp_all add: evolves_simps)
  next
    case (Workitem_runs w)
    have q: "evolves d s (s\<lparr>QueuedWorkitems := q\<rparr>)" for q
      by (simp add: evolves_simps)
    show ?thesis
      using Workitem_runs
      by (auto simp: RequestTarget_QueuedWorkitemCallbackSingle_def
            RequestTarget_ProcessAsynchronousRequestSingle_def
            RequestTarget_ProcessAsynchronousRequestSingleReuse_def
            split: list.splits intro: evolves_trans [OF q Root_evolves] client)
  next
    case Other_Module_increments
    then show ?thesis
      by (simp add: InterlockedIncrement64_evolves)
  qed
qed

lemma history_evolves:
  "d \<or> never_deletes script events \<Longrightarrow> evolves d s (history script events s)"
proof (induction events arbitrary: s)
  case Nil
  show ?case by (simp add: history_def)
next
  case (Cons e es)
  have "evolves d s (occur script e s)"
    using Cons.prems by (intro occur_evolves) (auto simp: never_deletes_def)
  moreover have "evolves d (occur script e s) (history script es (occur script e s))"
    using Cons.prems by (intro Cons.IH) (auto simp: never_deletes_def)
  ultimately show ?case
    by (simp add: history_def evolves_trans)
qed

lemma distinct_consecutive:
  assumes "n < 2 ^ 64"
  shows "distinct (map (\<lambda>k. (c::64 word) + of_nat k) [1..<Suc n])"
proof -
  have "inj_on (\<lambda>k. c + (of_nat k :: 64 word)) (set [1..<Suc n])"
  proof (rule inj_onI)
    fix a b
    assume a: "a \<in> set [1..<Suc n]" and b: "b \<in> set [1..<Suc n]"
      and "c + (of_nat a :: 64 word) = c + of_nat b"
    then have "(of_nat a :: 64 word) = of_nat b"
      by simp
    then have "unat (of_nat a :: 64 word) = unat (of_nat b :: 64 word)"
      by simp
    moreover from a b assms have "a < 2 ^ 64" "b < 2 ^ 64"
      by auto
    ultimately show "a = b"
      by (simp add: unat_of_nat)
  qed
  then show ?thesis
    by (simp add: distinct_map)
qed


section \<open>The identifiers a send and a create hand out\<close>


lemma extends_quiet:
  "extends (\<lambda>c. drawn c = []) s s' \<Longrightarrow>
   prefix (Calls s) (Calls s') \<and> issued (new_calls s s') = []"
  by (auto simp: extends_def new_calls_def issued_def list_all_iff)

lemma memory_for_quiet:
  "memory_for n res r s = Inr (m, s') \<Longrightarrow> extends (\<lambda>c. drawn c = []) s s'"
  by (auto simp: extends_def primitive_defs Let_def case_prod_beta split: if_splits)

lemma Format_quiet:
  "RequestTarget_FormatRequestForRequestType w r t m1 m2 s = (st, s') \<Longrightarrow>
   extends (\<lambda>c. drawn c = []) s s'"
  by (auto simp: extends_def primitive_defs split: ContinuousRequestTarget_RequestType.splits)

lemma SendReuse_prepare_draws:
  "RequestTarget_RequestSendReuse_prepare w sync a opt wc r s = Inr (d, s') \<Longrightarrow>
   prefix (Calls s) (Calls s') \<and> issued (new_calls s s') = (if wc \<and> \<not> sync then [d] else [])"
  by (auto simp: RequestTarget_RequestSendReuse_prepare_def new_calls_def
        primitive_defs Let_def case_prod_beta split: if_splits option.splits)

lemma CreateAndSend_prepare_draws:
  "RequestTarget_RequestCreateAndSend_prepare w sync a opt wc r s = Inr (d, s') \<Longrightarrow>
   prefix (Calls s) (Calls s') \<and> issued (new_calls s s') = (if wc \<and> \<not> sync then [d] else [])"
  by (auto simp: RequestTarget_RequestCreateAndSend_prepare_def new_calls_def
        primitive_defs Let_def case_prod_beta split: if_splits option.splits)

lemma SendReuse_send_quiet:
  "prefix (Calls s) (Calls (snd (RequestTarget_RequestSendReuse_send w sync wbw wc r m1 m2 d s)))
   \<and> issued (new_calls s (snd (RequestTarget_RequestSendReuse_send w sync wbw wc r m1 m2 d s))) = []"
  by (simp add: RequestTarget_RequestSendReuse_send_def RequestTarget_RequestSendReuse_Exit_def
        new_calls_def primitive_defs Let_def case_prod_beta)

lemma CreateAndSend_send_quiet:
  "prefix (Calls s) (Calls (snd (RequestTarget_RequestCreateAndSend_send w sync wbw wc r d s)))
   \<and> issued (new_calls s (snd (RequestTarget_RequestCreateAndSend_send w sync wbw wc r d s))) = []"
  by (simp add: RequestTarget_RequestCreateAndSend_send_def RequestTarget_RequestCreateAndSend_Exit_def
        new_calls_def primitive_defs Let_def case_prod_beta)

lemma SendReuse_send_written:
  "snd (snd (fst (RequestTarget_RequestSendReuse_send w sync wbw wc r m1 m2 d s))) = Some tok \<Longrightarrow>
   wc \<and> \<not> sync \<and> tok = d"
  by (auto simp: RequestTarget_RequestSendReuse_send_def RequestTarget_RequestSendReuse_Exit_def
        Let_def split: if_splits)

lemma CreateAndSend_send_written:
  "snd (snd (fst (RequestTarget_RequestCreateAndSend_send w sync wbw wc r d s))) = Some tok \<Longrightarrow>
   wc \<and> \<not> sync \<and> tok = d"
  by (auto simp: RequestTarget_RequestCreateAndSend_send_def RequestTarget_RequestCreateAndSend_Exit_def
        Let_def split: if_splits)

lemma issued_after:
  assumes "extends (\<lambda>c. drawn c = []) s x0"
    and "prefix (Calls x0) (Calls x) \<and> issued (new_calls x0 x) = ds"
    and "prefix (Calls x) (Calls s') \<and> issued (new_calls x s') = []"
  shows "issued (new_calls s s') = ds"
proof -
  from assms(1) have a: "prefix (Calls s) (Calls x0)" "issued (new_calls s x0) = []"
    using extends_quiet by blast+
  from a(1) assms(2) have b: "prefix (Calls s) (Calls x)"
    by (meson prefix_order.trans)
  have "new_calls s s' = new_calls s x @ new_calls x s'"
    using b assms(3) by (intro new_calls_append) simp_all
  moreover have "new_calls s x = new_calls s x0 @ new_calls x0 x"
    using a(1) assms(2) by (intro new_calls_append) simp_all
  ultimately show ?thesis
    using a(2) assms by simp
qed

lemma SendReuse_written:
  assumes "snd (snd (fst (RequestTarget_RequestSendReuse w c sync a opt wbw wc s))) = Some tok"
  shows "issued (new_calls s (snd (RequestTarget_RequestSendReuse w c sync a opt wbw wc s))) = [tok]"
proof -
  obtain found r s1 where search: "RequestTarget_PendingCollectionReuseListSearch c s = (found, r, s1)"
    by (metis prod_cases3)
  have calls1: "Calls s1 = Calls s"
    using search by (auto simp: RequestTarget_PendingCollectionReuseListSearch_def case_prod_beta)
  show ?thesis
  proof (cases found)
    case False
    with assms search show ?thesis
      by (simp add: RequestTarget_RequestSendReuse_def RequestTarget_RequestSendReuse_Exit_def)
  next
    case True
    with search have search': "RequestTarget_PendingCollectionReuseListSearch c s = (True, r, s1)"
      by simp
    let ?R = "extends (\<lambda>c. drawn c = [])"
    let ?P = "\<lambda>res. snd (snd (fst res)) = Some tok \<longrightarrow> issued (new_calls s1 (snd res)) = [tok]"
    have "?P (RequestTarget_RequestSendReuse w c sync a opt wbw wc s)"
    proof (rule SendReuse_paths [where R = ?R and P = ?P, OF _ _ _ _ search'])
      show "\<And>x y z. ?R x y \<Longrightarrow> ?R y z \<Longrightarrow> ?R x z"
        by (rule extends_trans)
      show "\<And>x. ?R x (record_call (Call_WdfRequestReuse r) x)"
        by (simp add: record_call_extends)
      show "\<And>n res x m y. memory_for n res r x = Inr (m, y) \<Longrightarrow> ?R x y"
        by (rule memory_for_quiet)
      show "\<And>t m1 m2 x st y.
          RequestTarget_FormatRequestForRequestType w r t m1 m2 x = (st, y) \<Longrightarrow> ?R x y"
        by (rule Format_quiet)
      show "\<And>m1 m2 st x0 x. ?R s1 x0 \<Longrightarrow>
          RequestTarget_RequestSendReuse_prepare w sync a opt wc r x0 = Inl (st, x) \<Longrightarrow>
          ?P (RequestTarget_RequestSendReuse_Exit True r m1 m2 wbw 0 st None x)"
        by (simp add: RequestTarget_RequestSendReuse_Exit_def)
      show "\<And>m1 m2 st x. ?R s1 x \<Longrightarrow>
          ?P (RequestTarget_RequestSendReuse_Exit True r m1 m2 wbw 0 st None x)"
        by (simp add: RequestTarget_RequestSendReuse_Exit_def)
      show "?P (RequestTarget_RequestSendReuse_send w sync wbw wc r m1 m2 d x)"
        if R0: "?R s1 x0"
          and p: "RequestTarget_RequestSendReuse_prepare w sync a opt wc r x0 = Inr (d, x)"
        for m1 m2 d x0 x
      proof
        assume "snd (snd (fst (RequestTarget_RequestSendReuse_send w sync wbw wc r m1 m2 d x))) = Some tok"
        then have "wc \<and> \<not> sync \<and> tok = d"
          by (rule SendReuse_send_written)
        with SendReuse_prepare_draws [OF p]
        have "prefix (Calls x0) (Calls x) \<and> issued (new_calls x0 x) = [tok]"
          by simp
        with R0 show "issued (new_calls s1 (snd (RequestTarget_RequestSendReuse_send w sync wbw wc r m1 m2 d x))) = [tok]"
          using SendReuse_send_quiet by (rule issued_after)
      qed
    qed
    with assms show ?thesis
      by (simp add: new_calls_def calls1)
  qed
qed

lemma CreateAndSend_written:
  assumes "snd (snd (fst (RequestTarget_RequestCreateAndSend w sync a opt wbw wc s))) = Some tok"
  shows "issued (new_calls s (snd (RequestTarget_RequestCreateAndSend w sync a opt wbw wc s))) = [tok]"
proof (cases "WdfRequestCreate_result w")
  case (Pair st0 r)
  show ?thesis
  proof (cases "NT_SUCCESS st0")
    case False
    with Pair assms show ?thesis
      by (simp add: RequestTarget_RequestCreateAndSend_def)
  next
    case True
    let ?s1 = "WdfRequestCreate r s"
    let ?R = "extends (\<lambda>c. drawn c = [])"
    let ?P = "\<lambda>res. snd (snd (fst res)) = Some tok \<longrightarrow> issued (new_calls ?s1 (snd res)) = [tok]"
    have s1: "?R s ?s1"
      by (simp add: extends_def primitive_defs)
    have "?P (RequestTarget_RequestCreateAndSend w sync a opt wbw wc s)"
    proof (rule CreateAndSend_paths [where R = ?R and P = ?P, OF _ _ _ _ Pair True])
      show "\<And>x. ?R x x"
        by simp
      show "\<And>x y z. ?R x y \<Longrightarrow> ?R y z \<Longrightarrow> ?R x z"
        by (rule extends_trans)
      show "\<And>n res x m y. memory_for n res r x = Inr (m, y) \<Longrightarrow> ?R x y"
        by (rule memory_for_quiet)
      show "\<And>t m1 m2 x st y.
          RequestTarget_FormatRequestForRequestType w r t m1 m2 x = (st, y) \<Longrightarrow> ?R x y"
        by (rule Format_quiet)
      show "\<And>st x0 x. ?R ?s1 x0 \<Longrightarrow>
          RequestTarget_RequestCreateAndSend_prepare w sync a opt wc r x0 = Inl (st, x) \<Longrightarrow>
          ?P (RequestTarget_RequestCreateAndSend_Exit sync r wbw 0 st None x)"
        by (simp add: RequestTarget_RequestCreateAndSend_Exit_def)
      show "\<And>st x. ?R ?s1 x \<Longrightarrow>
          ?P (RequestTarget_RequestCreateAndSend_Exit sync r wbw 0 st None x)"
        by (simp add: RequestTarget_RequestCreateAndSend_Exit_def)
      show "?P (RequestTarget_RequestCreateAndSend_send w sync wbw wc r d x)"
        if R0: "?R ?s1 x0"
          and p: "RequestTarget_RequestCreateAndSend_prepare w sync a opt wc r x0 = Inr (d, x)"
        for d x0 x
      proof
        assume "snd (snd (fst (RequestTarget_RequestCreateAndSend_send w sync wbw wc r d x))) = Some tok"
        then have "wc \<and> \<not> sync \<and> tok = d"
          by (rule CreateAndSend_send_written)
        with CreateAndSend_prepare_draws [OF p]
        have "prefix (Calls x0) (Calls x) \<and> issued (new_calls x0 x) = [tok]"
          by simp
        with R0 show "issued (new_calls ?s1 (snd (RequestTarget_RequestCreateAndSend_send w sync wbw wc r d x))) = [tok]"
          using CreateAndSend_send_quiet by (rule issued_after)
      qed
    qed
    with assms have a: "issued (new_calls ?s1 (snd (RequestTarget_RequestCreateAndSend w sync a opt wbw wc s))) = [tok]"
      by simp
    have "Calls ?s1 = Calls s @ [Call_WdfRequestCreate r]"
      by (simp add: primitive_defs)
    moreover have "prefix (Calls ?s1) (Calls (snd (RequestTarget_RequestCreateAndSend w sync a opt wbw wc s)))"
    proof -
      let ?Q = "\<lambda>res. evolves True ?s1 (snd res)"
      have "?Q (RequestTarget_RequestCreateAndSend w sync a opt wbw wc s)"
      proof (rule CreateAndSend_paths [where R = "evolves True" and P = ?Q, OF _ _ _ _ Pair True])
        show "\<And>x y z. evolves True x y \<Longrightarrow> evolves True y z \<Longrightarrow> evolves True x z"
          by (rule evolves_trans)
        show "?Q (RequestTarget_RequestCreateAndSend_send w sync wbw wc r c x)"
          if "evolves True ?s1 x0"
            and "RequestTarget_RequestCreateAndSend_prepare w sync a opt wc r x0 = Inr (c, x)"
          for c x0 x
          using that by (meson evolves_trans CreateAndSend_prepare_evolves CreateAndSend_send_evolves)
        show "?Q (RequestTarget_RequestCreateAndSend_Exit sync r wbw 0 st None x)"
          if "evolves True ?s1 x0"
            and "RequestTarget_RequestCreateAndSend_prepare w sync a opt wc r x0 = Inl (st, x)"
          for st x0 x
          using that by (meson evolves_trans CreateAndSend_prepare_evolves CreateAndSend_Exit_evolves)
      qed (auto intro: evolves_trans memory_for_evolves Format_evolves CreateAndSend_Exit_evolves)
      then show ?thesis
        by (simp add: evolves_def)
    qed
    ultimately show ?thesis
      using a by (auto simp: new_calls_def prefix_def issued_def)
  qed
qed



lemma SendEx_written:
  assumes "snd (snd (fst (DMF_RequestTarget_SendEx w a wc s))) = Some tok"
  shows "issued (new_calls s (snd (DMF_RequestTarget_SendEx w a wc s))) = [tok]"
proof -
  let ?s1 = "s\<lparr>ModuleReferences := ModuleReferences s + 1\<rparr>"
  let ?X = "RequestTarget_RequestCreateAndSend w False a (completionOption_of w) False wc ?s1"
  from assms have ok: "NT_SUCCESS (DMF_ModuleReference_result w)"
    by (auto simp: DMF_RequestTarget_SendEx_def DMF_ModuleReference_def Let_def split: if_splits)
  with assms have "snd (snd (fst ?X)) = Some tok"
    by (auto simp: DMF_RequestTarget_SendEx_def DMF_ModuleReference_def Let_def case_prod_beta
          split: if_splits)
  then have "issued (new_calls ?s1 (snd ?X)) = [tok]"
    by (rule CreateAndSend_written)
  then show ?thesis
    using ok
    by (auto simp: DMF_RequestTarget_SendEx_def DMF_ModuleReference_def DMF_ModuleDereference_def
          Let_def case_prod_beta new_calls_def)
qed

lemma ReuseSend_written:
  assumes "snd (snd (fst (DMF_RequestTarget_ReuseSend w c a wc s))) = Some tok"
  shows "issued (new_calls s (snd (DMF_RequestTarget_ReuseSend w c a wc s))) = [tok]"
proof -
  let ?s1 = "s\<lparr>ModuleReferences := ModuleReferences s + 1\<rparr>"
  let ?X = "RequestTarget_RequestSendReuse w c False a (completionOption_of w) False wc ?s1"
  from assms have ok: "NT_SUCCESS (DMF_ModuleReference_result w)"
    by (auto simp: DMF_RequestTarget_ReuseSend_def DMF_ModuleReference_def Let_def split: if_splits)
  with assms have "snd (snd (fst ?X)) = Some tok"
    by (auto simp: DMF_RequestTarget_ReuseSend_def DMF_ModuleReference_def Let_def case_prod_beta
          split: if_splits)
  then have "issued (new_calls ?s1 (snd ?X)) = [tok]"
    by (rule SendReuse_written)
  then show ?thesis
    using ok
    by (auto simp: DMF_RequestTarget_ReuseSend_def DMF_ModuleReference_def DMF_ModuleDereference_def
          Let_def case_prod_beta new_calls_def)
qed

lemma ReuseCreate_written:
  assumes "NT_SUCCESS (fst (fst (DMF_RequestTarget_ReuseCreate w s)))"
  shows "issued (new_calls s (snd (DMF_RequestTarget_ReuseCreate w s))) =
           [snd (fst (DMF_RequestTarget_ReuseCreate w s))]"
  using assms
  by (auto simp: DMF_RequestTarget_ReuseCreate_def new_calls_def primitive_defs Let_def
        case_prod_beta split: if_splits)



lemma history_append:
  "history script (xs @ ys) s = history script ys (history script xs s)"
  by (simp add: history_def)

lemma rounds_Suc:
  "rounds (Suc m) = rounds m @ [Client_calls (Method_ReuseCreate example_framework),
                                 Client_calls (Method_ReuseDelete (of_nat (Suc m)))]"
  by (simp add: rounds_def)

lemma round_step:
  assumes "PendingAsynchronousRequests s = 1" "PendingReuseRequests s = 2" "ReuseSet s = []"
  shows "PendingAsynchronousRequests
           (history script [Client_calls (Method_ReuseCreate example_framework),
                            Client_calls (Method_ReuseDelete (g_ContinuousRequestTargetUniqueId s + 1))] s) = 1
       \<and> PendingReuseRequests
           (history script [Client_calls (Method_ReuseCreate example_framework),
                            Client_calls (Method_ReuseDelete (g_ContinuousRequestTargetUniqueId s + 1))] s) = 2
       \<and> ReuseSet
           (history script [Client_calls (Method_ReuseCreate example_framework),
                            Client_calls (Method_ReuseDelete (g_ContinuousRequestTargetUniqueId s + 1))] s) = []
       \<and> g_ContinuousRequestTargetUniqueId
           (history script [Client_calls (Method_ReuseCreate example_framework),
                            Client_calls (Method_ReuseDelete (g_ContinuousRequestTargetUniqueId s + 1))] s) =
           g_ContinuousRequestTargetUniqueId s + 1
       \<and> issued (Calls
           (history script [Client_calls (Method_ReuseCreate example_framework),
                            Client_calls (Method_ReuseDelete (g_ContinuousRequestTargetUniqueId s + 1))] s)) =
           issued (Calls s) @ [g_ContinuousRequestTargetUniqueId s + 1]"
  using assms
  by (simp add: history_def DMF_RequestTarget_ReuseCreate_def
        DMF_RequestTarget_ReuseDelete_def RequestTarget_PendingCollectionReuseListSearch_def
        ReuseListSearch_loop_find SearchAndRemove_loop_remove1
        primitive_defs example_framework_def Let_def)

lemma rounds_history:
  "PendingAsynchronousRequests (history script (rounds m) example_Module) = 1
   \<and> PendingReuseRequests (history script (rounds m) example_Module) = 2
   \<and> ReuseSet (history script (rounds m) example_Module) = []
   \<and> g_ContinuousRequestTargetUniqueId (history script (rounds m) example_Module) = of_nat m
   \<and> issued (Calls (history script (rounds m) example_Module)) = map of_nat [1..<Suc m]"
proof (induction m)
  case 0
  show ?case
    by (simp add: rounds_def history_def example_Module_def)
next
  case (Suc m)
  let ?s = "history script (rounds m) example_Module"
  let ?t = "history script [Client_calls (Method_ReuseCreate example_framework),
              Client_calls (Method_ReuseDelete (g_ContinuousRequestTargetUniqueId ?s + 1))] ?s"
  from Suc have h: "PendingAsynchronousRequests ?s = 1" "PendingReuseRequests ?s = 2" "ReuseSet ?s = []"
    and g: "g_ContinuousRequestTargetUniqueId ?s = of_nat m"
    and i: "issued (Calls ?s) = map of_nat [1..<Suc m]"
    by blast+
  have t: "history script (rounds (Suc m)) example_Module = ?t"
    unfolding rounds_Suc history_append by (simp add: g add.commute)
  note r = round_step [OF h, of script]
  have "g_ContinuousRequestTargetUniqueId ?t = of_nat (Suc m)"
    using r g by simp
  moreover have "issued (Calls ?t) = map of_nat [1..<Suc (Suc m)]"
  proof -
    have "issued (Calls ?t) = map of_nat [1..<Suc m] @ [of_nat m + 1]"
      using r i g by simp
    also have "\<dots> = map of_nat [1..<Suc (Suc m)]"
      by simp
    finally show ?thesis .
  qed
  ultimately show ?case
    unfolding t using r by blast
qed


section \<open>The completion dispatcher, around the client's callback\<close>

lemma Root_callback:
  "RequestTarget_ProcessAsynchronousRequestRoot client w request ctx reuseRequest s =
     DMF_ModuleDereference
       ((if reuseRequest then id else WdfObjectDelete_request request)
          (DMF_BufferPool_Put ctx
             (if EvtRequestTargetSingleAsynchronousRequest (BufferPoolContents s ctx) \<noteq> NULL
              then client (EvtRequestTargetSingleAsynchronousRequest (BufferPoolContents s ctx))
                      \<lparr>ClientContext = SingleAsynchronousCallbackClientContext (BufferPoolContents s ctx),
                       InputBuffer = fst (RequestTarget_CompletionParamsInputBufferAndOutputBufferGet
                          (WdfMemoryGetBuffer w) (WdfRequestGetCompletionParams_result w)
                          (SingleAsynchronousRequestType (BufferPoolContents s ctx))),
                       InputBufferSize = fst (snd (RequestTarget_CompletionParamsInputBufferAndOutputBufferGet
                          (WdfMemoryGetBuffer w) (WdfRequestGetCompletionParams_result w)
                          (SingleAsynchronousRequestType (BufferPoolContents s ctx)))),
                       OutputBuffer = fst (snd (snd (RequestTarget_CompletionParamsInputBufferAndOutputBufferGet
                          (WdfMemoryGetBuffer w) (WdfRequestGetCompletionParams_result w)
                          (SingleAsynchronousRequestType (BufferPoolContents s ctx))))),
                       OutputBufferSize = snd (snd (snd (RequestTarget_CompletionParamsInputBufferAndOutputBufferGet
                          (WdfMemoryGetBuffer w) (WdfRequestGetCompletionParams_result w)
                          (SingleAsynchronousRequestType (BufferPoolContents s ctx))))),
                       CompletionStatus = WdfRequestGetStatus_result w\<rparr>
                     ((if reuseRequest then UniqueRequestContext_update request (\<lambda>u. u\<lparr>RequestInUse := False\<rparr>) else id)
                        (snd (RequestTarget_PendingCollectionListSearchAndRemove request (PendingAsynchronousRequests s) s)))
              else (if reuseRequest then UniqueRequestContext_update request (\<lambda>u. u\<lparr>RequestInUse := False\<rparr>) else id)
                     (snd (RequestTarget_PendingCollectionListSearchAndRemove request (PendingAsynchronousRequests s) s)))))"
  by (simp add: RequestTarget_ProcessAsynchronousRequestRoot_def Let_def case_prod_beta
        RequestTarget_PendingCollectionListSearchAndRemove_def UniqueRequestContext_update_def)

lemma Root_before_callback:
  assumes "PendingAsynchronousRequests s \<noteq> PendingReuseRequests s"
  shows "ReuseSet ((if reuseRequest then UniqueRequestContext_update request (\<lambda>u. u\<lparr>RequestInUse := False\<rparr>) else id)
                 (snd (RequestTarget_PendingCollectionListSearchAndRemove request (PendingAsynchronousRequests s) s)))
          = ReuseSet s"
    and "Calls ((if reuseRequest then UniqueRequestContext_update request (\<lambda>u. u\<lparr>RequestInUse := False\<rparr>) else id)
                 (snd (RequestTarget_PendingCollectionListSearchAndRemove request (PendingAsynchronousRequests s) s)))
          = Calls s"
  using assms
  by (simp_all add: RequestTarget_PendingCollectionListSearchAndRemove_def UniqueRequestContext_update_def
        case_prod_beta)

lemma Root_after_callback:
  "ReuseSet (DMF_ModuleDereference
       ((if reuseRequest then id else WdfObjectDelete_request request) (DMF_BufferPool_Put ctx x))) = ReuseSet x"
  "Calls (DMF_ModuleDereference
       ((if reuseRequest then id else WdfObjectDelete_request request) (DMF_BufferPool_Put ctx x))) =
     Calls x @ (if reuseRequest then [] else [Call_WdfObjectDelete request])"
  by (simp_all add: primitive_defs)


lemma memory_for_installs:
  "memory_for n res r s = Inr (m, s') \<Longrightarrow> extends (\<lambda>c. set (installed c) \<subseteq> S) s s'"
  by (auto simp: extends_def primitive_defs Let_def case_prod_beta split: if_splits)

lemma Format_installs:
  "RequestTarget_FormatRequestForRequestType w r t m1 m2 s = (st, s') \<Longrightarrow>
   extends (\<lambda>c. set (installed c) \<subseteq> S) s s'"
  by (auto simp: extends_def primitive_defs split: ContinuousRequestTarget_RequestType.splits)

lemma SendReuse_prepare_installs:
  "RequestTarget_RequestSendReuse_prepare w sync a opt wc r s = Inl (st, s') \<Longrightarrow>
   extends (\<lambda>c. set (installed c) \<subseteq> {CompletionRoutineReuse, CompletionRoutinePassiveReuse}) s s'"
  "RequestTarget_RequestSendReuse_prepare w sync a opt wc r s = Inr (d, s') \<Longrightarrow>
   extends (\<lambda>c. set (installed c) \<subseteq> {CompletionRoutineReuse, CompletionRoutinePassiveReuse}) s s'"
  by (auto simp: RequestTarget_RequestSendReuse_prepare_def extends_def
        primitive_defs Let_def case_prod_beta split: if_splits option.splits)

lemma CreateAndSend_prepare_installs:
  "RequestTarget_RequestCreateAndSend_prepare w sync a opt wc r s = Inl (st, s') \<Longrightarrow>
   extends (\<lambda>c. set (installed c) \<subseteq> {CompletionRoutine, CompletionRoutinePassive}) s s'"
  "RequestTarget_RequestCreateAndSend_prepare w sync a opt wc r s = Inr (d, s') \<Longrightarrow>
   extends (\<lambda>c. set (installed c) \<subseteq> {CompletionRoutine, CompletionRoutinePassive}) s s'"
  by (auto simp: RequestTarget_RequestCreateAndSend_prepare_def extends_def
        primitive_defs Let_def case_prod_beta split: if_splits option.splits)

lemma SendReuse_Exit_installs:
  "extends (\<lambda>c. set (installed c) \<subseteq> S) s (snd (RequestTarget_RequestSendReuse_Exit ab r m1 m2 wbw n st co s))"
  by (simp add: RequestTarget_RequestSendReuse_Exit_def extends_def primitive_defs Let_def)

lemma CreateAndSend_Exit_installs:
  "extends (\<lambda>c. set (installed c) \<subseteq> S) s (snd (RequestTarget_RequestCreateAndSend_Exit sync r wbw n st co s))"
  by (simp add: RequestTarget_RequestCreateAndSend_Exit_def extends_def primitive_defs Let_def)

lemma SendReuse_send_installs:
  "extends (\<lambda>c. set (installed c) \<subseteq> S) s (snd (RequestTarget_RequestSendReuse_send w sync wbw wc r m1 m2 d s))"
  by (simp add: RequestTarget_RequestSendReuse_send_def RequestTarget_RequestSendReuse_Exit_def
        extends_def primitive_defs Let_def case_prod_beta)

lemma CreateAndSend_send_installs:
  "extends (\<lambda>c. set (installed c) \<subseteq> S) s (snd (RequestTarget_RequestCreateAndSend_send w sync wbw wc r d s))"
  by (simp add: RequestTarget_RequestCreateAndSend_send_def RequestTarget_RequestCreateAndSend_Exit_def
        extends_def primitive_defs Let_def case_prod_beta)

lemma extends_same_calls:
  "Calls s1 = Calls s \<Longrightarrow> extends P s1 x \<Longrightarrow> extends P s x"
  by (simp add: extends_def)

lemma extends_same_calls':
  "Calls s1 = Calls x \<Longrightarrow> extends P s x \<Longrightarrow> extends P s s1"
  by (simp add: extends_def)

lemma SendReuse_installs:
  "extends (\<lambda>c. set (installed c) \<subseteq> {CompletionRoutineReuse, CompletionRoutinePassiveReuse}) s
     (snd (RequestTarget_RequestSendReuse w c sync a opt wbw wc s))"
proof -
  let ?R = "extends (\<lambda>c. set (installed c) \<subseteq> {CompletionRoutineReuse, CompletionRoutinePassiveReuse})"
  obtain found r s1 where search: "RequestTarget_PendingCollectionReuseListSearch c s = (found, r, s1)"
    by (metis prod_cases3)
  have calls1: "Calls s1 = Calls s"
    using search by (auto simp: RequestTarget_PendingCollectionReuseListSearch_def case_prod_beta)
  show ?thesis
  proof (cases found)
    case False
    have "?R s1 (snd (RequestTarget_RequestSendReuse w c sync a opt wbw wc s))"
      using False by (simp add: RequestTarget_RequestSendReuse_def search SendReuse_Exit_installs)
    with calls1 show ?thesis
      by (rule extends_same_calls)
  next
    case True
    with search have search': "RequestTarget_PendingCollectionReuseListSearch c s = (True, r, s1)"
      by simp
    let ?P = "\<lambda>res. ?R s1 (snd res)"
    have "?P (RequestTarget_RequestSendReuse w c sync a opt wbw wc s)"
    proof (rule SendReuse_paths [where R = ?R and P = ?P, OF _ _ _ _ search'])
      show "\<And>x y z. ?R x y \<Longrightarrow> ?R y z \<Longrightarrow> ?R x z"
        by (rule extends_trans)
      show "\<And>x. ?R x (record_call (Call_WdfRequestReuse r) x)"
        by (simp add: record_call_extends)
      show "\<And>n res x m y. memory_for n res r x = Inr (m, y) \<Longrightarrow> ?R x y"
        by (rule memory_for_installs)
      show "\<And>t m1 m2 x st y.
          RequestTarget_FormatRequestForRequestType w r t m1 m2 x = (st, y) \<Longrightarrow> ?R x y"
        by (rule Format_installs)
      show "\<And>m1 m2 st x. ?R s1 x \<Longrightarrow>
          ?P (RequestTarget_RequestSendReuse_Exit True r m1 m2 wbw 0 st None x)"
        by (rule extends_trans [OF _ SendReuse_Exit_installs])
      show "?P (RequestTarget_RequestSendReuse_send w sync wbw wc r m1 m2 d x)"
        if "?R s1 x0"
          and "RequestTarget_RequestSendReuse_prepare w sync a opt wc r x0 = Inr (d, x)"
        for m1 m2 d x0 x
        by (rule extends_trans [OF extends_trans [OF that(1) SendReuse_prepare_installs(2) [OF that(2)]]
                   SendReuse_send_installs])
      show "?P (RequestTarget_RequestSendReuse_Exit True r m1 m2 wbw 0 st None x)"
        if "?R s1 x0"
          and "RequestTarget_RequestSendReuse_prepare w sync a opt wc r x0 = Inl (st, x)"
        for m1 m2 st x0 x
        by (rule extends_trans [OF extends_trans [OF that(1) SendReuse_prepare_installs(1) [OF that(2)]]
                   SendReuse_Exit_installs])
    qed
    with calls1 show ?thesis
      by (rule extends_same_calls)
  qed
qed

lemma CreateAndSend_installs:
  "extends (\<lambda>c. set (installed c) \<subseteq> {CompletionRoutine, CompletionRoutinePassive}) s
     (snd (RequestTarget_RequestCreateAndSend w sync a opt wbw wc s))"
proof (cases "WdfRequestCreate_result w")
  case (Pair st0 r)
  let ?R = "extends (\<lambda>c. set (installed c) \<subseteq> {CompletionRoutine, CompletionRoutinePassive})"
  show ?thesis
  proof (cases "NT_SUCCESS st0")
    case False
    with Pair show ?thesis
      by (simp add: RequestTarget_RequestCreateAndSend_def)
  next
    case True
    let ?P = "\<lambda>res. ?R (WdfRequestCreate r s) (snd res)"
    have "?P (RequestTarget_RequestCreateAndSend w sync a opt wbw wc s)"
    proof (rule CreateAndSend_paths [where R = ?R and P = ?P, OF _ _ _ _ Pair True])
      show "\<And>x. ?R x x"
        by simp
      show "\<And>x y z. ?R x y \<Longrightarrow> ?R y z \<Longrightarrow> ?R x z"
        by (rule extends_trans)
      show "\<And>n res x m y. memory_for n res r x = Inr (m, y) \<Longrightarrow> ?R x y"
        by (rule memory_for_installs)
      show "\<And>t m1 m2 x st y.
          RequestTarget_FormatRequestForRequestType w r t m1 m2 x = (st, y) \<Longrightarrow> ?R x y"
        by (rule Format_installs)
      show "\<And>st x. ?R (WdfRequestCreate r s) x \<Longrightarrow>
          ?P (RequestTarget_RequestCreateAndSend_Exit sync r wbw 0 st None x)"
        by (rule extends_trans [OF _ CreateAndSend_Exit_installs])
      show "?P (RequestTarget_RequestCreateAndSend_send w sync wbw wc r d x)"
        if "?R (WdfRequestCreate r s) x0"
          and "RequestTarget_RequestCreateAndSend_prepare w sync a opt wc r x0 = Inr (d, x)"
        for d x0 x
        by (rule extends_trans [OF extends_trans [OF that(1) CreateAndSend_prepare_installs(2) [OF that(2)]]
                   CreateAndSend_send_installs])
      show "?P (RequestTarget_RequestCreateAndSend_Exit sync r wbw 0 st None x)"
        if "?R (WdfRequestCreate r s) x0"
          and "RequestTarget_RequestCreateAndSend_prepare w sync a opt wc r x0 = Inl (st, x)"
        for st x0 x
        by (rule extends_trans [OF extends_trans [OF that(1) CreateAndSend_prepare_installs(1) [OF that(2)]]
                   CreateAndSend_Exit_installs])
    qed
    moreover have "?R s (WdfRequestCreate r s)"
      by (simp add: WdfRequestCreate_def record_call_def extends_def)
    ultimately show ?thesis
      by (rule extends_trans [rotated])
  qed
qed

lemma Method_installs:
  "list_all (\<lambda>c. set (installed c) \<subseteq> {CompletionRoutineReuse, CompletionRoutinePassiveReuse})
     (new_calls s (snd (DMF_RequestTarget_ReuseSend w c a wc s)))"
  "list_all (\<lambda>c. set (installed c) \<subseteq> {CompletionRoutine, CompletionRoutinePassive})
     (new_calls s (snd (DMF_RequestTarget_Send w a s)))"
  "list_all (\<lambda>c. set (installed c) \<subseteq> {CompletionRoutine, CompletionRoutinePassive})
     (new_calls s (snd (DMF_RequestTarget_SendEx w a wc s)))"
  "list_all (\<lambda>c. set (installed c) \<subseteq> {CompletionRoutine, CompletionRoutinePassive})
     (new_calls s (snd (DMF_RequestTarget_SendSynchronously w a wbw s)))"
proof -
  have r: "extends P s (snd (DMF_ModuleReference w s))" for P
    by (simp add: extends_def primitive_defs Let_def)
  have d: "extends P x (DMF_ModuleDereference x)" for P x
    by (simp add: extends_def primitive_defs)
  show "list_all (\<lambda>c. set (installed c) \<subseteq> {CompletionRoutineReuse, CompletionRoutinePassiveReuse})
     (new_calls s (snd (DMF_RequestTarget_ReuseSend w c a wc s)))"
    by (rule new_calls_extends)
       (auto simp: DMF_RequestTarget_ReuseSend_def Let_def case_prod_beta r
          intro: extends_trans [OF r SendReuse_installs]
                 extends_trans [OF extends_trans [OF r SendReuse_installs] d])
  show "list_all (\<lambda>c. set (installed c) \<subseteq> {CompletionRoutine, CompletionRoutinePassive})
     (new_calls s (snd (DMF_RequestTarget_Send w a s)))"
    by (rule new_calls_extends)
       (auto simp: DMF_RequestTarget_Send_def Let_def case_prod_beta r
          intro: extends_trans [OF r CreateAndSend_installs]
                 extends_trans [OF extends_trans [OF r CreateAndSend_installs] d])
  show "list_all (\<lambda>c. set (installed c) \<subseteq> {CompletionRoutine, CompletionRoutinePassive})
     (new_calls s (snd (DMF_RequestTarget_SendEx w a wc s)))"
    by (rule new_calls_extends)
       (auto simp: DMF_RequestTarget_SendEx_def Let_def case_prod_beta r
          intro: extends_trans [OF r CreateAndSend_installs]
                 extends_trans [OF extends_trans [OF r CreateAndSend_installs] d])
  show "list_all (\<lambda>c. set (installed c) \<subseteq> {CompletionRoutine, CompletionRoutinePassive})
     (new_calls s (snd (DMF_RequestTarget_SendSynchronously w a wbw s)))"
    by (rule new_calls_extends)
       (auto simp: DMF_RequestTarget_SendSynchronously_def Let_def case_prod_beta r
          intro: extends_trans [OF r CreateAndSend_installs]
                 extends_trans [OF extends_trans [OF r CreateAndSend_installs] d])
qed

section \<open>Failed sends, evaluated\<close>

lemmas send_eval =
  DMF_RequestTarget_SendEx_def DMF_RequestTarget_ReuseSend_def completionOption_of_def
  worker_defs RequestTarget_PendingCollectionReuseListSearch_def ReuseListSearch_loop_find
  SearchAndRemove_loop_remove1 primitive_defs example_defs Let_def

lemma SendEx_send_fails:
  "DMF_RequestTarget_SendEx example_framework_send_fails example_arguments True example_Module =
     ((STATUS_UNSUCCESSFUL, None, None),
      \<lparr>g_ContinuousRequestTargetUniqueId = 1, IoTarget = 9,
       PendingAsynchronousRequests = 1, PendingReuseRequests = 2,
       Collections = (\<lambda>c. [])(1 := []),
       UniqueRequestContextGet =
         (\<lambda>r. \<lparr>UniqueRequestIdCancel = 0, UniqueRequestIdReuse = 0, RequestInUse = False\<rparr>)
         (5 := \<lparr>UniqueRequestIdCancel = 1, UniqueRequestIdReuse = 0, RequestInUse = False\<rparr>),
       BufferPoolLent = [21],
       BufferPoolContents =
         (\<lambda>p. \<lparr>SingleAsynchronousRequestType = RequestType_Invalid,
                EvtRequestTargetSingleAsynchronousRequest = NULL,
                SingleAsynchronousCallbackClientContext = NULL\<rparr>)
         (21 := \<lparr>SingleAsynchronousRequestType = RequestType_Ioctl,
                 EvtRequestTargetSingleAsynchronousRequest = 50,
                 SingleAsynchronousCallbackClientContext = 60\<rparr>),
       MemoryObjects = [], QueuedWorkitems = [], ModuleReferences = 0,
       Calls =
         [Call_WdfRequestCreate 5, Call_WdfMemoryCreatePreallocated 11 5,
          Call_WdfMemoryCreatePreallocated 12 5,
          Call_WdfIoTargetFormatRequest 5 RequestType_Ioctl 11 12,
          Call_WdfRequestSetCompletionRoutine 5 CompletionRoutine 21,
          Call_InterlockedIncrement64 1, Call_WdfRequestAllocateTimer 5,
          Call_WdfRequestSend 5 False, Call_WdfObjectDelete 5]\<rparr>)"
  by (simp add: send_eval)

lemma ReuseSend_send_fails:
  "DMF_RequestTarget_ReuseSend example_framework_send_fails 1 example_arguments True example_reuse =
     ((STATUS_UNSUCCESSFUL, None, None),
      \<lparr>g_ContinuousRequestTargetUniqueId = 2, IoTarget = 9,
       PendingAsynchronousRequests = 1, PendingReuseRequests = 2,
       Collections = (\<lambda>c. if c = 2 then [5] else [])(1 := []),
       UniqueRequestContextGet =
         (\<lambda>r. \<lparr>UniqueRequestIdCancel = 0, UniqueRequestIdReuse = if r = 5 then 1 else 0,
                RequestInUse = False\<rparr>)
         (5 := \<lparr>UniqueRequestIdCancel = 2, UniqueRequestIdReuse = 1, RequestInUse = False\<rparr>),
       BufferPoolLent = [21],
       BufferPoolContents =
         (\<lambda>p. \<lparr>SingleAsynchronousRequestType = RequestType_Invalid,
                EvtRequestTargetSingleAsynchronousRequest = NULL,
                SingleAsynchronousCallbackClientContext = NULL\<rparr>)
         (21 := \<lparr>SingleAsynchronousRequestType = RequestType_Ioctl,
                 EvtRequestTargetSingleAsynchronousRequest = 50,
                 SingleAsynchronousCallbackClientContext = 60\<rparr>),
       MemoryObjects = [], QueuedWorkitems = [], ModuleReferences = 0,
       Calls =
         [Call_WdfRequestReuse 5, Call_WdfMemoryCreatePreallocated 11 5,
          Call_WdfMemoryCreatePreallocated 12 5,
          Call_WdfIoTargetFormatRequest 5 RequestType_Ioctl 11 12,
          Call_WdfRequestSetCompletionRoutine 5 CompletionRoutineReuse 21,
          Call_InterlockedIncrement64 2, Call_WdfRequestAllocateTimer 5,
          Call_WdfRequestSend 5 False, Call_WdfObjectDelete 11,
          Call_WdfObjectDelete 12]\<rparr>)"
  by (simp add: send_eval)

lemma SendEx_timer_fails:
  "DMF_RequestTarget_SendEx example_framework_timer_fails example_arguments True example_Module =
     ((STATUS_UNSUCCESSFUL, None, None),
      \<lparr>g_ContinuousRequestTargetUniqueId = 1, IoTarget = 9,
       PendingAsynchronousRequests = 1, PendingReuseRequests = 2,
       Collections = (\<lambda>c. [])(1 := [5]),
       UniqueRequestContextGet =
         (\<lambda>r. \<lparr>UniqueRequestIdCancel = 0, UniqueRequestIdReuse = 0, RequestInUse = False\<rparr>)
         (5 := \<lparr>UniqueRequestIdCancel = 1, UniqueRequestIdReuse = 0, RequestInUse = False\<rparr>),
       BufferPoolLent = [21],
       BufferPoolContents =
         (\<lambda>p. \<lparr>SingleAsynchronousRequestType = RequestType_Invalid,
                EvtRequestTargetSingleAsynchronousRequest = NULL,
                SingleAsynchronousCallbackClientContext = NULL\<rparr>)
         (21 := \<lparr>SingleAsynchronousRequestType = RequestType_Ioctl,
                 EvtRequestTargetSingleAsynchronousRequest = 50,
                 SingleAsynchronousCallbackClientContext = 60\<rparr>),
       MemoryObjects = [], QueuedWorkitems = [], ModuleReferences = 0,
       Calls =
         [Call_WdfRequestCreate 5, Call_WdfMemoryCreatePreallocated 11 5,
          Call_WdfMemoryCreatePreallocated 12 5,
          Call_WdfIoTargetFormatRequest 5 RequestType_Ioctl 11 12,
          Call_WdfRequestSetCompletionRoutine 5 CompletionRoutine 21,
          Call_InterlockedIncrement64 1, Call_WdfRequestAllocateTimer 5,
          Call_WdfObjectDelete 5]\<rparr>)"
  by (simp add: send_eval example_framework_timer_fails_def)

section \<open>The polling loops of DMF\_RequestTarget\_Close\<close>

lemma Close_wait_returns:
  assumes "Collections (after_sleeps others n k s) (collection (after_sleeps others n k s)) = []"
    and "\<forall>j<k. Collections (after_sleeps others n j s) (collection (after_sleeps others n j s)) \<noteq> []"
  shows "Close_wait others collection n s = Some (n + k, after_sleeps others n k s)"
  using assms
proof (induction k arbitrary: n s)
  case 0
  then show ?case
    by (subst Close_wait.simps) simp
next
  case (Suc k)
  from Suc.prems(2) have "Collections s (collection s) \<noteq> []"
    by (metis after_sleeps.simps(1) zero_less_Suc)
  moreover have "Close_wait others collection (Suc n) (others n s) =
                   Some (Suc n + k, after_sleeps others (Suc n) k (others n s))"
  proof (rule Suc.IH)
    show "Collections (after_sleeps others (Suc n) k (others n s))
            (collection (after_sleeps others (Suc n) k (others n s))) = []"
      using Suc.prems(1) by simp
    show "\<forall>j<k. Collections (after_sleeps others (Suc n) j (others n s))
            (collection (after_sleeps others (Suc n) j (others n s))) \<noteq> []"
    proof (intro allI impI)
      fix j assume "j < k"
      then have "Suc j < Suc k" by simp
      with Suc.prems(2) show "Collections (after_sleeps others (Suc n) j (others n s))
            (collection (after_sleeps others (Suc n) j (others n s))) \<noteq> []"
        by (metis after_sleeps.simps(2))
    qed
  qed
  ultimately show ?case
    by (subst Close_wait.simps) simp
qed

lemma Close_wait_returned:
  assumes "Close_wait others collection n s = Some y"
  shows "\<exists>k. y = (n + k, after_sleeps others n k s)
           \<and> Collections (after_sleeps others n k s) (collection (after_sleeps others n k s)) = []
           \<and> (\<forall>j<k. Collections (after_sleeps others n j s) (collection (after_sleeps others n j s)) \<noteq> [])"
proof -
  let ?P = "\<lambda>others collection n s y.
       \<exists>k. y = (n + k, after_sleeps others n k s)
           \<and> Collections (after_sleeps others n k s) (collection (after_sleeps others n k s)) = []
           \<and> (\<forall>j<k. Collections (after_sleeps others n j s) (collection (after_sleeps others n j s)) \<noteq> [])"
  have "?P others collection n s y"
  proof (rule Close_wait.raw_induct [where P = ?P, OF _ assms])
    fix f others collection n s y
    assume IH: "\<And>others collection n s y. f others collection n s = Some y \<Longrightarrow> ?P others collection n s y"
      and body: "(let outstandingRequests = length (Collections s (collection s))
                  in if 0 < outstandingRequests
                     then f others collection (Suc n) (others n s)
                     else Some (n, s)) = Some y"
    show "?P others collection n s y"
    proof (cases "Collections s (collection s) = []")
      case True
      with body have "y = (n + 0, after_sleeps others n 0 s)"
        by simp
      with True show ?thesis
        by (intro exI [of _ 0]) simp
    next
      case False
      with body have "f others collection (Suc n) (others n s) = Some y"
        by simp
      from IH [OF this] obtain k where k: "y = (Suc n + k, after_sleeps others (Suc n) k (others n s))"
        "Collections (after_sleeps others (Suc n) k (others n s))
           (collection (after_sleeps others (Suc n) k (others n s))) = []"
        "\<forall>j<k. Collections (after_sleeps others (Suc n) j (others n s))
           (collection (after_sleeps others (Suc n) j (others n s))) \<noteq> []"
        by blast
      have "\<forall>j<Suc k. Collections (after_sleeps others n j s) (collection (after_sleeps others n j s)) \<noteq> []"
      proof (intro allI impI)
        fix j assume j: "j < Suc k"
        show "Collections (after_sleeps others n j s) (collection (after_sleeps others n j s)) \<noteq> []"
        proof (cases j)
          case 0
          with False show ?thesis by simp
        next
          case (Suc i)
          with j k(3) show ?thesis by simp
        qed
      qed
      with k(1,2) show ?thesis
        by (intro exI [of _ "Suc k"]) simp
    qed
  qed
  then show ?thesis .
qed


lemma after_sleeps_handles:
  assumes "\<And>n x. PendingAsynchronousRequests (others n x) = PendingAsynchronousRequests x
                 \<and> PendingReuseRequests (others n x) = PendingReuseRequests x"
  shows "PendingAsynchronousRequests (after_sleeps others n k s) = PendingAsynchronousRequests s
         \<and> PendingReuseRequests (after_sleeps others n k s) = PendingReuseRequests s"
  by (induction k arbitrary: n s) (simp_all add: assms)

lemma Close_PendingAsynchronousRequests_iff:
  assumes others: "\<And>n x. PendingAsynchronousRequests (others n x) = PendingAsynchronousRequests x
                        \<and> PendingReuseRequests (others n x) = PendingReuseRequests x"
    and pending: "PendingAsynchronousRequests s \<noteq> NULL"
  shows "Close_PendingAsynchronousRequests others n s = Some (n', x) \<longleftrightarrow>
           (\<exists>k. n' = n + k \<and> PendingSet (after_sleeps others n k s) = []
              \<and> (\<forall>j<k. PendingSet (after_sleeps others n j s) \<noteq> [])
              \<and> x = (record_call (Call_WdfObjectDelete (PendingAsynchronousRequests s))
                        (after_sleeps others n k s))\<lparr>PendingAsynchronousRequests := NULL\<rparr>)"
    (is "?lhs \<longleftrightarrow> (\<exists>k. ?Q k)")
proof
  note h = after_sleeps_handles [of others, OF others]
  assume ?lhs
  with pending obtain s1 where w: "Close_wait others PendingAsynchronousRequests n s = Some (n', s1)"
    and x: "x = (record_call (Call_WdfObjectDelete (PendingAsynchronousRequests s1)) s1)
                  \<lparr>PendingAsynchronousRequests := NULL\<rparr>"
    by (auto simp: Close_PendingAsynchronousRequests_def split: option.splits)
  from Close_wait_returned [OF w] obtain k where k: "n' = n + k" "s1 = after_sleeps others n k s"
    "PendingSet (after_sleeps others n k s) = []"
    "\<forall>j<k. PendingSet (after_sleeps others n j s) \<noteq> []"
    by auto
  from x k(2) have "x = (record_call (Call_WdfObjectDelete (PendingAsynchronousRequests s))
                        (after_sleeps others n k s))\<lparr>PendingAsynchronousRequests := NULL\<rparr>"
    by (simp add: h)
  with k show "\<exists>k. ?Q k"
    by blast
next
  note h = after_sleeps_handles [of others, OF others]
  assume "\<exists>k. ?Q k"
  then obtain k where k: "?Q k" ..
  then have "Close_wait others PendingAsynchronousRequests n s = Some (n + k, after_sleeps others n k s)"
    by (intro Close_wait_returns) simp_all
  with k pending show ?lhs
    by (simp add: Close_PendingAsynchronousRequests_def h)
qed

lemma Close_PendingReuseRequests_iff:
  assumes others: "\<And>n x. PendingAsynchronousRequests (others n x) = PendingAsynchronousRequests x
                        \<and> PendingReuseRequests (others n x) = PendingReuseRequests x"
    and reuse: "PendingReuseRequests s \<noteq> NULL"
  shows "Close_PendingReuseRequests others n s = Some (n', x) \<longleftrightarrow>
           (\<exists>k. n' = n + k \<and> ReuseSet (after_sleeps others n k s) = []
              \<and> (\<forall>j<k. ReuseSet (after_sleeps others n j s) \<noteq> [])
              \<and> x = (record_call (Call_WdfObjectDelete (PendingReuseRequests s))
                        (after_sleeps others n k s))\<lparr>PendingReuseRequests := NULL\<rparr>)"
    (is "?lhs \<longleftrightarrow> (\<exists>k. ?Q k)")
proof
  note h = after_sleeps_handles [of others, OF others]
  assume ?lhs
  with reuse obtain s1 where w: "Close_wait others PendingReuseRequests n s = Some (n', s1)"
    and x: "x = (record_call (Call_WdfObjectDelete (PendingReuseRequests s1)) s1)
                  \<lparr>PendingReuseRequests := NULL\<rparr>"
    by (auto simp: Close_PendingReuseRequests_def split: option.splits)
  from Close_wait_returned [OF w] obtain k where k: "n' = n + k" "s1 = after_sleeps others n k s"
    "ReuseSet (after_sleeps others n k s) = []"
    "\<forall>j<k. ReuseSet (after_sleeps others n j s) \<noteq> []"
    by auto
  from x k(2) have "x = (record_call (Call_WdfObjectDelete (PendingReuseRequests s))
                        (after_sleeps others n k s))\<lparr>PendingReuseRequests := NULL\<rparr>"
    by (simp add: h)
  with k show "\<exists>k. ?Q k"
    by blast
next
  note h = after_sleeps_handles [of others, OF others]
  assume "\<exists>k. ?Q k"
  then obtain k where k: "?Q k" ..
  then have "Close_wait others PendingReuseRequests n s = Some (n + k, after_sleeps others n k s)"
    by (intro Close_wait_returns) simp_all
  with k reuse show ?lhs
    by (simp add: Close_PendingReuseRequests_def h)
qed



lemma after_sleeps_evolves:
  assumes "\<And>n. \<exists>script events. never_deletes script events \<and> others n = history script events"
  shows "evolves False s (after_sleeps others n k s)"
proof (induction k arbitrary: n s)
  case 0
  show ?case by simp
next
  case (Suc k)
  from assms obtain script events where "never_deletes script events" "others n = history script events"
    by blast
  then have "evolves False s (others n s)"
    by (simp add: history_evolves)
  then show ?case
    using Suc.IH by (simp add: evolves_trans)
qed

lemma Close_blocks_while_reusable:
  assumes hist: "\<And>n. \<exists>script events. never_deletes script events \<and> others n = history script events"
    and reuse: "PendingReuseRequests s \<noteq> NULL"
    and distinct: "PendingAsynchronousRequests s \<noteq> PendingReuseRequests s"
    and slot: "ReuseSet s \<noteq> []"
  shows "DMF_RequestTarget_Close others s = None"
proof (rule ccontr)
  assume "DMF_RequestTarget_Close others s \<noteq> None"
  then obtain n1 s1 n2 s2 where a: "Close_PendingAsynchronousRequests others 0 s = Some (n1, s1)"
    and b: "Close_PendingReuseRequests others n1 s1 = Some (n2, s2)"
    by (auto simp: DMF_RequestTarget_Close_def split: option.splits)
  have others: "PendingAsynchronousRequests (others n x) = PendingAsynchronousRequests x
                 \<and> PendingReuseRequests (others n x) = PendingReuseRequests x" for n x
    using after_sleeps_evolves [where others = others and s = x and n = n and k = 1, OF hist]
    by (simp add: evolves_def)
  have grow: "prefix (ReuseSet x) (ReuseSet (after_sleeps others n k x))"
    if "PendingAsynchronousRequests x \<noteq> PendingReuseRequests x" for x n k
    using after_sleeps_evolves [where others = others and s = x and n = n and k = k, OF hist] that
    by (auto simp: evolves_def)
  have s1: "PendingReuseRequests s1 = PendingReuseRequests s \<and> PendingAsynchronousRequests s1 = NULL
              \<and> prefix (ReuseSet s) (ReuseSet s1)"
  proof (cases "PendingAsynchronousRequests s = NULL")
    case True
    with a show ?thesis
      by (simp add: Close_PendingAsynchronousRequests_def)
  next
    case False
    from a obtain k where "s1 = (record_call (Call_WdfObjectDelete (PendingAsynchronousRequests s))
                        (after_sleeps others 0 k s))\<lparr>PendingAsynchronousRequests := NULL\<rparr>"
      unfolding Close_PendingAsynchronousRequests_iff [of others, OF others False] by blast
    with grow [OF distinct, of 0 k] after_sleeps_handles [of others 0 k s, OF others] show ?thesis
      by (simp add: record_call_def)
  qed
  with reuse have r1: "PendingReuseRequests s1 \<noteq> NULL"
    and d1: "PendingAsynchronousRequests s1 \<noteq> PendingReuseRequests s1"
    by simp_all
  from b obtain k where "ReuseSet (after_sleeps others n1 k s1) = []"
    unfolding Close_PendingReuseRequests_iff [of others, OF others r1] by blast
  with grow [OF d1, of n1 k] have "ReuseSet s1 = []"
    by simp
  with s1 slot show False
    by simp
qed

lemmas close_eval =
  example_closing_def example_others_def RequestTarget_CompletionRoutine_def
  RequestTarget_ProcessAsynchronousRequestSingle_def Root_callback scripted_client_def
  DMF_RequestTarget_ReuseDelete_def RequestTarget_PendingCollectionReuseListSearch_def
  ReuseListSearch_loop_find SearchAndRemove_loop_remove1 primitive_defs example_defs Let_def

lemma after_sleeps_alone:
  assumes handles: "\<And>n x. PendingAsynchronousRequests (others n x) = PendingAsynchronousRequests x
                        \<and> PendingReuseRequests (others n x) = PendingReuseRequests x"
    and alone: "\<And>n x c. c \<noteq> PendingAsynchronousRequests x \<Longrightarrow> c \<noteq> PendingReuseRequests x \<Longrightarrow>
                    Collections (others n x) c = Collections x c"
    and "c \<noteq> PendingAsynchronousRequests s" and "c \<noteq> PendingReuseRequests s"
  shows "Collections (after_sleeps others n k s) c = Collections s c"
  using assms(3,4)
proof (induction k arbitrary: n s)
  case 0
  show ?case by simp
next
  case (Suc k)
  have "Collections (after_sleeps others (Suc n) k (others n s)) c = Collections (others n s) c"
    using Suc.prems by (intro Suc.IH) (simp_all add: handles)
  with Suc.prems show ?case
    by (simp add: alone)
qed

section \<open>A reuse-send that reaches WdfRequestSend\<close>

lemma memory_for_succeeds:
  assumes "0 < n \<longrightarrow> NT_SUCCESS (fst res)"
  shows "\<exists>m s'. memory_for n res r s = Inr (m, s') \<and> extends (\<lambda>c. sent c = []) s s'"
  using assms by (auto simp: extends_def primitive_defs Let_def case_prod_beta)

lemma Format_succeeds:
  assumes "t \<noteq> RequestType_Invalid"
  shows "\<exists>s'. RequestTarget_FormatRequestForRequestType w r t m1 m2 s = (WdfIoTargetFormatRequest_result w, s')
           \<and> extends (\<lambda>c. sent c = []) s s'"
  using assms by (cases t) (auto simp: extends_def primitive_defs)

lemma SendReuse_prepare_succeeds:
  assumes "\<not> sync \<longrightarrow>
            (opt = CompletionOptions_Dispatch \<or> opt = CompletionOptions_Passive)
            \<and> NT_SUCCESS (fst (DMF_BufferPool_Get_result w))
            \<and> (wc \<longrightarrow> NT_SUCCESS (WdfCollectionAdd_result w))"
  shows "\<exists>d s'. RequestTarget_RequestSendReuse_prepare w sync a opt wc r s = Inr (d, s')
           \<and> extends (\<lambda>c. sent c = []) s s'"
  using assms
  by (auto simp: RequestTarget_RequestSendReuse_prepare_def extends_def primitive_defs Let_def case_prod_beta)

lemma SendReuse_send_sends:
  assumes "NT_SUCCESS (WdfRequestAllocateTimer_result w)"
  shows "prefix (Calls s) (Calls (snd (RequestTarget_RequestSendReuse_send w sync wbw wc r m1 m2 d s)))
         \<and> concat (map sent (new_calls s (snd (RequestTarget_RequestSendReuse_send w sync wbw wc r m1 m2 d s)))) =
             [(r, WdfRequestSend_result w)]"
  using assms
  by (simp add: RequestTarget_RequestSendReuse_send_def RequestTarget_RequestSendReuse_Exit_def
        new_calls_def primitive_defs Let_def case_prod_beta)

lemma extends_unsent:
  "extends (\<lambda>c. sent c = []) s s' \<Longrightarrow>
   prefix (Calls s) (Calls s') \<and> concat (map sent (new_calls s s')) = []"
  by (auto simp: extends_def new_calls_def list_all_iff)

lemma sent_after:
  assumes "extends (\<lambda>c. sent c = []) s x"
    and "prefix (Calls x) (Calls s') \<and> concat (map sent (new_calls x s')) = ss"
  shows "concat (map sent (new_calls s s')) = ss"
proof -
  from assms(1) have a: "prefix (Calls s) (Calls x)" "concat (map sent (new_calls s x)) = []"
    using extends_unsent by blast+
  have "new_calls s s' = new_calls s x @ new_calls x s'"
    using a(1) assms(2) by (intro new_calls_append) simp_all
  then show ?thesis
    using a(2) assms(2) by simp
qed

lemma SendReuse_send_accepted:
  assumes "NT_SUCCESS (WdfRequestAllocateTimer_result w)" and "WdfRequestSend_result w" and "\<not> sync"
  shows "NT_SUCCESS (fst (fst (RequestTarget_RequestSendReuse_send w sync wbw wc r m1 m2 d s)))
         \<and> RequestInUse (UniqueRequestContextGet
               (snd (RequestTarget_RequestSendReuse_send w sync wbw wc r m1 m2 d s)) r) =
             RequestInUse (UniqueRequestContextGet s r)"
  using assms
  by (simp add: RequestTarget_RequestSendReuse_send_def RequestTarget_RequestSendReuse_Exit_def
        primitive_defs Let_def case_prod_beta)

lemma SendReuse_reaches_send:
  assumes search: "RequestTarget_PendingCollectionReuseListSearch c s = (True, r, s1)"
    and reuse: "NT_SUCCESS (WdfRequestReuse_result w)"
    and m1: "0 < RequestLength a \<longrightarrow> NT_SUCCESS (fst (WdfMemoryCreatePreallocated_request w))"
    and m2: "0 < ResponseLength a \<longrightarrow> NT_SUCCESS (fst (WdfMemoryCreatePreallocated_response w))"
    and type: "RequestType a \<noteq> RequestType_Invalid"
    and format: "NT_SUCCESS (WdfIoTargetFormatRequest_result w)"
    and async: "\<not> sync \<longrightarrow>
            (opt = CompletionOptions_Dispatch \<or> opt = CompletionOptions_Passive)
            \<and> NT_SUCCESS (fst (DMF_BufferPool_Get_result w))
            \<and> (wc \<longrightarrow> NT_SUCCESS (WdfCollectionAdd_result w))"
  shows "\<exists>mr ms d s6.
           RequestTarget_RequestSendReuse w c sync a opt wbw wc s =
             RequestTarget_RequestSendReuse_send w sync wbw wc r mr ms d s6
           \<and> extends (\<lambda>c. sent c = []) s s6
           \<and> RequestInUse (UniqueRequestContextGet s6 r) = RequestInUse (UniqueRequestContextGet s1 r)"
proof -
  let ?Q = "extends (\<lambda>c. sent c = [])"
  let ?s2 = "record_call (Call_WdfRequestReuse r) s1"
  have calls1: "Calls s1 = Calls s"
    using search by (auto simp: RequestTarget_PendingCollectionReuseListSearch_def case_prod_beta)
  have s2: "?Q s ?s2"
    by (simp add: extends_def record_call_def calls1)
  from memory_for_succeeds [OF m1] obtain mr s3
    where mr: "memory_for (RequestLength a) (WdfMemoryCreatePreallocated_request w) r ?s2 = Inr (mr, s3)"
      and s3: "?Q ?s2 s3"
    by blast
  from memory_for_succeeds [OF m2] obtain ms s4
    where ms: "memory_for (ResponseLength a) (WdfMemoryCreatePreallocated_response w) r s3 = Inr (ms, s4)"
      and s4: "?Q s3 s4"
    by blast
  from Format_succeeds [OF type] obtain s5
    where f: "RequestTarget_FormatRequestForRequestType w r (RequestType a) mr ms s4 =
                (WdfIoTargetFormatRequest_result w, s5)"
      and s5: "?Q s4 s5"
    by blast
  from SendReuse_prepare_succeeds [OF async] obtain d s6
    where p: "RequestTarget_RequestSendReuse_prepare w sync a opt wc r s5 = Inr (d, s6)"
      and s6: "?Q s5 s6"
    by blast
  have eq: "RequestTarget_RequestSendReuse w c sync a opt wbw wc s =
              RequestTarget_RequestSendReuse_send w sync wbw wc r mr ms d s6"
    using reuse format
    by (simp add: RequestTarget_RequestSendReuse_def search Let_def)
       (simp add: mr ms f p)
  have Q: "?Q s s6"
    by (rule extends_trans [OF extends_trans [OF extends_trans [OF extends_trans [OF s2 s3] s4] s5] s6])
  have u3: "UniqueRequestContextGet s3 = UniqueRequestContextGet ?s2"
    using mr by (auto simp: primitive_defs Let_def case_prod_beta split: if_splits)
  have u4: "UniqueRequestContextGet s4 = UniqueRequestContextGet s3"
    using ms by (auto simp: primitive_defs Let_def case_prod_beta split: if_splits)
  have u5: "UniqueRequestContextGet s5 = UniqueRequestContextGet s4"
    using f by (auto simp: primitive_defs split: ContinuousRequestTarget_RequestType.splits)
  have "RequestInUse (UniqueRequestContextGet s6 r) = RequestInUse (UniqueRequestContextGet s5 r)"
    using p by (rule SendReuse_prepare_in_use(2))
  then have "RequestInUse (UniqueRequestContextGet s6 r) = RequestInUse (UniqueRequestContextGet s1 r)"
    by (simp add: u3 u4 u5 record_call_def)
  with eq Q show ?thesis
    by blast
qed

section \<open>Buffer extraction by request type\<close>

text \<open>
  Claim C5.  The buffers handed to the completion callback depend on the request type
  only.  For a read there is no input buffer (NULL, size 0) and the output size is the
  length of the read result.  For a write there is no output buffer (NULL, size 0) and
  the input size is the length of the write result.  For a device-control and an
  internal device-control request both buffers are extracted, and the output size of an
  output memory object is the number of bytes the target returned
  (Ioctl.Output.Length), whatever size the memory object itself reports.
\<close>

theorem buffers_by_request_type:
  "RequestTarget_CompletionParamsInputBufferAndOutputBufferGet g p RequestType_Read =
     (NULL, 0, if Read_Buffer p \<noteq> NULL then fst (g (Read_Buffer p)) else NULL, Read_Length p)
   \<and> RequestTarget_CompletionParamsInputBufferAndOutputBufferGet g p RequestType_Write =
     (if Write_Buffer p \<noteq> NULL then fst (g (Write_Buffer p)) else NULL, Write_Length p, NULL, 0)
   \<and> (k = RequestType_Ioctl \<or> k = RequestType_InternalIoctl \<longrightarrow>
      RequestTarget_CompletionParamsInputBufferAndOutputBufferGet g p k =
        (if Ioctl_Input_Buffer p \<noteq> NULL then fst (g (Ioctl_Input_Buffer p)) else NULL,
         if Ioctl_Input_Buffer p \<noteq> NULL then snd (g (Ioctl_Input_Buffer p)) else 0,
         if Ioctl_Output_Buffer p \<noteq> NULL then fst (g (Ioctl_Output_Buffer p)) else NULL,
         if Ioctl_Output_Buffer p \<noteq> NULL then Ioctl_Output_Length p else 0))"
  by (auto simp: RequestTarget_CompletionParamsInputBufferAndOutputBufferGet_def Let_def
           split: prod.splits)

text \<open>
  The specification's scenario: 16 bytes of input, an output capacity of 32 bytes, and a
  target that returns 20 bytes; the callback is given the output length 20.
\<close>

theorem buffers_by_request_type_witness:
  "RequestTarget_CompletionParamsInputBufferAndOutputBufferGet
     (\<lambda>m. if m = 1 then (100, 16) else (200, 32))
     \<lparr>Read_Buffer = 0, Read_Length = 0, Write_Buffer = 0, Write_Length = 0,
      Ioctl_Input_Buffer = 1, Ioctl_Output_Buffer = 2, Ioctl_Output_Length = 20\<rparr>
     RequestType_Ioctl = (100, 16, 200, 20)"
  using buffers_by_request_type
    [of "\<lambda>m. if m = 1 then (100, 16) else (200, 32)"
        "\<lparr>Read_Buffer = 0, Read_Length = 0, Write_Buffer = 0, Write_Length = 0,
          Ioctl_Input_Buffer = 1, Ioctl_Output_Buffer = 2, Ioctl_Output_Length = 20\<rparr>"
        RequestType_Ioctl]
  by simp

section \<open>Reuse exclusivity\<close>

text \<open>
  Claim C2, as stated, fails in one point: the code has no error of its own for a send
  against a request that is in use.  The lookup answers FALSE for it as for an identifier
  that no request carries, and RequestTarget\_RequestSendReuse returns
  STATUS\_OBJECTID\_NOT\_FOUND in both cases: for the identifier 1 of the request 5, which
  is in use, and for the identifier 2, which no request carries, the results are the
  same.
\<close>

theorem reuse_send_in_use_is_not_found:
  "ReuseSet example_reuse_sent = [5]
   \<and> UniqueRequestIdReuse (UniqueRequestContextGet example_reuse_sent 5) = 1
   \<and> RequestInUse (UniqueRequestContextGet example_reuse_sent 5)
   \<and> RequestTarget_RequestSendReuse example_framework 1 False example_arguments
       CompletionOptions_Dispatch False True example_reuse_sent =
       ((STATUS_OBJECTID_NOT_FOUND, None, None), example_reuse_sent)
   \<and> RequestTarget_RequestSendReuse example_framework 2 False example_arguments
       CompletionOptions_Dispatch False True example_reuse_sent =
       ((STATUS_OBJECTID_NOT_FOUND, None, None), example_reuse_sent)"
proof (intro conjI)
  have a: "RequestTarget_PendingCollectionReuseListSearch 1 example_reuse_sent = (False, NULL, example_reuse_sent)"
    by (rule ReuseListSearch_in_use [where r = 5]) (simp_all add: example_reuse_sent_def example_Module_def)
  have b: "RequestTarget_PendingCollectionReuseListSearch 2 example_reuse_sent = (False, NULL, example_reuse_sent)"
    by (rule ReuseListSearch_unknown) (simp add: example_reuse_sent_def example_Module_def)
  show "RequestTarget_RequestSendReuse example_framework 1 False example_arguments
       CompletionOptions_Dispatch False True example_reuse_sent =
       ((STATUS_OBJECTID_NOT_FOUND, None, None), example_reuse_sent)"
    using SendReuse_rejected [OF a] by simp
  show "RequestTarget_RequestSendReuse example_framework 2 False example_arguments
       CompletionOptions_Dispatch False True example_reuse_sent =
       ((STATUS_OBJECTID_NOT_FOUND, None, None), example_reuse_sent)"
    using SendReuse_rejected [OF b] by simp
qed (simp_all add: example_reuse_sent_def example_Module_def)

text \<open>
  Claim C2, amended.  Let the reuse identifier \<open>c\<close> belong to the request \<open>r\<close> of the
  reuse collection.  If \<open>r\<close> is in use, RequestTarget\_RequestSendReuse answers with the
  failure STATUS\_OBJECTID\_NOT\_FOUND, the answer it also gives for an identifier \<open>c'\<close>
  that no request carries, and leaves the whole state as it was: no framework call is
  recorded (the request is not re-armed, formatted or sent) and no collection or request
  context changes; the Method DMF\_RequestTarget\_ReuseSend likewise fails and leaves the
  state unchanged.  If \<open>r\<close> is not in use, the lookup answers TRUE with \<open>r\<close> and sets
  RequestInUse, and the send goes on: the first call it records is WdfRequestReuse on
  \<open>r\<close>, and when every framework call before the send succeeds, WdfRequestSend is
  called exactly once, on \<open>r\<close>; when it answers TRUE for an asynchronous send the
  function succeeds and \<open>r\<close> stays in use.
\<close>

theorem reuse_send_exclusive:
  assumes "NULL \<notin> set (ReuseSet s)"
    and "find (\<lambda>x. UniqueRequestIdReuse (UniqueRequestContextGet s x) = c) (ReuseSet s) = Some r"
  shows "(RequestInUse (UniqueRequestContextGet s r) \<longrightarrow>
            RequestTarget_RequestSendReuse w c sync a opt wbw wc s =
              ((STATUS_OBJECTID_NOT_FOUND, if wbw then Some 0 else None, None), s)
            \<and> \<not> NT_SUCCESS STATUS_OBJECTID_NOT_FOUND
            \<and> snd (DMF_RequestTarget_ReuseSend w c a wc s) = s
            \<and> \<not> NT_SUCCESS (fst (fst (DMF_RequestTarget_ReuseSend w c a wc s))))
       \<and> ((\<forall>x \<in> set (ReuseSet s). UniqueRequestIdReuse (UniqueRequestContextGet s x) \<noteq> c') \<longrightarrow>
            RequestTarget_RequestSendReuse w c' sync a opt wbw wc s =
              ((STATUS_OBJECTID_NOT_FOUND, if wbw then Some 0 else None, None), s))
       \<and> (\<not> RequestInUse (UniqueRequestContextGet s r) \<longrightarrow>
            RequestTarget_PendingCollectionReuseListSearch c s =
              (True, r, UniqueRequestContext_update r (\<lambda>u. u\<lparr>RequestInUse := True\<rparr>) s)
            \<and> (\<exists>rest. Calls (snd (RequestTarget_RequestSendReuse w c sync a opt wbw wc s)) =
                   Calls s @ Call_WdfRequestReuse r # rest)
            \<and> (NT_SUCCESS (WdfRequestReuse_result w)
                \<and> (0 < RequestLength a \<longrightarrow> NT_SUCCESS (fst (WdfMemoryCreatePreallocated_request w)))
                \<and> (0 < ResponseLength a \<longrightarrow> NT_SUCCESS (fst (WdfMemoryCreatePreallocated_response w)))
                \<and> RequestType a \<noteq> RequestType_Invalid
                \<and> NT_SUCCESS (WdfIoTargetFormatRequest_result w)
                \<and> (\<not> sync \<longrightarrow>
                      (opt = CompletionOptions_Dispatch \<or> opt = CompletionOptions_Passive)
                      \<and> NT_SUCCESS (fst (DMF_BufferPool_Get_result w))
                      \<and> (wc \<longrightarrow> NT_SUCCESS (WdfCollectionAdd_result w)))
                \<and> NT_SUCCESS (WdfRequestAllocateTimer_result w) \<longrightarrow>
                concat (map sent (new_calls s (snd (RequestTarget_RequestSendReuse w c sync a opt wbw wc s)))) =
                  [(r, WdfRequestSend_result w)]
                \<and> (WdfRequestSend_result w \<and> \<not> sync \<longrightarrow>
                      NT_SUCCESS (fst (fst (RequestTarget_RequestSendReuse w c sync a opt wbw wc s)))
                      \<and> RequestInUse (UniqueRequestContextGet
                            (snd (RequestTarget_RequestSendReuse w c sync a opt wbw wc s)) r))))"
proof (intro conjI impI)
  assume u: "RequestInUse (UniqueRequestContextGet s r)"
  have rej: "RequestTarget_PendingCollectionReuseListSearch c s = (False, NULL, s)"
    using assms u by (rule ReuseListSearch_in_use)
  show "RequestTarget_RequestSendReuse w c sync a opt wbw wc s =
          ((STATUS_OBJECTID_NOT_FOUND, if wbw then Some 0 else None, None), s)"
    using rej by (rule SendReuse_rejected)
  show "\<not> NT_SUCCESS STATUS_OBJECTID_NOT_FOUND"
    by simp
  show "snd (DMF_RequestTarget_ReuseSend w c a wc s) = s"
    using ReuseSend_rejected [OF rej] by simp
  show "\<not> NT_SUCCESS (fst (fst (DMF_RequestTarget_ReuseSend w c a wc s)))"
    using ReuseSend_rejected [OF rej] by simp
next
  assume "\<forall>x \<in> set (ReuseSet s). UniqueRequestIdReuse (UniqueRequestContextGet s x) \<noteq> c'"
  then have "RequestTarget_PendingCollectionReuseListSearch c' s = (False, NULL, s)"
    by (rule ReuseListSearch_unknown)
  then show "RequestTarget_RequestSendReuse w c' sync a opt wbw wc s =
          ((STATUS_OBJECTID_NOT_FOUND, if wbw then Some 0 else None, None), s)"
    by (rule SendReuse_rejected)
next
  assume f: "\<not> RequestInUse (UniqueRequestContextGet s r)"
  show found: "RequestTarget_PendingCollectionReuseListSearch c s =
          (True, r, UniqueRequestContext_update r (\<lambda>u. u\<lparr>RequestInUse := True\<rparr>) s)"
    using assms f by (rule ReuseListSearch_free)
  have "prefix (Calls s @ [Call_WdfRequestReuse r])
          (Calls (snd (RequestTarget_RequestSendReuse w c sync a opt wbw wc s)))"
    using SendReuse_after_search_calls [OF found, of w sync a opt wbw wc]
    by (simp add: UniqueRequestContext_update_def)
  then show "\<exists>rest. Calls (snd (RequestTarget_RequestSendReuse w c sync a opt wbw wc s)) =
                   Calls s @ Call_WdfRequestReuse r # rest"
    by (auto simp: prefix_def)
  assume ok: "NT_SUCCESS (WdfRequestReuse_result w)
                \<and> (0 < RequestLength a \<longrightarrow> NT_SUCCESS (fst (WdfMemoryCreatePreallocated_request w)))
                \<and> (0 < ResponseLength a \<longrightarrow> NT_SUCCESS (fst (WdfMemoryCreatePreallocated_response w)))
                \<and> RequestType a \<noteq> RequestType_Invalid
                \<and> NT_SUCCESS (WdfIoTargetFormatRequest_result w)
                \<and> (\<not> sync \<longrightarrow>
                      (opt = CompletionOptions_Dispatch \<or> opt = CompletionOptions_Passive)
                      \<and> NT_SUCCESS (fst (DMF_BufferPool_Get_result w))
                      \<and> (wc \<longrightarrow> NT_SUCCESS (WdfCollectionAdd_result w)))
                \<and> NT_SUCCESS (WdfRequestAllocateTimer_result w)"
  then have timer: "NT_SUCCESS (WdfRequestAllocateTimer_result w)"
    by simp
  from ok have "\<exists>mr ms d s6.
           RequestTarget_RequestSendReuse w c sync a opt wbw wc s =
             RequestTarget_RequestSendReuse_send w sync wbw wc r mr ms d s6
           \<and> extends (\<lambda>c. sent c = []) s s6
           \<and> RequestInUse (UniqueRequestContextGet s6 r) =
               RequestInUse (UniqueRequestContextGet
                 (UniqueRequestContext_update r (\<lambda>u. u\<lparr>RequestInUse := True\<rparr>) s) r)"
    by (intro SendReuse_reaches_send [OF found]) simp_all
  then obtain mr ms d s6 where eq: "RequestTarget_RequestSendReuse w c sync a opt wbw wc s =
             RequestTarget_RequestSendReuse_send w sync wbw wc r mr ms d s6"
    and Q: "extends (\<lambda>c. sent c = []) s s6"
    and inuse: "RequestInUse (UniqueRequestContextGet s6 r)"
    by (auto simp: UniqueRequestContext_update_def)
  show "concat (map sent (new_calls s (snd (RequestTarget_RequestSendReuse w c sync a opt wbw wc s)))) =
                  [(r, WdfRequestSend_result w)]"
    unfolding eq using Q SendReuse_send_sends [OF timer] by (rule sent_after)
  assume "WdfRequestSend_result w \<and> \<not> sync"
  then have acc: "WdfRequestSend_result w" "\<not> sync"
    by simp_all
  show "NT_SUCCESS (fst (fst (RequestTarget_RequestSendReuse w c sync a opt wbw wc s)))"
    unfolding eq using SendReuse_send_accepted [OF timer acc] by simp
  show "RequestInUse (UniqueRequestContextGet
          (snd (RequestTarget_RequestSendReuse w c sync a opt wbw wc s)) r)"
    unfolding eq using SendReuse_send_accepted [OF timer acc] inuse by simp
qed

theorem reuse_send_exclusive_witness:
  "RequestTarget_RequestSendReuse example_framework 1 False example_arguments
     CompletionOptions_Dispatch False True example_reuse_sent =
     ((STATUS_OBJECTID_NOT_FOUND, None, None), example_reuse_sent)
   \<and> snd (DMF_RequestTarget_ReuseSend example_framework 1 example_arguments True example_reuse_sent) =
       example_reuse_sent
   \<and> fst (RequestTarget_PendingCollectionReuseListSearch 1 example_reuse) = True
   \<and> RequestInUse (UniqueRequestContextGet
        (snd (snd (RequestTarget_PendingCollectionReuseListSearch 1 example_reuse))) 5)
   \<and> concat (map sent (new_calls example_reuse
        (snd (RequestTarget_RequestSendReuse example_framework 1 False example_arguments
                CompletionOptions_Dispatch False True example_reuse)))) = [(5, True)]
   \<and> RequestInUse (UniqueRequestContextGet
        (snd (RequestTarget_RequestSendReuse example_framework 1 False example_arguments
                CompletionOptions_Dispatch False True example_reuse)) 5)
   \<and> Calls (snd (RequestTarget_RequestSendReuse example_framework 1 False example_arguments
                CompletionOptions_Dispatch False True example_reuse)) =
       [Call_WdfRequestReuse 5, Call_WdfMemoryCreatePreallocated 11 5,
        Call_WdfMemoryCreatePreallocated 12 5,
        Call_WdfIoTargetFormatRequest 5 RequestType_Ioctl 11 12,
        Call_WdfRequestSetCompletionRoutine 5 CompletionRoutineReuse 21,
        Call_InterlockedIncrement64 2, Call_WdfRequestAllocateTimer 5,
        Call_WdfRequestSend 5 True]"
proof -
  have calls: "Calls (snd (RequestTarget_RequestSendReuse example_framework 1 False example_arguments
                CompletionOptions_Dispatch False True example_reuse)) =
       [Call_WdfRequestReuse 5, Call_WdfMemoryCreatePreallocated 11 5,
        Call_WdfMemoryCreatePreallocated 12 5,
        Call_WdfIoTargetFormatRequest 5 RequestType_Ioctl 11 12,
        Call_WdfRequestSetCompletionRoutine 5 CompletionRoutineReuse 21,
        Call_InterlockedIncrement64 2, Call_WdfRequestAllocateTimer 5,
        Call_WdfRequestSend 5 True]"
    by (simp add: worker_defs RequestTarget_PendingCollectionReuseListSearch_def
          ReuseListSearch_loop_find primitive_defs example_defs Let_def)
  show ?thesis
    using reuse_send_exclusive [of example_reuse_sent 1 5 example_framework False example_arguments
            CompletionOptions_Dispatch False True 2]
          reuse_send_exclusive [of example_reuse 1 5 example_framework False example_arguments
            CompletionOptions_Dispatch False True 2]
          calls
    by (simp add: example_reuse_sent_def example_reuse_def example_Module_def example_framework_def
          example_arguments_def UniqueRequestContext_update_def)
qed

section \<open>Cancellation\<close>

text \<open>
  Claim C3, as stated, fails while the Module is closing: DMF\_RequestTarget\_Cancel first
  takes the Module reference, and when that is refused it answers FALSE at once.  The
  request 7 is pending with the cancel identifier 3, the lookup would find it and the
  target would accept the cancellation, but the Method answers FALSE and the target is
  not asked.
\<close>

theorem cancel_refused_while_closing:
  "PendingSet example_pending = [7]
   \<and> UniqueRequestIdCancel (UniqueRequestContextGet example_pending 7) = 3
   \<and> RequestTarget_PendingCollectionListSearchAndReference 3 example_pending =
       (True, 7, record_call (Call_WdfObjectReference 7) example_pending)
   \<and> WdfRequestCancelSentRequest_result example_framework_closing = True
   \<and> DMF_RequestTarget_Cancel example_framework_closing 3 example_pending = (False, example_pending)"
proof (intro conjI)
  show "RequestTarget_PendingCollectionListSearchAndReference 3 example_pending =
       (True, 7, record_call (Call_WdfObjectReference 7) example_pending)"
    by (simp add: RequestTarget_PendingCollectionListSearchAndReference_def SearchAndReference_loop_find
          example_pending_def example_Module_def)
  show "DMF_RequestTarget_Cancel example_framework_closing 3 example_pending = (False, example_pending)"
    by (simp add: DMF_RequestTarget_Cancel_def DMF_ModuleReference_def example_framework_closing_def
          example_framework_def)
qed (simp_all add: example_pending_def example_Module_def example_framework_closing_def
       example_framework_def)

text \<open>
  Claim C3, amended.  When no request of the pending collection carries the cancel
  identifier \<open>c\<close>, DMF\_RequestTarget\_Cancel answers FALSE and the state is unchanged.
  When the Module reference is granted and \<open>r\<close> is the first pending request that
  carries \<open>c\<close>, the answer is exactly the answer of WdfRequestCancelSentRequest on
  \<open>r\<close>, made between taking and dropping a reference on \<open>r\<close>.  When the Module
  reference is refused, the answer is FALSE and the state is unchanged, whatever is
  pending.
\<close>

theorem cancel_unknown_or_targets_answer:
  "((\<forall>r \<in> set (PendingSet s). UniqueRequestIdCancel (UniqueRequestContextGet s r) \<noteq> c) \<longrightarrow>
      DMF_RequestTarget_Cancel w c s = (False, s))
   \<and> (NT_SUCCESS (DMF_ModuleReference_result w) \<and> NULL \<notin> set (PendingSet s) \<and>
      find (\<lambda>r. UniqueRequestIdCancel (UniqueRequestContextGet s r) = c) (PendingSet s) = Some r \<longrightarrow>
      DMF_RequestTarget_Cancel w c s =
        (WdfRequestCancelSentRequest_result w,
         s\<lparr>Calls := Calls s @
             [Call_WdfObjectReference r,
              Call_WdfRequestCancelSentRequest r (WdfRequestCancelSentRequest_result w),
              Call_WdfObjectDereference r]\<rparr>))
   \<and> (\<not> NT_SUCCESS (DMF_ModuleReference_result w) \<longrightarrow>
      DMF_RequestTarget_Cancel w c s = (False, s))"
proof (intro conjI impI)
  assume "\<forall>r \<in> set (PendingSet s). UniqueRequestIdCancel (UniqueRequestContextGet s r) \<noteq> c"
  then have "SearchAndReference_loop (UniqueRequestContextGet s) c (PendingSet s) 0 = (False, NULL)"
    by (rule SearchAndReference_loop_none)
  then show "DMF_RequestTarget_Cancel w c s = (False, s)"
    by (simp add: DMF_RequestTarget_Cancel_def DMF_ModuleReference_def
          RequestTarget_PendingCollectionListSearchAndReference_def Let_def)
next
  assume a: "NT_SUCCESS (DMF_ModuleReference_result w) \<and> NULL \<notin> set (PendingSet s) \<and>
      find (\<lambda>r. UniqueRequestIdCancel (UniqueRequestContextGet s r) = c) (PendingSet s) = Some r"
  then have "SearchAndReference_loop (UniqueRequestContextGet s) c (PendingSet s) 0 = (True, r)"
    by (simp add: SearchAndReference_loop_find)
  with a show "DMF_RequestTarget_Cancel w c s =
        (WdfRequestCancelSentRequest_result w,
         s\<lparr>Calls := Calls s @
             [Call_WdfObjectReference r,
              Call_WdfRequestCancelSentRequest r (WdfRequestCancelSentRequest_result w),
              Call_WdfObjectDereference r]\<rparr>)"
    by (simp add: DMF_RequestTarget_Cancel_def DMF_ModuleReference_def DMF_ModuleDereference_def
          RequestTarget_PendingCollectionListSearchAndReference_def Let_def record_call_def)
next
  assume "\<not> NT_SUCCESS (DMF_ModuleReference_result w)"
  then show "DMF_RequestTarget_Cancel w c s = (False, s)"
    by (simp add: DMF_RequestTarget_Cancel_def DMF_ModuleReference_def Let_def)
qed

theorem cancel_unknown_or_targets_answer_witness:
  "DMF_RequestTarget_Cancel example_framework 0 example_pending = (False, example_pending)
   \<and> DMF_RequestTarget_Cancel example_framework 2 example_pending = (False, example_pending)
   \<and> fst (DMF_RequestTarget_Cancel example_framework 3 example_pending) = True
   \<and> Calls (snd (DMF_RequestTarget_Cancel example_framework 3 example_pending)) =
       [Call_WdfObjectReference 7, Call_WdfRequestCancelSentRequest 7 True, Call_WdfObjectDereference 7]
   \<and> DMF_RequestTarget_Cancel example_framework_closing 3 example_pending = (False, example_pending)"
  using cancel_unknown_or_targets_answer [of example_pending 0 example_framework]
        cancel_unknown_or_targets_answer [of example_pending 2 example_framework]
        cancel_unknown_or_targets_answer [of example_pending 3 example_framework 7]
        cancel_unknown_or_targets_answer [of example_pending 3 example_framework_closing 7]
  by (simp add: example_pending_def example_Module_def example_framework_def
        example_framework_closing_def)

section \<open>Deleting a reusable request\<close>

text \<open>
  Claim C7, as stated, fails: DMF\_RequestTarget\_ReuseDelete looks the request up with
  the same search as a send.  For a request that is in use the search answers FALSE, so
  the Method answers FALSE although the identifier is in the collection, and the request
  stays there; for a request that is not in use the search marks it in use.
\<close>

theorem reuse_delete_refuses_slot_in_use:
  "find (\<lambda>x. UniqueRequestIdReuse (UniqueRequestContextGet example_reuse_sent x) = 1)
     (ReuseSet example_reuse_sent) = Some 5
   \<and> DMF_RequestTarget_ReuseDelete 1 example_reuse_sent = (False, example_reuse_sent)
   \<and> ReuseSet (snd (DMF_RequestTarget_ReuseDelete 1 example_reuse_sent)) = [5]
   \<and> RequestInUse (UniqueRequestContextGet (snd (DMF_RequestTarget_ReuseDelete 1 example_reuse)) 5)"
proof -
  have a: "RequestTarget_PendingCollectionReuseListSearch 1 example_reuse_sent =
             (False, NULL, example_reuse_sent)"
    by (rule ReuseListSearch_in_use [where r = 5])
       (simp_all add: example_reuse_sent_def example_Module_def)
  have b: "RequestTarget_PendingCollectionReuseListSearch 1 example_reuse =
             (True, 5, UniqueRequestContext_update 5 (\<lambda>u. u\<lparr>RequestInUse := True\<rparr>) example_reuse)"
    by (rule ReuseListSearch_free) (simp_all add: example_reuse_def example_Module_def)
  show ?thesis
    by (simp add: DMF_RequestTarget_ReuseDelete_def a b primitive_defs case_prod_beta)
       (simp add: example_reuse_sent_def example_reuse_def example_Module_def)
qed

text \<open>
  Claim C7, amended.  DMF\_RequestTarget\_ReuseDelete looks the identifier up with the
  search that a send uses.  If the request found is not in use, the search marks it in
  use, the request is removed from the reuse collection and deleted, and the answer is
  TRUE.  If the request found is in use, or no request carries the identifier, the answer
  is FALSE and the state is unchanged.
\<close>

theorem reuse_delete_free_slot_only:
  assumes "NULL \<notin> set (ReuseSet s)"
  shows "(find (\<lambda>x. UniqueRequestIdReuse (UniqueRequestContextGet s x) = c) (ReuseSet s) = Some r
          \<and> \<not> RequestInUse (UniqueRequestContextGet s r) \<longrightarrow>
            fst (DMF_RequestTarget_ReuseDelete c s) = True
            \<and> ReuseSet (snd (DMF_RequestTarget_ReuseDelete c s)) = remove1 r (ReuseSet s)
            \<and> Calls (snd (DMF_RequestTarget_ReuseDelete c s)) =
                Calls s @ [Call_WdfObjectDelete r, Call_WdfObjectDereference r]
            \<and> RequestInUse (UniqueRequestContextGet (snd (DMF_RequestTarget_ReuseDelete c s)) r))
       \<and> (find (\<lambda>x. UniqueRequestIdReuse (UniqueRequestContextGet s x) = c) (ReuseSet s) = Some r
          \<and> RequestInUse (UniqueRequestContextGet s r) \<longrightarrow>
            DMF_RequestTarget_ReuseDelete c s = (False, s))
       \<and> ((\<forall>x \<in> set (ReuseSet s). UniqueRequestIdReuse (UniqueRequestContextGet s x) \<noteq> c) \<longrightarrow>
            DMF_RequestTarget_ReuseDelete c s = (False, s))"
proof (intro conjI impI)
  assume a: "find (\<lambda>x. UniqueRequestIdReuse (UniqueRequestContextGet s x) = c) (ReuseSet s) = Some r
          \<and> \<not> RequestInUse (UniqueRequestContextGet s r)"
  then have mem: "r \<in> set (ReuseSet s)"
    by (auto simp: find_Some_iff)
  with assms have nz: "r \<noteq> NULL"
    by metis
  have found: "RequestTarget_PendingCollectionReuseListSearch c s =
          (True, r, UniqueRequestContext_update r (\<lambda>u. u\<lparr>RequestInUse := True\<rparr>) s)"
    using assms a by (simp add: ReuseListSearch_free)
  have loop: "SearchAndRemove_loop r (ReuseSet s) 0 = (True, remove1 r (ReuseSet s))"
    using assms nz mem by (simp add: SearchAndRemove_loop_remove1)
  show "fst (DMF_RequestTarget_ReuseDelete c s) = True"
    using nz by (simp add: DMF_RequestTarget_ReuseDelete_def found primitive_defs loop)
  show "ReuseSet (snd (DMF_RequestTarget_ReuseDelete c s)) = remove1 r (ReuseSet s)"
    using nz by (simp add: DMF_RequestTarget_ReuseDelete_def found primitive_defs loop)
  show "Calls (snd (DMF_RequestTarget_ReuseDelete c s)) =
          Calls s @ [Call_WdfObjectDelete r, Call_WdfObjectDereference r]"
    using nz by (simp add: DMF_RequestTarget_ReuseDelete_def found primitive_defs loop)
  show "RequestInUse (UniqueRequestContextGet (snd (DMF_RequestTarget_ReuseDelete c s)) r)"
    using nz by (simp add: DMF_RequestTarget_ReuseDelete_def found primitive_defs loop)
next
  assume "find (\<lambda>x. UniqueRequestIdReuse (UniqueRequestContextGet s x) = c) (ReuseSet s) = Some r
          \<and> RequestInUse (UniqueRequestContextGet s r)"
  with assms have "RequestTarget_PendingCollectionReuseListSearch c s = (False, NULL, s)"
    by (simp add: ReuseListSearch_in_use)
  then show "DMF_RequestTarget_ReuseDelete c s = (False, s)"
    by (simp add: DMF_RequestTarget_ReuseDelete_def)
next
  assume "\<forall>x \<in> set (ReuseSet s). UniqueRequestIdReuse (UniqueRequestContextGet s x) \<noteq> c"
  then have "RequestTarget_PendingCollectionReuseListSearch c s = (False, NULL, s)"
    by (rule ReuseListSearch_unknown)
  then show "DMF_RequestTarget_ReuseDelete c s = (False, s)"
    by (simp add: DMF_RequestTarget_ReuseDelete_def)
qed

theorem reuse_delete_free_slot_only_witness:
  "fst (DMF_RequestTarget_ReuseDelete 1 example_reuse) = True
   \<and> ReuseSet (snd (DMF_RequestTarget_ReuseDelete 1 example_reuse)) = []
   \<and> Calls (snd (DMF_RequestTarget_ReuseDelete 1 example_reuse)) =
       [Call_WdfObjectDelete 5, Call_WdfObjectDereference 5]
   \<and> DMF_RequestTarget_ReuseDelete 1 example_reuse_sent = (False, example_reuse_sent)
   \<and> DMF_RequestTarget_ReuseDelete 4 example_reuse = (False, example_reuse)"
  using reuse_delete_free_slot_only [of example_reuse 1 5]
        reuse_delete_free_slot_only [of example_reuse_sent 1 5]
        reuse_delete_free_slot_only [of example_reuse 4 5]
  by (simp add: example_reuse_def example_reuse_sent_def example_Module_def)

section \<open>A failed reuse-send frees the slot\<close>

text \<open>
  Claim C10.  Let RequestTarget\_RequestSendReuse find the request \<open>r\<close> for the reuse
  identifier \<open>c\<close> and mark it in use.  If during the call no WdfRequestSend on \<open>r\<close>
  answered TRUE, or if the send is asynchronous and the function returns a failure
  status, then RequestInUse of \<open>r\<close> is FALSE again when the function returns, and a
  following lookup of \<open>c\<close> succeeds and finds \<open>r\<close>.
\<close>

theorem reuse_send_failure_frees_slot:
  assumes null: "NULL \<notin> set (ReuseSet s)"
    and distinct: "PendingAsynchronousRequests s \<noteq> PendingReuseRequests s"
    and found: "find (\<lambda>x. UniqueRequestIdReuse (UniqueRequestContextGet s x) = c) (ReuseSet s) = Some r"
    and free: "\<not> RequestInUse (UniqueRequestContextGet s r)"
    and result: "RequestTarget_RequestSendReuse w c sync a opt wbw wc s = ((st, bw, co), s')"
  shows "Call_WdfRequestSend r True \<notin> set (new_calls s s') \<or> (\<not> sync \<and> \<not> NT_SUCCESS st) \<longrightarrow>
           \<not> RequestInUse (UniqueRequestContextGet s' r)
           \<and> RequestTarget_PendingCollectionReuseListSearch c s' =
               (True, r, UniqueRequestContext_update r (\<lambda>u. u\<lparr>RequestInUse := True\<rparr>) s')"
proof
  assume h: "Call_WdfRequestSend r True \<notin> set (new_calls s s') \<or> (\<not> sync \<and> \<not> NT_SUCCESS st)"
  let ?s1 = "UniqueRequestContext_update r (\<lambda>u. u\<lparr>RequestInUse := True\<rparr>) s"
  let ?R = "\<lambda>x y. frame x y \<and> extends (\<lambda>c. \<forall>x b. c \<noteq> Call_WdfRequestSend x b) x y"
  let ?P = "\<lambda>res. frame ?s1 (snd res) \<and>
              (Call_WdfRequestSend r True \<notin> set (new_calls s (snd res))
                 \<or> (\<not> sync \<and> \<not> NT_SUCCESS (fst (fst res))) \<longrightarrow>
               \<not> RequestInUse (UniqueRequestContextGet (snd res) r))"
  from found have mem: "r \<in> set (ReuseSet s)"
    by (auto simp: find_Some_iff)
  with null have nz: "r \<noteq> NULL"
    by metis
  have search: "RequestTarget_PendingCollectionReuseListSearch c s = (True, r, ?s1)"
    using null found free by (rule ReuseListSearch_free)
  have calls1: "Calls ?s1 = Calls s"
    by (simp add: UniqueRequestContext_update_def)
  have "?P (RequestTarget_RequestSendReuse w c sync a opt wbw wc s)"
  proof (rule SendReuse_paths [where R = ?R and P = ?P, OF _ _ _ _ search])
    show "\<And>x y z. ?R x y \<Longrightarrow> ?R y z \<Longrightarrow> ?R x z"
      by (meson frame_trans extends_trans)
    show "\<And>x. ?R x (record_call (Call_WdfRequestReuse r) x)"
      by (simp add: record_call_frame record_call_extends)
    show "\<And>n res x m y. memory_for n res r x = Inr (m, y) \<Longrightarrow> ?R x y"
      by (simp add: memory_for_frame memory_for_extends)
    show "\<And>t m1 m2 x st y.
          RequestTarget_FormatRequestForRequestType w r t m1 m2 x = (st, y) \<Longrightarrow> ?R x y"
      by (simp add: Format_frame Format_extends)
    have exit: "?P (RequestTarget_RequestSendReuse_Exit True r m1 m2 wbw 0 st None x)"
      if R: "?R ?s1 x" for m1 m2 st x
    proof (intro conjI impI)
      show "frame ?s1 (snd (RequestTarget_RequestSendReuse_Exit True r m1 m2 wbw 0 st None x))"
        by (rule frame_trans [OF conjunct1 [OF R] SendReuse_Exit_frame])
      show "\<not> RequestInUse (UniqueRequestContextGet
              (snd (RequestTarget_RequestSendReuse_Exit True r m1 m2 wbw 0 st None x)) r)"
        using nz by (rule SendReuse_Exit_abort)
    qed
    show "\<And>m1 m2 st x. ?R ?s1 x \<Longrightarrow>
          ?P (RequestTarget_RequestSendReuse_Exit True r m1 m2 wbw 0 st None x)"
      by (rule exit)
    show "?P (RequestTarget_RequestSendReuse_Exit True r m1 m2 wbw 0 st None x)"
      if R0: "?R ?s1 x0"
        and p: "RequestTarget_RequestSendReuse_prepare w sync a opt wc r x0 = Inl (st, x)"
      for m1 m2 st x0 x
    proof (rule exit)
      show "?R ?s1 x"
        using R0 SendReuse_prepare_frame(1) [OF p] SendReuse_prepare_extends(1) [OF p]
        by (meson frame_trans extends_trans)
    qed
    show "?P (RequestTarget_RequestSendReuse_send w sync wbw wc r m1 m2 d x)"
      if R0: "?R ?s1 x0"
        and p: "RequestTarget_RequestSendReuse_prepare w sync a opt wc r x0 = Inr (d, x)"
      for m1 m2 d x0 x
    proof (intro conjI impI)
      have R: "?R ?s1 x"
        using R0 SendReuse_prepare_frame(2) [OF p] SendReuse_prepare_extends(2) [OF p]
        by (meson frame_trans extends_trans)
      let ?res = "RequestTarget_RequestSendReuse_send w sync wbw wc r m1 m2 d x"
      show "frame ?s1 (snd ?res)"
        by (rule frame_trans [OF conjunct1 [OF R] SendReuse_send_frame])
      assume "Call_WdfRequestSend r True \<notin> set (new_calls s (snd ?res))
                \<or> (\<not> sync \<and> \<not> NT_SUCCESS (fst (fst ?res)))"
      then have "Call_WdfRequestSend r True \<notin> set (new_calls x (snd ?res))"
      proof
        assume n: "Call_WdfRequestSend r True \<notin> set (new_calls s (snd ?res))"
        from R have "extends (\<lambda>c. \<forall>x b. c \<noteq> Call_WdfRequestSend x b) s x"
          by (simp add: extends_def calls1)
        from new_calls_suffix [OF this SendReuse_send_extends] n
        show ?thesis by blast
      next
        assume "\<not> sync \<and> \<not> NT_SUCCESS (fst (fst ?res))"
        then show ?thesis
          using SendReuse_send_asynchronous_failure [of w wbw wc r m1 m2 d x] by auto
      qed
      with nz show "\<not> RequestInUse (UniqueRequestContextGet (snd ?res) r)"
        by (rule SendReuse_send_not_sent)
    qed
  qed
  with result h have fr: "frame ?s1 s'" and nu: "\<not> RequestInUse (UniqueRequestContextGet s' r)"
    by simp_all
  from fr distinct have same: "ReuseSet s' = ReuseSet s"
    by (simp add: frame_def UniqueRequestContext_update_def)
  from fr have ids: "\<And>x. UniqueRequestIdReuse (UniqueRequestContextGet s' x) =
                       UniqueRequestIdReuse (UniqueRequestContextGet s x)"
    by (simp add: frame_def UniqueRequestContext_update_def)
  have "RequestTarget_PendingCollectionReuseListSearch c s' =
          (True, r, UniqueRequestContext_update r (\<lambda>u. u\<lparr>RequestInUse := True\<rparr>) s')"
    using null found nu by (intro ReuseListSearch_free) (simp_all add: same ids)
  with nu show "\<not> RequestInUse (UniqueRequestContextGet s' r)
           \<and> RequestTarget_PendingCollectionReuseListSearch c s' =
               (True, r, UniqueRequestContext_update r (\<lambda>u. u\<lparr>RequestInUse := True\<rparr>) s')"
    by simp
qed

theorem reuse_send_failure_frees_slot_witness:
  "\<not> RequestInUse (UniqueRequestContextGet
       (snd (RequestTarget_RequestSendReuse example_framework_send_fails 1 False example_arguments
               CompletionOptions_Dispatch False True example_reuse)) 5)
   \<and> fst (RequestTarget_PendingCollectionReuseListSearch 1
       (snd (RequestTarget_RequestSendReuse example_framework_send_fails 1 False example_arguments
               CompletionOptions_Dispatch False True example_reuse))) = True"
proof -
  let ?X = "RequestTarget_RequestSendReuse example_framework_send_fails 1 False example_arguments
               CompletionOptions_Dispatch False True example_reuse"
  have search: "RequestTarget_PendingCollectionReuseListSearch 1 example_reuse =
          (True, 5, UniqueRequestContext_update 5 (\<lambda>u. u\<lparr>RequestInUse := True\<rparr>) example_reuse)"
    by (rule ReuseListSearch_free) (simp_all add: example_reuse_def example_Module_def)
  have status: "\<not> NT_SUCCESS (fst (fst ?X))"
    by (simp add: worker_defs RequestTarget_PendingCollectionReuseListSearch_def
          ReuseListSearch_loop_find primitive_defs example_defs Let_def
          SearchAndRemove_loop_remove1)
  have result: "?X = ((fst (fst ?X), fst (snd (fst ?X)), snd (snd (fst ?X))), snd ?X)"
    by simp
  show ?thesis
    using reuse_send_failure_frees_slot [of example_reuse 1 5 example_framework_send_fails False
            example_arguments CompletionOptions_Dispatch False True, OF _ _ _ _ result] status
    by (simp add: example_reuse_def example_Module_def)
qed

section \<open>Uniqueness of the identifiers\<close>

text \<open>
  Claim C1, as stated, fails: the counter is a 64-bit integer and InterlockedIncrement64
  wraps.  After 2^64 rounds of creating and deleting a reusable request the counter
  is back at its first value, so the next DMF\_RequestTarget\_ReuseCreate hands out the
  reuse identifier 1 again, which the very first create had handed out; the identifiers
  drawn in 2^64 + 1 rounds are not pairwise distinct.
\<close>

theorem identifier_repeats_after_wrap:
  "\<not> distinct (issued (new_calls example_Module
        (history (\<lambda>f arguments. []) (rounds (2 ^ 64 + 1)) example_Module)))
   \<and> fst (DMF_RequestTarget_ReuseCreate example_framework example_Module) = (STATUS_SUCCESS, 1)
   \<and> fst (DMF_RequestTarget_ReuseCreate example_framework
        (history (\<lambda>f arguments. []) (rounds (2 ^ 64)) example_Module)) = (STATUS_SUCCESS, 1)"
proof (intro conjI)
  let ?m = "2 ^ 64 + 1 :: nat"
  let ?f = "of_nat :: nat \<Rightarrow> 64 word"
  have i: "issued (new_calls example_Module (history (\<lambda>f arguments. []) (rounds ?m) example_Module)) =
             map ?f [1..<Suc ?m]"
    using rounds_history [of "\<lambda>f arguments. []" ?m]
    by (simp add: new_calls_def example_Module_def)
  have "\<not> inj_on ?f (set [1..<Suc ?m])"
  proof
    assume "inj_on ?f (set [1..<Suc ?m])"
    moreover have "1 \<in> set [1..<Suc ?m]" "?m \<in> set [1..<Suc ?m]"
      by simp_all
    moreover have "?f 1 = ?f ?m"
      by simp
    ultimately have "1 = ?m"
      by (metis inj_onD)
    then show False
      by simp
  qed
  then show "\<not> distinct (issued (new_calls example_Module
        (history (\<lambda>f arguments. []) (rounds ?m) example_Module)))"
    unfolding i by (simp add: distinct_map)
  show "fst (DMF_RequestTarget_ReuseCreate example_framework example_Module) = (STATUS_SUCCESS, 1)"
    by (simp add: DMF_RequestTarget_ReuseCreate_def primitive_defs example_defs Let_def)
  let ?s = "history (\<lambda>f arguments. []) (rounds (2 ^ 64)) example_Module"
  have "g_ContinuousRequestTargetUniqueId ?s = 0"
    using rounds_history [of "\<lambda>f arguments. []" "2 ^ 64"] by simp
  then show "fst (DMF_RequestTarget_ReuseCreate example_framework ?s) = (STATUS_SUCCESS, 1)"
    by (simp add: DMF_RequestTarget_ReuseCreate_def primitive_defs example_framework_def Let_def)
qed

text \<open>
  Claim C1, amended.  In every history of a Module (Method calls of the client and of
  its completion callbacks, completions, workitem runs, draws by other Modules) the
  identifiers drawn are the successors of the counter's value at the start, one atomic
  increment each, and they are pairwise distinct as long as fewer than 2^64 of them are
  drawn, whatever was deleted in between.  The reuse identifier that a successful
  DMF\_RequestTarget\_ReuseCreate returns and the cancel identifier that
  DMF\_RequestTarget\_SendEx or DMF\_RequestTarget\_ReuseSend writes are such drawn
  identifiers: each is the one identifier drawn during that call.
\<close>

theorem identifiers_never_repeat:
  "(\<exists>n. g_ContinuousRequestTargetUniqueId (history script events s) =
          g_ContinuousRequestTargetUniqueId s + of_nat n
       \<and> issued (new_calls s (history script events s)) =
          map (\<lambda>k. g_ContinuousRequestTargetUniqueId s + of_nat k) [1..<Suc n]
       \<and> (n < 2 ^ 64 \<longrightarrow> distinct (issued (new_calls s (history script events s)))))
   \<and> (NT_SUCCESS (fst (fst (DMF_RequestTarget_ReuseCreate w s))) \<longrightarrow>
        issued (new_calls s (snd (DMF_RequestTarget_ReuseCreate w s))) =
          [snd (fst (DMF_RequestTarget_ReuseCreate w s))])
   \<and> (snd (snd (fst (DMF_RequestTarget_SendEx w a wantCancel s))) = Some tok \<longrightarrow>
        issued (new_calls s (snd (DMF_RequestTarget_SendEx w a wantCancel s))) = [tok])
   \<and> (snd (snd (fst (DMF_RequestTarget_ReuseSend w c a wantCancel s))) = Some tok \<longrightarrow>
        issued (new_calls s (snd (DMF_RequestTarget_ReuseSend w c a wantCancel s))) = [tok])"
proof (intro conjI impI)
  let ?n = "length (issued (new_calls s (history script events s)))"
  have e: "evolves True s (history script events s)"
    by (rule history_evolves) simp
  then have i: "issued (new_calls s (history script events s)) =
          map (\<lambda>k. g_ContinuousRequestTargetUniqueId s + of_nat k) [1..<Suc ?n]"
    and g: "g_ContinuousRequestTargetUniqueId (history script events s) =
          g_ContinuousRequestTargetUniqueId s + of_nat ?n"
    unfolding evolves_def by blast+
  have "?n < 2 ^ 64 \<longrightarrow> distinct (issued (new_calls s (history script events s)))"
    using i distinct_consecutive by metis
  with i g show "\<exists>n. g_ContinuousRequestTargetUniqueId (history script events s) =
          g_ContinuousRequestTargetUniqueId s + of_nat n
       \<and> issued (new_calls s (history script events s)) =
          map (\<lambda>k. g_ContinuousRequestTargetUniqueId s + of_nat k) [1..<Suc n]
       \<and> (n < 2 ^ 64 \<longrightarrow> distinct (issued (new_calls s (history script events s))))"
    by blast
qed (simp_all add: ReuseCreate_written SendEx_written ReuseSend_written)

theorem identifiers_never_repeat_witness:
  "issued (new_calls example_Module (history (\<lambda>f arguments. []) example_history example_Module)) = [1, 2]
   \<and> distinct (issued (new_calls example_Module (history (\<lambda>f arguments. []) example_history example_Module)))
   \<and> fst (DMF_RequestTarget_ReuseCreate example_framework example_Module) = (STATUS_SUCCESS, 1)
   \<and> issued (new_calls example_Module (snd (DMF_RequestTarget_ReuseCreate example_framework example_Module))) = [1]"
proof -
  let ?h = "history (\<lambda>f arguments. []) example_history example_Module"
  have ev: "issued (new_calls example_Module ?h) = [1, 2]"
    by (simp add: history_def example_history_def DMF_RequestTarget_ReuseCreate_def
          DMF_RequestTarget_ReuseDelete_def RequestTarget_PendingCollectionReuseListSearch_def
          ReuseListSearch_loop_find SearchAndRemove_loop_remove1
          new_calls_def primitive_defs example_defs Let_def)
  have rc: "fst (DMF_RequestTarget_ReuseCreate example_framework example_Module) = (STATUS_SUCCESS, 1)"
    by (simp add: DMF_RequestTarget_ReuseCreate_def primitive_defs example_defs Let_def)
  from identifiers_never_repeat [of "\<lambda>f arguments. []" example_history example_Module
         example_framework example_arguments True 0 0]
  obtain n where n: "issued (new_calls example_Module ?h) =
          map (\<lambda>k. g_ContinuousRequestTargetUniqueId example_Module + of_nat k) [1..<Suc n]"
    and d: "n < 2 ^ 64 \<longrightarrow> distinct (issued (new_calls example_Module ?h))"
    and c: "NT_SUCCESS (fst (fst (DMF_RequestTarget_ReuseCreate example_framework example_Module))) \<longrightarrow>
        issued (new_calls example_Module (snd (DMF_RequestTarget_ReuseCreate example_framework example_Module))) =
          [snd (fst (DMF_RequestTarget_ReuseCreate example_framework example_Module))]"
    by blast
  from n have "length (issued (new_calls example_Module ?h)) = n"
    by simp
  with ev have "n = 2"
    by simp
  with d have "distinct (issued (new_calls example_Module ?h))"
    by simp
  with ev rc c show ?thesis
    by simp
qed

section \<open>Completion of a reusable request\<close>

text \<open>
  Claim C4.  Let the request \<open>request\<close> be in the reuse collection with the reuse
  identifier \<open>c\<close>.  RequestTarget\_ProcessAsynchronousRequestSingleReuse, the completion
  dispatch of a reusable request, hands the client's callback a state \<open>pre\<close> in which
  RequestInUse of the request is already FALSE: whatever the callback does, the dispatch
  is the callback run on \<open>pre\<close>, followed by DMF\_BufferPool\_Put and
  DMF\_ModuleDereference.  In \<open>pre\<close> the lookup of \<open>c\<close> finds the request, and a
  RequestTarget\_RequestSendReuse of \<open>c\<close> from there is not rejected: it goes on to
  WdfRequestReuse on the request.
\<close>

theorem in_use_cleared_before_callback:
  assumes null: "NULL \<notin> set (ReuseSet s)"
    and distinct: "PendingAsynchronousRequests s \<noteq> PendingReuseRequests s"
    and found: "find (\<lambda>x. UniqueRequestIdReuse (UniqueRequestContextGet s x) = c) (ReuseSet s) = Some request"
  shows "\<exists>pre arguments.
           \<not> RequestInUse (UniqueRequestContextGet pre request)
           \<and> RequestTarget_PendingCollectionReuseListSearch c pre =
               (True, request, UniqueRequestContext_update request (\<lambda>u. u\<lparr>RequestInUse := True\<rparr>) pre)
           \<and> (\<forall>w' sync a opt wbw wc. \<exists>rest.
                 Calls (snd (RequestTarget_RequestSendReuse w' c sync a opt wbw wc pre)) =
                   Calls pre @ Call_WdfRequestReuse request # rest)
           \<and> (\<forall>client.
                RequestTarget_ProcessAsynchronousRequestSingleReuse client w request ctx s =
                  DMF_ModuleDereference
                    (DMF_BufferPool_Put ctx
                       (if EvtRequestTargetSingleAsynchronousRequest (BufferPoolContents s ctx) \<noteq> NULL
                        then client (EvtRequestTargetSingleAsynchronousRequest (BufferPoolContents s ctx))
                               arguments pre
                        else pre)))"
proof -
  define s1 where "s1 =
    snd (RequestTarget_PendingCollectionListSearchAndRemove request (PendingAsynchronousRequests s) s)"
  define pre where "pre = UniqueRequestContext_update request (\<lambda>u. u\<lparr>RequestInUse := False\<rparr>) s1"
  define buffers where "buffers =
    RequestTarget_CompletionParamsInputBufferAndOutputBufferGet (WdfMemoryGetBuffer w)
      (WdfRequestGetCompletionParams_result w) (SingleAsynchronousRequestType (BufferPoolContents s ctx))"
  define arguments where "arguments =
    \<lparr>ClientContext = SingleAsynchronousCallbackClientContext (BufferPoolContents s ctx),
     InputBuffer = fst buffers, InputBufferSize = fst (snd buffers),
     OutputBuffer = fst (snd (snd buffers)), OutputBufferSize = snd (snd (snd buffers)),
     CompletionStatus = WdfRequestGetStatus_result w\<rparr>"
  have same: "ReuseSet pre = ReuseSet s"
    using distinct
    by (simp add: pre_def s1_def RequestTarget_PendingCollectionListSearchAndRemove_def
          UniqueRequestContext_update_def case_prod_beta)
  have ids: "\<And>x. UniqueRequestIdReuse (UniqueRequestContextGet pre x) =
                 UniqueRequestIdReuse (UniqueRequestContextGet s x)"
    by (simp add: pre_def s1_def RequestTarget_PendingCollectionListSearchAndRemove_def
          UniqueRequestContext_update_def case_prod_beta)
  have free: "\<not> RequestInUse (UniqueRequestContextGet pre request)"
    by (simp add: pre_def UniqueRequestContext_update_def)
  have search: "RequestTarget_PendingCollectionReuseListSearch c pre =
          (True, request, UniqueRequestContext_update request (\<lambda>u. u\<lparr>RequestInUse := True\<rparr>) pre)"
    using null found free by (intro ReuseListSearch_free) (simp_all add: same ids)
  have send: "\<exists>rest. Calls (snd (RequestTarget_RequestSendReuse w' c sync a opt wbw wc pre)) =
                   Calls pre @ Call_WdfRequestReuse request # rest" for w' sync a opt wbw wc
  proof -
    have "prefix (Calls pre @ [Call_WdfRequestReuse request])
            (Calls (snd (RequestTarget_RequestSendReuse w' c sync a opt wbw wc pre)))"
      using SendReuse_after_search_calls [OF search, of w' sync a opt wbw wc]
      by (simp add: UniqueRequestContext_update_def)
    then show ?thesis
      by (auto simp: prefix_def)
  qed
  have root: "RequestTarget_ProcessAsynchronousRequestSingleReuse client w request ctx s =
                  DMF_ModuleDereference
                    (DMF_BufferPool_Put ctx
                       (if EvtRequestTargetSingleAsynchronousRequest (BufferPoolContents s ctx) \<noteq> NULL
                        then client (EvtRequestTargetSingleAsynchronousRequest (BufferPoolContents s ctx))
                               arguments pre
                        else pre))" for client
    unfolding pre_def s1_def arguments_def buffers_def RequestTarget_ProcessAsynchronousRequestSingleReuse_def
    by (simp add: Root_callback)
  show ?thesis
    apply (rule exI [of _ pre])
    apply (rule exI [of _ arguments])
    apply (intro conjI allI)
       apply (rule free)
      apply (rule search)
     apply (rule send)
    apply (rule root)
    done
qed

theorem in_use_cleared_before_callback_witness:
  "(\<exists>pre arguments.
      \<not> RequestInUse (UniqueRequestContextGet pre 5)
      \<and> RequestTarget_ProcessAsynchronousRequestSingleReuse (scripted_client example_resend)
          example_framework 5 21 example_reuse_sent =
          DMF_ModuleDereference (DMF_BufferPool_Put 21 (scripted_client example_resend 50 arguments pre)))
   \<and> RequestInUse (UniqueRequestContextGet example_reuse_sent 5)
   \<and> Calls (RequestTarget_ProcessAsynchronousRequestSingleReuse (scripted_client example_resend)
        example_framework 5 21 example_reuse_sent) =
       [Call_WdfRequestReuse 5, Call_WdfMemoryCreatePreallocated 11 5,
        Call_WdfMemoryCreatePreallocated 12 5,
        Call_WdfIoTargetFormatRequest 5 RequestType_Ioctl 11 12,
        Call_WdfRequestSetCompletionRoutine 5 CompletionRoutineReuse 21,
        Call_WdfRequestAllocateTimer 5, Call_WdfRequestSend 5 True]"
proof (intro conjI)
  have null: "NULL \<notin> set (ReuseSet example_reuse_sent)"
    by (simp add: example_defs)
  have distinct: "PendingAsynchronousRequests example_reuse_sent \<noteq> PendingReuseRequests example_reuse_sent"
    by (simp add: example_defs)
  have found: "find (\<lambda>x. UniqueRequestIdReuse (UniqueRequestContextGet example_reuse_sent x) = 1)
                 (ReuseSet example_reuse_sent) = Some 5"
    by (simp add: example_defs)
  have cb: "EvtRequestTargetSingleAsynchronousRequest (BufferPoolContents example_reuse_sent 21) = 50"
    by (simp add: example_defs)
  from in_use_cleared_before_callback [OF null distinct found, of example_framework 21]
  obtain pre arguments where free: "\<not> RequestInUse (UniqueRequestContextGet pre 5)"
    and root: "\<forall>client.
          RequestTarget_ProcessAsynchronousRequestSingleReuse client example_framework 5 21 example_reuse_sent =
            DMF_ModuleDereference
              (DMF_BufferPool_Put 21
                 (if EvtRequestTargetSingleAsynchronousRequest (BufferPoolContents example_reuse_sent 21) \<noteq> NULL
                  then client (EvtRequestTargetSingleAsynchronousRequest (BufferPoolContents example_reuse_sent 21))
                         arguments pre
                  else pre))"
    by blast
  from root have "RequestTarget_ProcessAsynchronousRequestSingleReuse (scripted_client example_resend)
          example_framework 5 21 example_reuse_sent =
          DMF_ModuleDereference (DMF_BufferPool_Put 21 (scripted_client example_resend 50 arguments pre))"
    by (simp add: cb)
  with free show "\<exists>pre arguments.
      \<not> RequestInUse (UniqueRequestContextGet pre 5)
      \<and> RequestTarget_ProcessAsynchronousRequestSingleReuse (scripted_client example_resend)
          example_framework 5 21 example_reuse_sent =
          DMF_ModuleDereference (DMF_BufferPool_Put 21 (scripted_client example_resend 50 arguments pre))"
    by blast
  show "RequestInUse (UniqueRequestContextGet example_reuse_sent 5)"
    by (simp add: example_defs)
  show "Calls (RequestTarget_ProcessAsynchronousRequestSingleReuse (scripted_client example_resend)
        example_framework 5 21 example_reuse_sent) =
       [Call_WdfRequestReuse 5, Call_WdfMemoryCreatePreallocated 11 5,
        Call_WdfMemoryCreatePreallocated 12 5,
        Call_WdfIoTargetFormatRequest 5 RequestType_Ioctl 11 12,
        Call_WdfRequestSetCompletionRoutine 5 CompletionRoutineReuse 21,
        Call_WdfRequestAllocateTimer 5, Call_WdfRequestSend 5 True]"
    by (simp add: RequestTarget_ProcessAsynchronousRequestSingleReuse_def Root_callback
          scripted_client_def example_resend_def DMF_RequestTarget_ReuseSend_def completionOption_of_def
          worker_defs RequestTarget_PendingCollectionReuseListSearch_def ReuseListSearch_loop_find
          SearchAndRemove_loop_remove1 primitive_defs example_defs Let_def)
qed

text \<open>
  Claim C6.  The two collections being two objects:
  RequestTarget\_ProcessAsynchronousRequestRoot hands the callback a state with the
  reuse collection and the record of calls as they were, and after the callback it
  leaves the reuse collection as the callback left it and calls WdfObjectDelete on the
  request exactly when the request is not reusable (\<open>reuseRequest\<close> is FALSE).  In every
  history of the Module in which neither the client nor one of its callbacks calls
  DMF\_RequestTarget\_ReuseDelete, the reuse collection only grows at its end: every
  request that was in it is still in it, whatever completes.  The completion routines
  that DMF\_RequestTarget\_ReuseSend installs are the two reuse routines, those that the
  other send Methods install are the two routines for requests that are not reusable.
\<close>

theorem completion_never_takes_from_reuse_set:
  assumes "PendingAsynchronousRequests s \<noteq> PendingReuseRequests s"
  shows
    "(\<exists>pre arguments.
        ReuseSet pre = ReuseSet s \<and> Calls pre = Calls s \<and>
        (\<forall>client.
           let post = (if EvtRequestTargetSingleAsynchronousRequest (BufferPoolContents s ctx) \<noteq> NULL
                       then client (EvtRequestTargetSingleAsynchronousRequest (BufferPoolContents s ctx))
                              arguments pre
                       else pre);
               s' = RequestTarget_ProcessAsynchronousRequestRoot client w request ctx reuseRequest s
           in ReuseSet s' = ReuseSet post
              \<and> Calls s' = Calls post @ (if reuseRequest then [] else [Call_WdfObjectDelete request])))
     \<and> (never_deletes script events \<longrightarrow> prefix (ReuseSet s) (ReuseSet (history script events s)))
     \<and> list_all (\<lambda>c. set (installed c) \<subseteq> {CompletionRoutineReuse, CompletionRoutinePassiveReuse})
         (new_calls s (snd (DMF_RequestTarget_ReuseSend w c a wantCancel s)))
     \<and> list_all (\<lambda>c. set (installed c) \<subseteq> {CompletionRoutine, CompletionRoutinePassive})
         (new_calls s (snd (DMF_RequestTarget_Send w a s)))
     \<and> list_all (\<lambda>c. set (installed c) \<subseteq> {CompletionRoutine, CompletionRoutinePassive})
         (new_calls s (snd (DMF_RequestTarget_SendEx w a wantCancel s)))
     \<and> list_all (\<lambda>c. set (installed c) \<subseteq> {CompletionRoutine, CompletionRoutinePassive})
         (new_calls s (snd (DMF_RequestTarget_SendSynchronously w a wantBytesWritten s)))"
proof (intro conjI impI)
  define pre where "pre =
    (if reuseRequest then UniqueRequestContext_update request (\<lambda>u. u\<lparr>RequestInUse := False\<rparr>) else id)
      (snd (RequestTarget_PendingCollectionListSearchAndRemove request (PendingAsynchronousRequests s) s))"
  define buffers where "buffers =
    RequestTarget_CompletionParamsInputBufferAndOutputBufferGet (WdfMemoryGetBuffer w)
      (WdfRequestGetCompletionParams_result w) (SingleAsynchronousRequestType (BufferPoolContents s ctx))"
  define arguments where "arguments =
    \<lparr>ClientContext = SingleAsynchronousCallbackClientContext (BufferPoolContents s ctx),
     InputBuffer = fst buffers, InputBufferSize = fst (snd buffers),
     OutputBuffer = fst (snd (snd buffers)), OutputBufferSize = snd (snd (snd buffers)),
     CompletionStatus = WdfRequestGetStatus_result w\<rparr>"
  have 1: "ReuseSet pre = ReuseSet s"
    unfolding pre_def by (rule Root_before_callback(1) [OF assms])
  have 2: "Calls pre = Calls s"
    unfolding pre_def by (rule Root_before_callback(2) [OF assms])
  have root: "RequestTarget_ProcessAsynchronousRequestRoot client w request ctx reuseRequest s =
      DMF_ModuleDereference
        ((if reuseRequest then id else WdfObjectDelete_request request)
           (DMF_BufferPool_Put ctx
              (if EvtRequestTargetSingleAsynchronousRequest (BufferPoolContents s ctx) \<noteq> NULL
               then client (EvtRequestTargetSingleAsynchronousRequest (BufferPoolContents s ctx))
                      arguments pre
               else pre)))" for client
    unfolding pre_def arguments_def buffers_def by (simp add: Root_callback)
  have 3: "\<forall>client.
           let post = (if EvtRequestTargetSingleAsynchronousRequest (BufferPoolContents s ctx) \<noteq> NULL
                       then client (EvtRequestTargetSingleAsynchronousRequest (BufferPoolContents s ctx))
                              arguments pre
                       else pre);
               s' = RequestTarget_ProcessAsynchronousRequestRoot client w request ctx reuseRequest s
           in ReuseSet s' = ReuseSet post
              \<and> Calls s' = Calls post @ (if reuseRequest then [] else [Call_WdfObjectDelete request])"
    unfolding Let_def root by (simp only: Root_after_callback simp_thms)
  show "\<exists>pre arguments.
        ReuseSet pre = ReuseSet s \<and> Calls pre = Calls s \<and>
        (\<forall>client.
           let post = (if EvtRequestTargetSingleAsynchronousRequest (BufferPoolContents s ctx) \<noteq> NULL
                       then client (EvtRequestTargetSingleAsynchronousRequest (BufferPoolContents s ctx))
                              arguments pre
                       else pre);
               s' = RequestTarget_ProcessAsynchronousRequestRoot client w request ctx reuseRequest s
           in ReuseSet s' = ReuseSet post
              \<and> Calls s' = Calls post @ (if reuseRequest then [] else [Call_WdfObjectDelete request]))"
    apply (intro exI conjI)
      apply (rule 1)
     apply (rule 2)
    apply (rule 3)
    done
next
  assume "never_deletes script events"
  then have "evolves False s (history script events s)"
    by (intro history_evolves) simp
  with assms show "prefix (ReuseSet s) (ReuseSet (history script events s))"
    by (auto simp: evolves_def)
qed (rule Method_installs)+

theorem completion_never_takes_from_reuse_set_witness:
  "prefix [5] (ReuseSet (history (\<lambda>f arguments. []) [example_completion] example_reuse_sent))
   \<and> ReuseSet example_reuse_sent = [5]
   \<and> Calls (history (\<lambda>f arguments. []) [example_completion] example_reuse_sent) = []"
proof -
  have a: "ReuseSet example_reuse_sent = [5]"
    by (simp add: example_defs)
  have b: "Calls (history (\<lambda>f arguments. []) [example_completion] example_reuse_sent) = []"
    by (simp add: history_def example_completion_def RequestTarget_CompletionRoutineReuse_def
          RequestTarget_ProcessAsynchronousRequestSingleReuse_def Root_callback scripted_client_def
          primitive_defs example_defs SearchAndRemove_loop_remove1)
  from completion_never_takes_from_reuse_set [where s = example_reuse_sent
         and script = "\<lambda>f arguments. []" and events = "[example_completion]"]
  have "prefix (ReuseSet example_reuse_sent)
          (ReuseSet (history (\<lambda>f arguments. []) [example_completion] example_reuse_sent))"
    by (simp add: never_deletes_def example_completion_def example_defs)
  with a b show ?thesis
    by simp
qed

section \<open>Releasing what a failed send has taken\<close>

text \<open>
  Claim C8 does not hold of the code.  An asynchronous send for which WdfRequestSend
  answers FALSE returns a failure status; the two memory objects are deleted (with the
  request by DMF\_RequestTarget\_SendEx, one by one by DMF\_RequestTarget\_ReuseSend) and the
  request is taken out of the pending collection again, but the context buffer that
  DMF\_BufferPool\_Get has lent is still lent when the call returns: DMF\_BufferPool\_Put
  is called by the completion dispatcher only, and no completion follows a send that
  failed.  When it is WdfRequestAllocateTimer that fails, the request moreover stays in
  the pending collection, after its WdfObjectDelete.
\<close>

theorem failed_send_keeps_pool_buffer:
  "BufferPoolLent example_Module = []
   \<and> fst (DMF_RequestTarget_SendEx example_framework_send_fails example_arguments True example_Module) =
       (STATUS_UNSUCCESSFUL, None, None)
   \<and> BufferPoolLent (snd (DMF_RequestTarget_SendEx example_framework_send_fails example_arguments True
         example_Module)) = [21]
   \<and> MemoryObjects (snd (DMF_RequestTarget_SendEx example_framework_send_fails example_arguments True
         example_Module)) = []
   \<and> PendingSet (snd (DMF_RequestTarget_SendEx example_framework_send_fails example_arguments True
         example_Module)) = []
   \<and> BufferPoolLent example_reuse = []
   \<and> fst (DMF_RequestTarget_ReuseSend example_framework_send_fails 1 example_arguments True example_reuse) =
       (STATUS_UNSUCCESSFUL, None, None)
   \<and> BufferPoolLent (snd (DMF_RequestTarget_ReuseSend example_framework_send_fails 1 example_arguments True
         example_reuse)) = [21]
   \<and> MemoryObjects (snd (DMF_RequestTarget_ReuseSend example_framework_send_fails 1 example_arguments True
         example_reuse)) = []
   \<and> PendingSet (snd (DMF_RequestTarget_ReuseSend example_framework_send_fails 1 example_arguments True
         example_reuse)) = []
   \<and> fst (DMF_RequestTarget_SendEx example_framework_timer_fails example_arguments True example_Module) =
       (STATUS_UNSUCCESSFUL, None, None)
   \<and> PendingSet (snd (DMF_RequestTarget_SendEx example_framework_timer_fails example_arguments True
         example_Module)) = [5]
   \<and> BufferPoolLent (snd (DMF_RequestTarget_SendEx example_framework_timer_fails example_arguments True
         example_Module)) = [21]"
  by (simp add: SendEx_send_fails ReuseSend_send_fails SendEx_timer_fails) (simp add: example_defs)

section \<open>Draining on close\<close>

text \<open>
  Claim C9, as stated, fails: DMF\_RequestTarget\_Close does not wait for completions but
  for the two counts to be zero, and no completion takes a request out of the reuse
  collection.  While the send of the reusable request 5 is outstanding and the target
  completes it during the first sleep, nothing is outstanding any more (the request is
  not in use, no buffer is lent, nothing is pending) and the function still never
  returns; nor does it return for a reusable request that was never sent, while the
  other threads do nothing.
\<close>

theorem close_blocks_while_reusable_request_exists:
  "DMF_RequestTarget_Close example_completes example_reuse_sent = None
   \<and> PendingSet (example_completes 0 example_reuse_sent) = []
   \<and> ReuseSet (example_completes 0 example_reuse_sent) = [5]
   \<and> \<not> RequestInUse (UniqueRequestContextGet (example_completes 0 example_reuse_sent) 5)
   \<and> BufferPoolLent (example_completes 0 example_reuse_sent) = []
   \<and> DMF_RequestTarget_Close (\<lambda>n x. x) example_reuse = None
   \<and> PendingSet example_reuse = [] \<and> BufferPoolLent example_reuse = []
   \<and> \<not> RequestInUse (UniqueRequestContextGet example_reuse 5)"
proof (intro conjI)
  show "DMF_RequestTarget_Close example_completes example_reuse_sent = None"
  proof (rule Close_blocks_while_reusable)
    show "\<exists>script events. never_deletes script events \<and> example_completes n = history script events" for n
      unfolding example_completes_def
      by (intro exI [of _ "\<lambda>f arguments. []"] exI [of _ "if n = 0 then [example_completion] else []"])
         (simp add: never_deletes_def example_completion_def)
  qed (simp_all add: example_defs)
  show "DMF_RequestTarget_Close (\<lambda>n x. x) example_reuse = None"
  proof (rule Close_blocks_while_reusable)
    show "\<exists>script events. never_deletes script events \<and> (\<lambda>x. x) = history script events" for n :: nat
      by (intro exI [of _ "\<lambda>f arguments. []"] exI [of _ "[]"])
         (simp add: never_deletes_def history_def fun_eq_iff)
  qed (simp_all add: example_defs)
qed (simp_all add: example_completes_def history_def example_completion_def
       RequestTarget_CompletionRoutineReuse_def RequestTarget_ProcessAsynchronousRequestSingleReuse_def
       Root_callback scripted_client_def SearchAndRemove_loop_remove1 primitive_defs example_defs)

text \<open>
  Claim C9, amended.  Let the other threads leave the two collection handles of the
  Module alone (only Open and Close assign them), and let both collections exist.
  DMF\_RequestTarget\_Close polls the pending collection, sleeping between two polls,
  releases it after the first poll that finds it empty, then does the same with the reuse
  collection; it returns exactly when such polls exist, with the state after them, and
  does not return otherwise.  When it returns both handles are NULL and the reuse
  collection, polled last, is empty; the pending collection is empty too when the other
  threads change no collection but the ones the Module's handles name.  Completions do
  not empty the reuse collection: while the other threads run histories without
  DMF\_RequestTarget\_ReuseDelete and a reusable request exists, the function does not
  return.
\<close>

theorem close_returns_when_drained:
  assumes others: "\<And>n x. PendingAsynchronousRequests (others n x) = PendingAsynchronousRequests x
                        \<and> PendingReuseRequests (others n x) = PendingReuseRequests x"
    and pending: "PendingAsynchronousRequests s \<noteq> NULL"
    and reuse: "PendingReuseRequests s \<noteq> NULL"
  shows "(DMF_RequestTarget_Close others s = Some s' \<longleftrightarrow>
           (\<exists>k1 k2.
              let sa = after_sleeps others 0 k1 s;
                  sa' = (record_call (Call_WdfObjectDelete (PendingAsynchronousRequests s)) sa)
                          \<lparr>PendingAsynchronousRequests := NULL\<rparr>;
                  sb = after_sleeps others k1 k2 sa'
              in PendingSet sa = [] \<and> (\<forall>j<k1. PendingSet (after_sleeps others 0 j s) \<noteq> [])
                 \<and> ReuseSet sb = [] \<and> (\<forall>j<k2. ReuseSet (after_sleeps others k1 j sa') \<noteq> [])
                 \<and> s' = (record_call (Call_WdfObjectDelete (PendingReuseRequests s)) sb)
                          \<lparr>PendingReuseRequests := NULL\<rparr>))
       \<and> (DMF_RequestTarget_Close others s = Some s' \<longrightarrow>
            PendingAsynchronousRequests s' = NULL \<and> PendingReuseRequests s' = NULL
            \<and> Collections s' (PendingReuseRequests s) = [])
       \<and> ((\<forall>n. \<exists>script events. never_deletes script events \<and> others n = history script events)
            \<and> PendingAsynchronousRequests s \<noteq> PendingReuseRequests s \<and> ReuseSet s \<noteq> [] \<longrightarrow>
            DMF_RequestTarget_Close others s = None)
       \<and> ((\<forall>n x c. c \<noteq> PendingAsynchronousRequests x \<and> c \<noteq> PendingReuseRequests x \<longrightarrow>
                    Collections (others n x) c = Collections x c)
            \<and> PendingAsynchronousRequests s \<noteq> PendingReuseRequests s
            \<and> DMF_RequestTarget_Close others s = Some s' \<longrightarrow>
            Collections s' (PendingAsynchronousRequests s) = [])"
proof -
  note h = after_sleeps_handles [of others, OF others]
  let ?rel_a = "\<lambda>x. (record_call (Call_WdfObjectDelete (PendingAsynchronousRequests s)) x)
                       \<lparr>PendingAsynchronousRequests := NULL\<rparr>"
  let ?rel_b = "\<lambda>x. (record_call (Call_WdfObjectDelete (PendingReuseRequests s)) x)
                       \<lparr>PendingReuseRequests := NULL\<rparr>"
  let ?Q = "\<lambda>k1 k2.
       PendingSet (after_sleeps others 0 k1 s) = []
       \<and> (\<forall>j<k1. PendingSet (after_sleeps others 0 j s) \<noteq> [])
       \<and> ReuseSet (after_sleeps others k1 k2 (?rel_a (after_sleeps others 0 k1 s))) = []
       \<and> (\<forall>j<k2. ReuseSet (after_sleeps others k1 j (?rel_a (after_sleeps others 0 k1 s))) \<noteq> [])
       \<and> s' = ?rel_b (after_sleeps others k1 k2 (?rel_a (after_sleeps others 0 k1 s)))"
  have reuse_a: "PendingReuseRequests (?rel_a x) = PendingReuseRequests x" for x
    by (simp add: record_call_def)
  have r1: "PendingReuseRequests (?rel_a (after_sleeps others 0 k s)) \<noteq> NULL" for k
    using reuse by (simp add: reuse_a h)
  have r2: "PendingReuseRequests (?rel_a (after_sleeps others 0 k s)) = PendingReuseRequests s" for k
    by (simp add: reuse_a h)
  have forth: "\<exists>k1 k2. ?Q k1 k2" if close: "DMF_RequestTarget_Close others s = Some s'"
  proof -
    from close obtain n1 s1 n2 where a: "Close_PendingAsynchronousRequests others 0 s = Some (n1, s1)"
      and b: "Close_PendingReuseRequests others n1 s1 = Some (n2, s')"
      by (auto simp: DMF_RequestTarget_Close_def split: option.splits)
    from a obtain k1 where k1: "n1 = k1" "PendingSet (after_sleeps others 0 k1 s) = []"
      "\<forall>j<k1. PendingSet (after_sleeps others 0 j s) \<noteq> []"
      "s1 = ?rel_a (after_sleeps others 0 k1 s)"
      unfolding Close_PendingAsynchronousRequests_iff [OF others pending] by auto
    from b obtain k2 where k2: "ReuseSet (after_sleeps others k1 k2 (?rel_a (after_sleeps others 0 k1 s))) = []"
      "\<forall>j<k2. ReuseSet (after_sleeps others k1 j (?rel_a (after_sleeps others 0 k1 s))) \<noteq> []"
      "s' = ?rel_b (after_sleeps others k1 k2 (?rel_a (after_sleeps others 0 k1 s)))"
      unfolding k1(1,4) Close_PendingReuseRequests_iff [OF others r1] r2 by auto
    from k1 k2 show ?thesis
      by blast
  qed
  have converse: "DMF_RequestTarget_Close others s = Some s'" if "?Q k1 k2" for k1 k2
  proof -
    let ?s1 = "?rel_a (after_sleeps others 0 k1 s)"
    have a: "Close_PendingAsynchronousRequests others 0 s = Some (k1, ?s1)"
      unfolding Close_PendingAsynchronousRequests_iff [OF others pending] using that by auto
    have b: "Close_PendingReuseRequests others k1 ?s1 = Some (k1 + k2, s')"
      unfolding Close_PendingReuseRequests_iff [OF others r1] r2 using that by auto
    show ?thesis
      by (simp add: DMF_RequestTarget_Close_def a b)
  qed
  have handles: "PendingAsynchronousRequests s' = NULL \<and> PendingReuseRequests s' = NULL
            \<and> Collections s' (PendingReuseRequests s) = []" if "?Q k1 k2" for k1 k2
  proof -
    let ?s1 = "?rel_a (after_sleeps others 0 k1 s)"
    have "PendingAsynchronousRequests (after_sleeps others k1 k2 ?s1) = PendingAsynchronousRequests ?s1"
      "PendingReuseRequests (after_sleeps others k1 k2 ?s1) = PendingReuseRequests ?s1"
      using h by blast+
    with that show ?thesis
      by (simp add: record_call_def h)
  qed
  have iff: "DMF_RequestTarget_Close others s = Some s' \<longleftrightarrow> (\<exists>k1 k2. ?Q k1 k2)"
  proof
    assume "DMF_RequestTarget_Close others s = Some s'"
    then show "\<exists>k1 k2. ?Q k1 k2"
      by (rule forth)
  next
    assume "\<exists>k1 k2. ?Q k1 k2"
    then obtain k1 k2 where "?Q k1 k2"
      by (elim exE)
    then show "DMF_RequestTarget_Close others s = Some s'"
      by (rule converse)
  qed
  have after: "DMF_RequestTarget_Close others s = Some s' \<longrightarrow>
            PendingAsynchronousRequests s' = NULL \<and> PendingReuseRequests s' = NULL
            \<and> Collections s' (PendingReuseRequests s) = []"
  proof
    assume "DMF_RequestTarget_Close others s = Some s'"
    then have "\<exists>k1 k2. ?Q k1 k2"
      by (rule forth)
    then obtain k1 k2 where "?Q k1 k2"
      by (elim exE)
    then show "PendingAsynchronousRequests s' = NULL \<and> PendingReuseRequests s' = NULL
            \<and> Collections s' (PendingReuseRequests s) = []"
      by (rule handles)
  qed
  have blocks: "(\<forall>n. \<exists>script events. never_deletes script events \<and> others n = history script events)
            \<and> PendingAsynchronousRequests s \<noteq> PendingReuseRequests s \<and> ReuseSet s \<noteq> [] \<longrightarrow>
            DMF_RequestTarget_Close others s = None"
    using reuse by (auto intro: Close_blocks_while_reusable)
  have drained: "(\<forall>n x c. c \<noteq> PendingAsynchronousRequests x \<and> c \<noteq> PendingReuseRequests x \<longrightarrow>
                    Collections (others n x) c = Collections x c)
            \<and> PendingAsynchronousRequests s \<noteq> PendingReuseRequests s
            \<and> DMF_RequestTarget_Close others s = Some s' \<longrightarrow>
            Collections s' (PendingAsynchronousRequests s) = []"
  proof
    assume a: "(\<forall>n x c. c \<noteq> PendingAsynchronousRequests x \<and> c \<noteq> PendingReuseRequests x \<longrightarrow>
                    Collections (others n x) c = Collections x c)
            \<and> PendingAsynchronousRequests s \<noteq> PendingReuseRequests s
            \<and> DMF_RequestTarget_Close others s = Some s'"
    then have "\<exists>k1 k2. ?Q k1 k2"
      by (intro forth) simp
    then obtain k1 k2 where q: "?Q k1 k2"
      by (elim exE)
    let ?sa = "after_sleeps others 0 k1 s"
    from a have alone: "\<And>n x c. c \<noteq> PendingAsynchronousRequests x \<Longrightarrow> c \<noteq> PendingReuseRequests x \<Longrightarrow>
                    Collections (others n x) c = Collections x c"
      by blast
    have "Collections (after_sleeps others k1 k2 (?rel_a ?sa)) (PendingAsynchronousRequests s) =
            Collections (?rel_a ?sa) (PendingAsynchronousRequests s)"
    proof (rule after_sleeps_alone [of others, OF others alone])
      show "PendingAsynchronousRequests s \<noteq> PendingAsynchronousRequests (?rel_a ?sa)"
        using pending by simp
      show "PendingAsynchronousRequests s \<noteq> PendingReuseRequests (?rel_a ?sa)"
        using a by (simp add: record_call_def h)
    qed
    moreover have "Collections (?rel_a ?sa) (PendingAsynchronousRequests s) = []"
      using q by (simp add: record_call_def h)
    ultimately show "Collections s' (PendingAsynchronousRequests s) = []"
      using q by (simp add: record_call_def)
  qed
  show ?thesis
    unfolding Let_def by (rule conjI [OF iff conjI [OF after conjI [OF blocks drained]]])
qed

theorem close_returns_when_drained_witness:
  "PendingSet example_closing = [7] \<and> ReuseSet example_closing = [5]
   \<and> (\<exists>s'. DMF_RequestTarget_Close example_others example_closing = Some s'
          \<and> PendingAsynchronousRequests s' = NULL \<and> PendingReuseRequests s' = NULL
          \<and> Collections s' 1 = [] \<and> Collections s' 2 = []
          \<and> Calls s' = [Call_WdfObjectDelete 7, Call_WdfObjectDelete 1, Call_WdfObjectDelete 5,
                         Call_WdfObjectDereference 5, Call_WdfObjectDelete 2])"
proof (intro conjI)
  show "PendingSet example_closing = [7]" "ReuseSet example_closing = [5]"
    by (simp_all add: example_closing_def example_Module_def)
  let ?sa = "after_sleeps example_others 0 1 example_closing"
  let ?sa' = "(record_call (Call_WdfObjectDelete (PendingAsynchronousRequests example_closing)) ?sa)
                \<lparr>PendingAsynchronousRequests := NULL\<rparr>"
  let ?sb = "after_sleeps example_others 1 1 ?sa'"
  let ?s' = "(record_call (Call_WdfObjectDelete (PendingReuseRequests example_closing)) ?sb)
               \<lparr>PendingReuseRequests := NULL\<rparr>"
  have others: "PendingAsynchronousRequests (example_others n x) = PendingAsynchronousRequests x
                 \<and> PendingReuseRequests (example_others n x) = PendingReuseRequests x" for n x
    using occur_evolves [of True "\<lambda>f arguments. []" _ x]
    by (simp add: example_others_def evolves_def)
  have alone: "\<forall>n x c. c \<noteq> PendingAsynchronousRequests x \<and> c \<noteq> PendingReuseRequests x \<longrightarrow>
                    Collections (example_others n x) c = Collections x c"
    by (simp add: example_others_def RequestTarget_CompletionRoutine_def
          RequestTarget_ProcessAsynchronousRequestSingle_def Root_callback scripted_client_def
          DMF_RequestTarget_ReuseDelete_def RequestTarget_PendingCollectionReuseListSearch_def
          primitive_defs case_prod_beta Let_def)
  have pending: "PendingAsynchronousRequests example_closing \<noteq> NULL"
    and reuse: "PendingReuseRequests example_closing \<noteq> NULL"
    by (simp_all add: example_closing_def example_Module_def)
  have sa: "PendingSet ?sa = []"
    by (simp add: close_eval)
  have sa0: "\<forall>j<1. PendingSet (after_sleeps example_others 0 j example_closing) \<noteq> []"
    by (simp add: close_eval)
  have sb: "ReuseSet ?sb = []"
    by (simp add: close_eval)
  have sb0: "\<forall>j<1. ReuseSet (after_sleeps example_others 1 j ?sa') \<noteq> []"
    by (simp add: close_eval)
  have calls: "Calls ?s' = [Call_WdfObjectDelete 7, Call_WdfObjectDelete 1, Call_WdfObjectDelete 5,
                         Call_WdfObjectDereference 5, Call_WdfObjectDelete 2]"
    by (simp add: close_eval)
  have "\<exists>k1 k2.
              let sa = after_sleeps example_others 0 k1 example_closing;
                  sa' = (record_call (Call_WdfObjectDelete (PendingAsynchronousRequests example_closing)) sa)
                          \<lparr>PendingAsynchronousRequests := NULL\<rparr>;
                  sb = after_sleeps example_others k1 k2 sa'
              in PendingSet sa = [] \<and> (\<forall>j<k1. PendingSet (after_sleeps example_others 0 j example_closing) \<noteq> [])
                 \<and> ReuseSet sb = [] \<and> (\<forall>j<k2. ReuseSet (after_sleeps example_others k1 j sa') \<noteq> [])
                 \<and> ?s' = (record_call (Call_WdfObjectDelete (PendingReuseRequests example_closing)) sb)
                          \<lparr>PendingReuseRequests := NULL\<rparr>"
    apply (rule exI [of _ 1])
    apply (rule exI [of _ 1])
    unfolding Let_def
    apply (intro conjI)
        apply (rule sa)
       apply (rule sa0)
      apply (rule sb)
     apply (rule sb0)
    apply (rule refl)
    done
  with close_returns_when_drained [of example_others example_closing ?s', OF others pending reuse]
  have "DMF_RequestTarget_Close example_others example_closing = Some ?s'"
    and "PendingAsynchronousRequests ?s' = NULL \<and> PendingReuseRequests ?s' = NULL"
    and "Collections ?s' (PendingReuseRequests example_closing) = []"
    and "(\<forall>n x c. c \<noteq> PendingAsynchronousRequests x \<and> c \<noteq> PendingReuseRequests x \<longrightarrow>
                    Collections (example_others n x) c = Collections x c)
            \<and> PendingAsynchronousRequests example_closing \<noteq> PendingReuseRequests example_closing
            \<and> DMF_RequestTarget_Close example_others example_closing = Some ?s' \<longrightarrow>
            Collections ?s' (PendingAsynchronousRequests example_closing) = []"
    by blast+
  moreover have "PendingAsynchronousRequests example_closing = 1" "PendingReuseRequests example_closing = 2"
    by (simp_all add: example_closing_def example_Module_def)
  moreover note alone
  ultimately have "DMF_RequestTarget_Close example_others example_closing = Some ?s'"
    and "PendingAsynchronousRequests ?s' = NULL \<and> PendingReuseRequests ?s' = NULL"
    and "Collections ?s' 1 = [] \<and> Collections ?s' 2 = []"
    by simp_all
  with calls show "\<exists>s'. DMF_RequestTarget_Close example_others example_closing = Some s'
          \<and> PendingAsynchronousRequests s' = NULL \<and> PendingReuseRequests s' = NULL
          \<and> Collections s' 1 = [] \<and> Collections s' 2 = []
          \<and> Calls s' = [Call_WdfObjectDelete 7, Call_WdfObjectDelete 1, Call_WdfObjectDelete 5,
                         Call_WdfObjectDereference 5, Call_WdfObjectDelete 2]"
    by blast
qed

end
